(* ===== verification/Float64.thy ===== *)
theory Float64
  imports Complex_Main "HOL-Library.Log_Nat"
begin

text \<open>
  Go's \<^verbatim>\<open>float64\<close>. A share of a card is a \<^verbatim>\<open>float64\<close> everywhere in gmux
  (\<^verbatim>\<open>internal/share\<close>, \<^verbatim>\<open>scheduler.Request.Share\<close>, \<^verbatim>\<open>accounting.Interval.Share\<close>), and the
  code rounds, compares and converts such values, so the model keeps the IEEE 754 binary64
  semantics: a finite value is the rational it denotes, every arithmetic operation is the exact
  rational operation followed by \<open>rnd\<close> (round to nearest, ties to even, gradual underflow,
  overflow to an infinity), and infinities and NaN are constructors of their own. The sign of a
  zero is not kept: no function of gmux can tell \<open>-0\<close> from \<open>+0\<close>.
  Operations are rounded one by one, as the amd64 compiler emits them; the fused multiply-add the
  Go specification allows on some other architectures is not modelled.

  The theorems at the end are the ones the callers need: how far a rounded result is from the
  exact one, that integers up to \<open>2^53\<close> are exact, and that rounding does not step over an integer.
\<close>

datatype float64 = Fin rat | PInf | NInf | NaN

subsection \<open>Rounding\<close>

text \<open>Round to the nearest integer, a tie to the even one.\<close>

definition rhe :: "rat \<Rightarrow> int" where
  "rhe q = (let f = \<lfloor>q\<rfloor>; r = q - of_int f in
     if r < 1 / 2 then f else if 1 / 2 < r then f + 1 else if even f then f else f + 1)"

text \<open>The binary exponent of a nonzero rational: \<open>2^e \<le> |q| < 2^(e+1)\<close>.\<close>

definition rat_exp :: "rat \<Rightarrow> int" where
  "rat_exp q = (let (a, b) = quotient_of \<bar>q\<bar>; d = bitlen a - bitlen b
     in if 2 powi d \<le> \<bar>q\<bar> then d else d - 1)"

text \<open>The spacing of the binary64 numbers around \<open>q\<close>; below \<open>2^(-1022)\<close> it stays constant.\<close>

definition ulp :: "rat \<Rightarrow> rat" where
  "ulp q = 2 powi (max (rat_exp q) (- 1022) - 52)"

text \<open>The result overflows when its exponent, after rounding, is above 1023.\<close>

definition rnd :: "rat \<Rightarrow> float64" where
  "rnd q = (if q = 0 then Fin 0
     else let m = rhe (q / ulp q); e = rat_exp q
       in if 1023 < e \<or> e = 1023 \<and> 2 ^ 53 \<le> \<bar>m\<bar> then (if 0 < q then PInf else NInf)
          else Fin (of_int m * ulp q))"

subsection \<open>Arithmetic, comparison, conversion\<close>

fun f64_neg :: "float64 \<Rightarrow> float64" where
  "f64_neg (Fin a) = Fin (- a)"
| "f64_neg PInf = NInf"
| "f64_neg NInf = PInf"
| "f64_neg NaN = NaN"

fun f64_add :: "float64 \<Rightarrow> float64 \<Rightarrow> float64" where
  "f64_add (Fin a) (Fin b) = rnd (a + b)"
| "f64_add NaN _ = NaN"
| "f64_add _ NaN = NaN"
| "f64_add PInf NInf = NaN"
| "f64_add NInf PInf = NaN"
| "f64_add PInf _ = PInf"
| "f64_add _ PInf = PInf"
| "f64_add NInf _ = NInf"
| "f64_add _ NInf = NInf"

definition f64_sub :: "float64 \<Rightarrow> float64 \<Rightarrow> float64" where
  "f64_sub a b = f64_add a (f64_neg b)"

text \<open>The sign of a value, for the products and quotients with an infinity.\<close>

fun f64_sgn :: "float64 \<Rightarrow> int" where
  "f64_sgn (Fin a) = (if 0 < a then 1 else if a < 0 then - 1 else 0)"
| "f64_sgn PInf = 1"
| "f64_sgn NInf = - 1"
| "f64_sgn NaN = 0"

definition f64_inf :: "int \<Rightarrow> float64" where
  "f64_inf s = (if 0 < s then PInf else if s < 0 then NInf else NaN)"

fun f64_mul :: "float64 \<Rightarrow> float64 \<Rightarrow> float64" where
  "f64_mul (Fin a) (Fin b) = rnd (a * b)"
| "f64_mul a b = f64_inf (f64_sgn a * f64_sgn b)"

text \<open>A finite value over a zero: the zero counts as \<open>+0\<close>, which is what an \<open>int\<close> converts to.\<close>

fun f64_div :: "float64 \<Rightarrow> float64 \<Rightarrow> float64" where
  "f64_div (Fin a) (Fin b) = (if b = 0 then f64_inf (f64_sgn (Fin a)) else rnd (a / b))"
| "f64_div NaN _ = NaN"
| "f64_div _ NaN = NaN"
| "f64_div (Fin _) _ = Fin 0"
| "f64_div PInf (Fin b) = (if b < 0 then NInf else PInf)"
| "f64_div NInf (Fin b) = (if b < 0 then PInf else NInf)"
| "f64_div _ _ = NaN"

text \<open>Comparisons are false as soon as one side is NaN.\<close>

fun f64_lt :: "float64 \<Rightarrow> float64 \<Rightarrow> bool" where
  "f64_lt (Fin a) (Fin b) = (a < b)"
| "f64_lt (Fin _) PInf = True"
| "f64_lt NInf (Fin _) = True"
| "f64_lt NInf PInf = True"
| "f64_lt _ _ = False"

fun f64_le :: "float64 \<Rightarrow> float64 \<Rightarrow> bool" where
  "f64_le (Fin a) (Fin b) = (a \<le> b)"
| "f64_le (Fin _) PInf = True"
| "f64_le NInf (Fin _) = True"
| "f64_le NInf PInf = True"
| "f64_le PInf PInf = True"
| "f64_le NInf NInf = True"
| "f64_le _ _ = False"

definition f64_of_int :: "int \<Rightarrow> float64" where
  "f64_of_int i = rnd (of_int i)"

fun f64_ceil :: "float64 \<Rightarrow> float64" where
  "f64_ceil (Fin q) = Fin (of_int \<lceil>q\<rceil>)"
| "f64_ceil x = x"

text \<open>\<^verbatim>\<open>math.Round\<close>: to the nearest integer, a tie away from zero.\<close>

definition round_away :: "rat \<Rightarrow> int" where
  "round_away q = (if 0 \<le> q then \<lfloor>q + 1 / 2\<rfloor> else - \<lfloor>- q + 1 / 2\<rfloor>)"

fun f64_round :: "float64 \<Rightarrow> float64" where
  "f64_round (Fin q) = Fin (of_int (round_away q))"
| "f64_round x = x"

definition int64_ok :: "int \<Rightarrow> bool" where
  "int64_ok i \<longleftrightarrow> - (2 ^ 63) \<le> i \<and> i < 2 ^ 63"

text \<open>
  \<^verbatim>\<open>int(x)\<close>: truncation towards zero. For a value with no \<^verbatim>\<open>int64\<close> counterpart the Go specification
  leaves the result to the implementation; amd64's conversion gives the least \<^verbatim>\<open>int64\<close>.
\<close>

fun f64_to_int :: "float64 \<Rightarrow> int" where
  "f64_to_int (Fin q) =
     (let i = (if 0 \<le> q then \<lfloor>q\<rfloor> else \<lceil>q\<rceil>) in if int64_ok i then i else - (2 ^ 63))"
| "f64_to_int _ = - (2 ^ 63)"

subsection \<open>What rounding keeps\<close>

lemma rhe_err: "\<bar>of_int (rhe q) - q\<bar> \<le> 1 / 2"
proof -
  have f: "of_int \<lfloor>q\<rfloor> \<le> q" "q < of_int \<lfloor>q\<rfloor> + 1" by linarith+
  show ?thesis
    using f unfolding rhe_def Let_def by (auto simp: abs_le_iff)
qed

lemma rhe_le: "q \<le> of_int i \<Longrightarrow> rhe q \<le> i"
  using rhe_err [of q] by linarith

lemma rhe_ge: "of_int i \<le> q \<Longrightarrow> i \<le> rhe q"
  using rhe_err [of q] by linarith

lemma rhe_of_int [simp]: "rhe (of_int i) = i"
  by (intro antisym rhe_le rhe_ge) simp_all

lemma bitlen_bounds_rat:
  assumes "0 < a"
  shows "2 powi (bitlen a - 1) \<le> (of_int a :: rat)" and "(of_int a :: rat) < 2 powi (bitlen a)"
proof -
  have pos: "1 \<le> bitlen a" using assms by (simp add: bitlen_ge_iff_power)
  note b = bitlen_bounds [OF assms]
  have "(of_int (2 ^ nat (bitlen a - 1)) :: rat) \<le> of_int a" using b by linarith
  then show "2 powi (bitlen a - 1) \<le> (of_int a :: rat)" using pos by (simp add: power_int_def)
  have "(of_int a :: rat) < of_int (2 ^ nat (bitlen a))" using b by linarith
  then show "(of_int a :: rat) < 2 powi (bitlen a)" using pos by (simp add: power_int_def)
qed

lemma rat_exp_bounds:
  assumes "q \<noteq> 0"
  shows "2 powi (rat_exp q) \<le> \<bar>q\<bar>" and "\<bar>q\<bar> < 2 powi (rat_exp q + 1)"
proof -
  obtain a b where ab: "quotient_of \<bar>q\<bar> = (a, b)" by (cases "quotient_of \<bar>q\<bar>")
  from ab have b0: "0 < b" by (rule quotient_of_denom_pos)
  from ab have q: "\<bar>q\<bar> = of_int a / of_int b" by (rule quotient_of_div)
  from q assms b0 have a0: "0 < a"
    by (metis abs_of_pos divide_pos_pos of_int_0_less_iff zero_less_abs_iff zero_less_divide_iff
        not_less_iff_gr_or_eq)
  let ?d = "bitlen a - bitlen b"
  have rb: "0 < (of_int b :: rat)" using b0 by simp
  have p: "0 < (2::rat) powi k" for k by simp
  have up: "\<bar>q\<bar> < 2 powi (?d + 1)"
  proof -
    have "(of_int a :: rat) < 2 powi (?d + 1) * 2 powi (bitlen b - 1)"
      using bitlen_bounds_rat(2) [OF a0] by (simp flip: power_int_add)
    also have "\<dots> \<le> 2 powi (?d + 1) * of_int b"
      using bitlen_bounds_rat(1) [OF b0] p by (intro mult_left_mono) (auto intro: less_imp_le)
    finally show ?thesis using rb by (simp add: q pos_divide_less_eq)
  qed
  have low: "2 powi (?d - 1) \<le> \<bar>q\<bar>"
  proof -
    have "2 powi (?d - 1) * of_int b \<le> 2 powi (?d - 1) * (2 powi (bitlen b) :: rat)"
      using bitlen_bounds_rat(2) [OF b0] p by (intro mult_left_mono) (auto intro: less_imp_le)
    also have "\<dots> \<le> of_int a"
      using bitlen_bounds_rat(1) [OF a0] by (simp flip: power_int_add)
    finally show ?thesis using rb by (simp add: q pos_le_divide_eq)
  qed
  from up low show "2 powi (rat_exp q) \<le> \<bar>q\<bar>" "\<bar>q\<bar> < 2 powi (rat_exp q + 1)"
    by (auto simp: rat_exp_def ab Let_def)
qed

lemma ulp_pos [simp]: "0 < ulp q"
  by (simp add: ulp_def)

lemma ulp_nonzero [simp]: "ulp q \<noteq> 0"
  by (simp add: ulp_def)

lemma rat_exp_le:
  assumes "q \<noteq> 0" and "\<bar>q\<bar> \<le> 2 ^ k"
  shows "rat_exp q \<le> int k"
proof (rule ccontr)
  assume "\<not> ?thesis"
  then have "int k + 1 \<le> rat_exp q" by simp
  then have "(2::rat) powi (int k + 1) \<le> 2 powi (rat_exp q)" by (intro power_int_increasing) auto
  also have "\<dots> \<le> 2 powi (int k)" using rat_exp_bounds(1) [OF assms(1)] assms(2) by simp
  finally show False by (simp add: power_int_add)
qed

lemma ulp_le:
  assumes "q \<noteq> 0" and "\<bar>q\<bar> \<le> 2 ^ k"
  shows "ulp q \<le> 2 ^ k / 2 ^ 52"
proof -
  have "ulp q \<le> 2 powi (int k - 52)"
    unfolding ulp_def using rat_exp_le [OF assms] by (intro power_int_increasing) auto
  then show ?thesis by (simp add: power_int_diff)
qed

text \<open>A result below \<open>2^k\<close> is off by at most half a unit of its last place, and does not overflow.\<close>

lemma rnd_err:
  assumes "\<bar>q\<bar> \<le> 2 ^ k" and "k < 1023"
  obtains r where "rnd q = Fin r" and "\<bar>r - q\<bar> \<le> 2 ^ k / 2 ^ 53"
proof (cases "q = 0")
  case True
  then show thesis using that [of 0] by (simp add: rnd_def)
next
  case False
  let ?v = "of_int (rhe (q / ulp q)) * ulp q"
  have "\<bar>of_int (rhe (q / ulp q)) - q / ulp q\<bar> * ulp q \<le> 1 / 2 * ulp q"
    using rhe_err by (intro mult_right_mono) (auto intro: less_imp_le)
  moreover have "\<bar>of_int (rhe (q / ulp q)) - q / ulp q\<bar> * ulp q =
      \<bar>(of_int (rhe (q / ulp q)) - q / ulp q) * ulp q\<bar>"
    using ulp_pos [of q] by (simp only: abs_mult abs_of_pos)
  moreover have "(of_int (rhe (q / ulp q)) - q / ulp q) * ulp q = ?v - q"
    by (simp add: left_diff_distrib)
  ultimately have e: "\<bar>?v - q\<bar> \<le> 2 ^ k / 2 ^ 53" using ulp_le [OF False assms(1)] by simp
  have "rat_exp q < 1023" using rat_exp_le [OF False assms(1)] assms(2) by simp
  then have "rnd q = Fin ?v" using False by (simp add: rnd_def Let_def)
  from this e show thesis by (rule that)
qed

text \<open>An integer below \<open>2^53\<close> is a multiple of the spacing around every smaller value.\<close>

lemma int_over_ulp:
  assumes "q \<noteq> 0" and "\<bar>q\<bar> \<le> 2 ^ 52"
  obtains k where "of_int i / ulp q = of_int k"
proof -
  have e: "rat_exp q \<le> 52" using rat_exp_le [OF assms] by simp
  then have m: "0 \<le> 52 - max (rat_exp q) (- 1022)" by simp
  have "of_int i / ulp q = of_int i * 2 powi (52 - max (rat_exp q) (- 1022))"
    by (simp add: ulp_def power_int_diff field_simps)
  also have "\<dots> = of_int (i * 2 ^ nat (52 - max (rat_exp q) (- 1022)))"
    using m by (simp add: power_int_def)
  finally show thesis by (rule that)
qed

lemma rnd_int:
  assumes "\<bar>i\<bar> \<le> 2 ^ 52"
  shows "rnd (of_int i) = Fin (of_int i)"
proof (cases "i = 0")
  case False
  have b: "\<bar>(of_int i :: rat)\<bar> \<le> 2 ^ 52" using assms by (metis of_int_abs of_int_le_iff of_int_numeral of_int_power)
  obtain k where k: "(of_int i :: rat) / ulp (of_int i) = of_int k"
    using int_over_ulp [of "of_int i" i] False b by auto
  then have v: "of_int k * ulp (of_int i) = (of_int i :: rat)" by (simp add: field_simps)
  have "rat_exp (of_int i) \<le> 52" using rat_exp_le [of "of_int i" 52] False b by simp
  then show ?thesis using False by (simp add: rnd_def k v Let_def)
qed (simp add: rnd_def)

lemma f64_of_int_exact [simp]: "\<bar>i\<bar> \<le> 2 ^ 52 \<Longrightarrow> f64_of_int i = Fin (of_int i)"
  by (simp add: f64_of_int_def rnd_int)

text \<open>Rounding never steps over an integer.\<close>

lemma rnd_between:
  assumes "of_int l \<le> q" and "q \<le> of_int h" and "\<bar>q\<bar> \<le> 2 ^ 52"
  obtains r where "rnd q = Fin r" and "of_int l \<le> r" and "r \<le> of_int h"
proof (cases "q = 0")
  case True
  then show thesis using that [of 0] assms by (simp add: rnd_def)
next
  case False
  let ?m = "rhe (q / ulp q)"
  obtain r where r: "rnd q = Fin r" using rnd_err [OF assms(3)] by auto
  then have rv: "r = of_int ?m * ulp q" using False by (simp add: rnd_def Let_def split: if_splits)
  obtain kl where kl: "of_int l / ulp q = of_int kl" using int_over_ulp [OF False assms(3)] .
  obtain kh where kh: "of_int h / ulp q = of_int kh" using int_over_ulp [OF False assms(3)] .
  have "of_int l / ulp q \<le> q / ulp q" using assms(1) by (intro divide_right_mono) (auto intro: less_imp_le)
  then have "kl \<le> ?m" by (intro rhe_ge) (simp add: kl)
  then have "of_int kl * ulp q \<le> r" unfolding rv by (intro mult_right_mono) (auto intro: less_imp_le)
  moreover have "of_int kl * ulp q = of_int l" using kl by (simp add: field_simps)
  moreover have "q / ulp q \<le> of_int h / ulp q" using assms(2) by (intro divide_right_mono) (auto intro: less_imp_le)
  then have "?m \<le> kh" by (intro rhe_le) (simp add: kh)
  then have "r \<le> of_int kh * ulp q" unfolding rv by (intro mult_right_mono) (auto intro: less_imp_le)
  moreover have "of_int kh * ulp q = of_int h" using kh by (simp add: field_simps)
  ultimately show thesis using r by (intro that) simp_all
qed

lemma rnd_nonneg:
  assumes "of_int 0 \<le> q" and "q \<le> of_int h" and "h \<le> 2 ^ 52"
  obtains r where "rnd q = Fin r" and "of_int 0 \<le> r" and "r \<le> of_int h"
proof -
  have "(of_int h :: rat) \<le> of_int (2 ^ 52)" using assms(3) by (simp only: of_int_le_iff)
  then have "\<bar>q\<bar> \<le> 2 ^ 52" using assms by simp
  from rnd_between [OF assms(1,2) this] that show thesis by blast
qed

lemma f64_to_int_Fin:
  assumes "of_int i \<le> q" and "q < of_int i + 1" and "0 \<le> i" and "i < 2 ^ 63"
  shows "f64_to_int (Fin q) = i"
proof -
  have "0 \<le> q" using assms(1,3) by (metis of_int_0_le_iff order_trans)
  moreover have "\<lfloor>q\<rfloor> = i" using assms(1,2) by (simp add: floor_unique)
  ultimately show ?thesis using assms(3,4) by (simp add: int64_ok_def)
qed

lemma int64_okI: "- 1 \<le> i \<Longrightarrow> i \<le> 2 ^ 60 \<Longrightarrow> int64_ok i"
  by (simp add: int64_ok_def)

lemma f64_to_int_of_int: "int64_ok i \<Longrightarrow> f64_to_int (Fin (of_int i)) = i"
  by simp

end
