(* ===== verification/Go_Strings.thy ===== *)
theory Go_Strings
  imports Float64 "HOL-Library.Sublist"
begin

text \<open>
  What gmux uses of Go's \<^verbatim>\<open>strings\<close> and \<^verbatim>\<open>strconv\<close> packages, over byte strings (a Go string is a
  sequence of bytes, a HOL \<open>char\<close> is one byte). Everything is executable. Two functions of the
  standard library read the Unicode case tables; for a string with a byte above 127 they are the
  parameter \<open>uni\<close> of \<open>ToLower\<close> and \<open>ToUpper\<close>, and for an ASCII string they are computed.
\<close>

subsection \<open>Bytes and case\<close>

definition byte :: "char \<Rightarrow> nat" where
  "byte c = of_char c"

definition is_ascii :: "string \<Rightarrow> bool" where
  "is_ascii s \<longleftrightarrow> list_all (\<lambda>c. byte c < 128) s"

definition lower_char :: "char \<Rightarrow> char" where
  "lower_char c = (if 65 \<le> byte c \<and> byte c \<le> 90 then char_of (byte c + 32) else c)"

definition upper_char :: "char \<Rightarrow> char" where
  "upper_char c = (if 97 \<le> byte c \<and> byte c \<le> 122 then char_of (byte c - 32) else c)"

definition ToLower :: "(string \<Rightarrow> string) \<Rightarrow> string \<Rightarrow> string" where
  "ToLower uni s = (if is_ascii s then map lower_char s else uni s)"

definition ToUpper :: "(string \<Rightarrow> string) \<Rightarrow> string \<Rightarrow> string" where
  "ToUpper uni s = (if is_ascii s then map upper_char s else uni s)"

text \<open>\<^verbatim>\<open>strings.EqualFold\<close>; \<open>uni_eq\<close> is what it says when one of the strings is not ASCII.\<close>

definition EqualFold :: "(string \<Rightarrow> string \<Rightarrow> bool) \<Rightarrow> string \<Rightarrow> string \<Rightarrow> bool" where
  "EqualFold uni_eq a b = (if is_ascii a \<and> is_ascii b then map lower_char a = map lower_char b else uni_eq a b)"

subsection \<open>Prefixes, suffixes, searching\<close>

definition HasPrefix :: "string \<Rightarrow> string \<Rightarrow> bool" where
  "HasPrefix s p \<longleftrightarrow> prefix p s"

definition HasSuffix :: "string \<Rightarrow> string \<Rightarrow> bool" where
  "HasSuffix s p \<longleftrightarrow> suffix p s"

definition TrimPrefix :: "string \<Rightarrow> string \<Rightarrow> string" where
  "TrimPrefix s p = (if prefix p s then drop (length p) s else s)"

definition TrimSuffix :: "string \<Rightarrow> string \<Rightarrow> string" where
  "TrimSuffix s p = (if suffix p s then take (length s - length p) s else s)"

text \<open>\<^verbatim>\<open>strings.TrimRight\<close> with an ASCII cutset.\<close>

definition TrimRight :: "string \<Rightarrow> string \<Rightarrow> string" where
  "TrimRight s cutset = rev (dropWhile (\<lambda>c. c \<in> set cutset) (rev s))"

text \<open>
  \<^verbatim>\<open>strings.TrimSpace\<close>: the Unicode White\_Space runes, as the byte sequences that encode them.
\<close>

definition bytes :: "nat list \<Rightarrow> string" where
  "bytes = map char_of"

definition white_space :: "string list" where
  "white_space = map bytes
     ([[9], [10], [11], [12], [13], [32], [194, 133], [194, 160], [225, 154, 128],
       [226, 128, 168], [226, 128, 169], [226, 128, 175], [226, 129, 159], [227, 128, 128]]
      @ map (\<lambda>k. [226, 128, k]) [128..<139])"

fun trim_with :: "string list \<Rightarrow> nat \<Rightarrow> string \<Rightarrow> string" where
  "trim_with sps 0 s = s"
| "trim_with sps (Suc n) s =
     (case find (\<lambda>p. prefix p s) sps of None \<Rightarrow> s | Some p \<Rightarrow> trim_with sps n (drop (length p) s))"

definition TrimSpace :: "string \<Rightarrow> string" where
  "TrimSpace s = (let t = trim_with white_space (length s) s
     in rev (trim_with (map rev white_space) (length t) (rev t)))"

text \<open>\<^verbatim>\<open>strings.Index\<close>: the offset of the first occurrence, \<open>-1\<close> for none.\<close>

fun index_from :: "nat \<Rightarrow> string \<Rightarrow> string \<Rightarrow> int" where
  "index_from k [] sub = (if sub = [] then int k else - 1)"
| "index_from k (c # s) sub = (if prefix sub (c # s) then int k else index_from (Suc k) s sub)"

definition Index :: "string \<Rightarrow> string \<Rightarrow> int" where
  "Index s sub = index_from 0 s sub"

definition Contains :: "string \<Rightarrow> string \<Rightarrow> bool" where
  "Contains s sub \<longleftrightarrow> sublist sub s"

text \<open>\<^verbatim>\<open>strings.Cut\<close>: the text before and after the first separator, and whether there is one.\<close>

definition Cut :: "string \<Rightarrow> string \<Rightarrow> string \<times> string \<times> bool" where
  "Cut s sep = (let i = Index s sep
     in if i < 0 then (s, [], False)
        else (take (nat i) s, drop (nat i + length sep) s, True))"

text \<open>\<^verbatim>\<open>strings.Split\<close> with a separator that is not empty.\<close>

fun split_on :: "string \<Rightarrow> nat \<Rightarrow> string \<Rightarrow> string list" where
  "split_on sep 0 s = [s]"
| "split_on sep (Suc n) s =
     (case Cut s sep of (a, b, found) \<Rightarrow> if found then a # split_on sep n b else [s])"

definition Split :: "string \<Rightarrow> string \<Rightarrow> string list" where
  "Split s sep = split_on sep (length s) s"

subsection \<open>Numbers\<close>

definition is_digit :: "char \<Rightarrow> bool" where
  "is_digit c \<longleftrightarrow> 48 \<le> byte c \<and> byte c \<le> 57"

definition digit :: "char \<Rightarrow> nat" where
  "digit c = byte c - 48"

fun itoa_nat :: "nat \<Rightarrow> string" where
  "itoa_nat n = (if n < 10 then [char_of (48 + n)] else itoa_nat (n div 10) @ [char_of (48 + n mod 10)])"

declare itoa_nat.simps [simp del]

definition Itoa :: "int \<Rightarrow> string" where
  "Itoa i = (if i < 0 then CHR ''-'' # itoa_nat (nat (- i)) else itoa_nat (nat i))"

definition digits_val :: "string \<Rightarrow> nat" where
  "digits_val s = foldl (\<lambda>v c. 10 * v + digit c) 0 s"

text \<open>The sign a number may start with, and what follows it.\<close>

definition read_sign :: "string \<Rightarrow> bool \<times> string" where
  "read_sign s = (case s of [] \<Rightarrow> (False, [])
     | c # t \<Rightarrow> if c = CHR ''-'' then (True, t) else if c = CHR ''+'' then (False, t) else (False, s))"

text \<open>\<^verbatim>\<open>strconv.Atoi\<close>: an optional sign and decimal digits, within \<^verbatim>\<open>int64\<close>; \<open>None\<close> is an error.\<close>

definition Atoi :: "string \<Rightarrow> int option" where
  "Atoi s = (case read_sign s of (neg, t) \<Rightarrow>
     if t \<noteq> [] \<and> list_all is_digit t
     then let v = (if neg then - int (digits_val t) else int (digits_val t))
          in if int64_ok v then Some v else None
     else None)"

text \<open>The same list as literals, which is what evaluation uses.\<close>

lemma white_space_code [code]:
  "white_space =
    [[CHR 0x09], [CHR 0x0A], [CHR 0x0B], [CHR 0x0C], [CHR 0x0D], [CHR 0x20], [CHR 0xC2, CHR 0x85], [CHR 0xC2, CHR 0xA0], [CHR 0xE1, CHR
     0x9A, CHR 0x80], [CHR 0xE2, CHR 0x80, CHR 0xA8], [CHR 0xE2, CHR 0x80, CHR 0xA9], [CHR 0xE2, CHR 0x80, CHR 0xAF], [CHR 0xE2, CHR
     0x81, CHR 0x9F], [CHR 0xE3, CHR 0x80, CHR 0x80], [CHR 0xE2, CHR 0x80, CHR 0x80], [CHR 0xE2, CHR 0x80, CHR 0x81], [CHR 0xE2, CHR
     0x80, CHR 0x82], [CHR 0xE2, CHR 0x80, CHR 0x83], [CHR 0xE2, CHR 0x80, CHR 0x84], [CHR 0xE2, CHR 0x80, CHR 0x85], [CHR 0xE2, CHR
     0x80, CHR 0x86], [CHR 0xE2, CHR 0x80, CHR 0x87], [CHR 0xE2, CHR 0x80, CHR 0x88], [CHR 0xE2, CHR 0x80, CHR 0x89], [CHR 0xE2, CHR
     0x80, CHR 0x8A]]"
  by code_simp

lemma byte_digit: "(n::nat) < 10 \<Longrightarrow> byte (char_of (48 + n)) = 48 + n"
  by (simp add: byte_def)

lemma is_digit_char [simp]: "(n::nat) < 10 \<Longrightarrow> is_digit (char_of (48 + n))"
  by (simp add: is_digit_def byte_digit)

lemma digit_char [simp]: "(n::nat) < 10 \<Longrightarrow> digit (char_of (48 + n)) = n"
  by (simp add: digit_def byte_digit)

lemma digits_val_snoc [simp]: "digits_val (s @ [c]) = 10 * digits_val s + digit c"
  by (simp add: digits_val_def)

lemma itoa_nat_digits: "list_all is_digit (itoa_nat n)"
proof (induction n rule: itoa_nat.induct)
  case (1 n)
  then show ?case by (subst itoa_nat.simps) simp
qed

lemma itoa_nat_nonempty [simp]: "itoa_nat n \<noteq> []"
  by (subst itoa_nat.simps) simp

lemma digits_val_itoa [simp]: "digits_val (itoa_nat n) = n"
proof (induction n rule: itoa_nat.induct)
  case (1 n)
  show ?case
  proof (cases "n < 10")
    case True
    then show ?thesis by (subst itoa_nat.simps) (simp add: digits_val_def)
  next
    case False
    with 1 show ?thesis by (subst itoa_nat.simps) simp
  qed
qed

lemma digit_not_sign: "is_digit c \<Longrightarrow> c \<noteq> CHR ''-'' \<and> c \<noteq> CHR ''+''"
  by (auto simp: is_digit_def byte_def)

lemma read_sign_digits: "list_all is_digit s \<Longrightarrow> read_sign s = (False, s)"
  by (cases s) (auto simp: read_sign_def dest: digit_not_sign)

text \<open>A string that starts and ends with a printable ASCII byte has no white space to trim.\<close>

definition graphic :: "char \<Rightarrow> bool" where
  "graphic c \<longleftrightarrow> 33 \<le> byte c \<and> byte c < 128"

lemma is_digit_graphic: "is_digit c \<Longrightarrow> graphic c"
  by (simp add: is_digit_def graphic_def)

lemma white_space_starts: "list_all (\<lambda>p. p \<noteq> [] \<and> \<not> graphic (hd p) \<and> \<not> graphic (last p)) white_space"
  by code_simp

lemma trim_with_graphic:
  assumes "list_all (\<lambda>p. p \<noteq> [] \<and> \<not> graphic (hd p)) sps" and "s \<noteq> []" and "graphic (hd s)"
  shows "trim_with sps n s = s"
proof (cases n)
  case (Suc m)
  have "find (\<lambda>p. prefix p s) sps = None"
    using assms by (auto simp: find_None_iff list_all_iff prefix_def)
  with Suc show ?thesis by simp
qed simp

lemma TrimSpace_graphic:
  assumes "s \<noteq> []" and "graphic (hd s)" and "graphic (last s)"
  shows "TrimSpace s = s"
proof -
  have l: "trim_with white_space n s = s" for n
    using white_space_starts assms by (intro trim_with_graphic) (auto simp: list_all_iff)
  have r: "trim_with (map rev white_space) n (rev s) = rev s" for n
    using white_space_starts assms by (intro trim_with_graphic) (auto simp: list_all_iff hd_rev)
  show ?thesis by (simp add: TrimSpace_def l r)
qed

text \<open>\<^verbatim>\<open>strconv.Atoi\<close> reads back what \<^verbatim>\<open>strconv.Itoa\<close> writes.\<close>

lemma Atoi_Itoa: "int64_ok i \<Longrightarrow> Atoi (Itoa i) = Some i"
proof (cases "i < 0")
  case True
  then have "read_sign (Itoa i) = (True, itoa_nat (nat (- i)))" by (simp add: Itoa_def read_sign_def)
  then show "int64_ok i \<Longrightarrow> ?thesis" using True by (simp add: Atoi_def itoa_nat_digits)
next
  case False
  then have "read_sign (Itoa i) = (False, itoa_nat (nat i))"
    by (simp add: Itoa_def read_sign_digits itoa_nat_digits)
  then show "int64_ok i \<Longrightarrow> ?thesis" using False by (simp add: Atoi_def itoa_nat_digits)
qed

subsection \<open>Floating-point numbers\<close>

text \<open>
  \<^verbatim>\<open>strconv.ParseFloat(s, 64)\<close>: decimal and hexadecimal numbers with an optional fraction and exponent,
  underscores between digits, \<^verbatim>\<open>inf\<close>, \<^verbatim>\<open>infinity\<close> and \<^verbatim>\<open>nan\<close> in any case. The result is the
  nearest binary64 value; a value out of range is an error (\<open>None\<close>), like a syntax error.
\<close>

definition lower_ascii :: "string \<Rightarrow> string" where
  "lower_ascii s = map lower_char s"

definition float_special :: "string \<Rightarrow> float64 option" where
  "float_special s =
     (if lower_ascii s = ''nan'' then Some NaN
      else case read_sign s of (neg, t) \<Rightarrow>
        if lower_ascii t \<in> {''inf'', ''infinity''} then Some (if neg then NInf else PInf) else None)"

definition is_hex_digit :: "char \<Rightarrow> bool" where
  "is_hex_digit c \<longleftrightarrow> is_digit c \<or> 97 \<le> byte (lower_char c) \<and> byte (lower_char c) \<le> 102"

definition hex_digit :: "char \<Rightarrow> nat" where
  "hex_digit c = (if is_digit c then digit c else byte (lower_char c) - 87)"

text \<open>
  The mantissa loop: the value of the digits read, how many of them stand after the dot, whether a
  digit and a dot were seen, and the rest of the input.
\<close>

fun float_mantissa :: "bool \<Rightarrow> nat \<Rightarrow> nat \<Rightarrow> bool \<Rightarrow> bool \<Rightarrow> string \<Rightarrow> nat \<times> nat \<times> bool \<times> string" where
  "float_mantissa hex m fr dot some [] = (m, fr, some, [])"
| "float_mantissa hex m fr dot some (c # s) =
     (if c = CHR ''_'' then float_mantissa hex m fr dot some s
      else if c = CHR ''.'' then
        (if dot then (m, fr, some, c # s) else float_mantissa hex m fr True some s)
      else if (if hex then is_hex_digit c else is_digit c) then
        float_mantissa hex ((if hex then 16 else 10) * m + hex_digit c)
          (if dot then Suc fr else fr) dot True s
      else (m, fr, some, c # s))"

text \<open>The digits of an exponent; its value stops growing at ten thousand.\<close>

fun float_exponent :: "nat \<Rightarrow> string \<Rightarrow> nat \<times> string" where
  "float_exponent e [] = (e, [])"
| "float_exponent e (c # s) =
     (if c = CHR ''_'' then float_exponent e s
      else if is_digit c then float_exponent (if e < 10000 then 10 * e + digit c else e) s
      else (e, c # s))"

text \<open>
  \<^verbatim>\<open>strconv.underscoreOK\<close>: an underscore stands between two digits (or a base prefix and a digit).
  The state is the last thing seen: \<open>0\<close> a digit, \<open>1\<close> an underscore, \<open>2\<close> anything else.
\<close>

fun underscores_ok :: "bool \<Rightarrow> nat \<Rightarrow> string \<Rightarrow> bool" where
  "underscores_ok hex saw [] = (saw \<noteq> 1)"
| "underscores_ok hex saw (c # s) =
     (if (if hex then is_hex_digit c else is_digit c) then underscores_ok hex 0 s
      else if c = CHR ''_'' then saw = 0 \<and> underscores_ok hex 1 s
      else saw \<noteq> 1 \<and> underscores_ok hex 2 s)"

definition underscoreOK :: "string \<Rightarrow> bool" where
  "underscoreOK t = (let pre = lower_ascii (take 2 t)
     in if pre \<in> {''0b'', ''0o'', ''0x''} then underscores_ok (pre = ''0x'') 0 (drop 2 t)
        else underscores_ok False 2 t)"

definition float_number :: "string \<Rightarrow> float64 option" where
  "float_number s = (case read_sign s of (neg, t) \<Rightarrow>
     let hex = (2 < length t \<and> lower_ascii (take 2 t) = ''0x'');
         body = (if hex then drop 2 t else t)
     in case float_mantissa hex 0 0 False False body of (m, fr, some, rest) \<Rightarrow>
       let expo = (case rest of [] \<Rightarrow> if hex then None else Some 0
              | c # u \<Rightarrow> if lower_char c = (if hex then CHR ''p'' else CHR ''e'') then
                  (case read_sign u of (eneg, v) \<Rightarrow>
                     case v of [] \<Rightarrow> None
                     | d # _ \<Rightarrow> if is_digit d then
                         (case float_exponent 0 v of (e, w) \<Rightarrow>
                            if w = [] then Some (if eneg then - int e else int e) else None)
                       else None)
                else None)
       in if \<not> some \<or> CHR ''_'' \<in> set t \<and> \<not> underscoreOK t then None
          else (case expo of None \<Rightarrow> None
            | Some e \<Rightarrow>
              let q = (if hex then of_nat m * 2 powi (e - 4 * int fr)
                       else of_nat m * 10 powi (e - int fr))
              in (case rnd (if neg then - q else q) of Fin v \<Rightarrow> Some (Fin v) | _ \<Rightarrow> None)))"

definition ParseFloat :: "string \<Rightarrow> float64 option" where
  "ParseFloat s = (case float_special s of Some v \<Rightarrow> Some v | None \<Rightarrow> float_number s)"

text \<open>A string of decimal digits parses to the integer it writes.\<close>

lemma float_mantissa_digits:
  "list_all is_digit s \<Longrightarrow>
     float_mantissa False m 0 False b s = (foldl (\<lambda>v c. 10 * v + digit c) m s, 0, b \<or> s \<noteq> [], [])"
proof (induction s arbitrary: m b)
  case (Cons c s)
  then have "is_digit c" and "c \<noteq> CHR ''_''" and "c \<noteq> CHR ''.''"
    by (auto simp: is_digit_def byte_def)
  with Cons show ?case by (simp add: hex_digit_def)
qed simp

lemma lower_char_digit: "is_digit c \<Longrightarrow> lower_char c = c"
  by (simp add: is_digit_def lower_char_def)

lemma lower_ascii_digits: "list_all is_digit s \<Longrightarrow> lower_ascii s = s"
  by (induction s) (simp_all add: lower_ascii_def lower_char_digit)

lemma ParseFloat_digits:
  assumes "list_all is_digit s" and "s \<noteq> []" and "digits_val s \<le> 2 ^ 52"
  shows "ParseFloat s = Some (Fin (of_nat (digits_val s)))"
proof -
  have d: "is_digit c" if "c \<in> set s" for c using assms(1) that by (simp add: list_all_iff)
  have special: "float_special s = None"
    using assms(1) by (auto simp: float_special_def read_sign_digits lower_ascii_digits is_digit_def byte_def)
  have us: "CHR ''_'' \<notin> set s" using d [of "CHR ''_''"] by (auto simp: is_digit_def byte_def)
  have x: "lower_ascii (take 2 s) \<noteq> ''0x''"
  proof
    assume a: "lower_ascii (take 2 s) = ''0x''"
    have "list_all is_digit (take 2 s)" using d by (auto simp: list_all_iff dest: in_set_takeD)
    with a have "take 2 s = ''0x''" by (simp add: lower_ascii_digits)
    then have "CHR ''x'' \<in> set (take 2 s)" by simp
    then show False using d [of "CHR ''x''"] by (auto dest!: in_set_takeD simp: is_digit_def byte_def)
  qed
  have "int (digits_val s) \<le> int (2 ^ 52)" using assms(3) by (simp only: of_nat_le_iff)
  then have "\<bar>int (digits_val s)\<bar> \<le> 2 ^ 52" by simp
  from rnd_int [OF this] have r: "rnd (of_nat (digits_val s)) = Fin (of_nat (digits_val s))" by simp
  show ?thesis
    using assms(1,2) us x r
    by (simp add: ParseFloat_def special float_number_def read_sign_digits float_mantissa_digits
        Let_def flip: digits_val_def)
qed

end
