(* ===== verification/Share.thy ===== *)
theory Share
  imports Go_Strings
begin

text \<open>
  Package \<^verbatim>\<open>internal/share\<close>: what a slice of a card is. A fraction becomes whole seats (\<open>Seats\<close>), the
  seats become the share that was granted (\<open>Granted\<close>), a compute cap (\<open>ComputePercent\<close>) and a default
  memory cap (\<open>DefaultMemMiB\<close>); memory amounts are read and written by \<open>ParseMem\<close> and \<open>FormatMem\<close>.
  The definitions follow the source's order of checks and float operations. The lemmas bound every
  result, show that the seats of a fraction are its exact ceiling up to the code's tolerance of
  \<open>10^(-9)\<close> of a seat, and that the granted share asks for the same seats again.
\<close>

subsection \<open>Definitions\<close>

datatype share_error = NoSeatCard | ShareRange float64 | EmptyAmount | BadAmount string

definition DefaultSeats :: int where
  "DefaultSeats = 8"

text \<open>The literal \<^verbatim>\<open>1e-9\<close> as a \<^verbatim>\<open>float64\<close>.\<close>

definition seat_eps :: float64 where
  "seat_eps = rnd (1 / 10 ^ 9)"

definition share_ok :: "float64 \<Rightarrow> bool" where
  "share_ok x \<longleftrightarrow> f64_lt (Fin 0) x \<and> f64_le x (Fin 1)"

definition Seats :: "float64 \<Rightarrow> int \<Rightarrow> share_error + int" where
  "Seats fraction n =
     (if n < 1 then Inl NoSeatCard
      else if \<not> share_ok fraction then Inl (ShareRange fraction)
      else let s = f64_to_int (f64_ceil (f64_sub (f64_mul fraction (f64_of_int n)) seat_eps));
               s1 = (if s < 1 then 1 else s);
               s2 = (if s1 > n then n else s1)
           in Inr s2)"

definition Granted :: "int \<Rightarrow> int \<Rightarrow> float64" where
  "Granted seats n = f64_div (f64_of_int seats) (f64_of_int n)"

definition ComputePercent :: "int \<Rightarrow> int \<Rightarrow> int" where
  "ComputePercent seats n =
     (let p = f64_to_int (f64_round (f64_div (f64_mul (Fin 100) (f64_of_int seats)) (f64_of_int n)))
      in if p < 1 then 1 else p)"

definition DefaultMemMiB :: "int \<Rightarrow> int \<Rightarrow> int \<Rightarrow> int" where
  "DefaultMemMiB seats n cardMiB =
     (let m = f64_to_int (f64_div (f64_mul (f64_of_int cardMiB) (f64_of_int seats)) (f64_of_int n))
      in if m < 256 then 256 else m)"

text \<open>\<open>uni\<close> is \<^verbatim>\<open>strings.ToUpper\<close> on a string that is not ASCII.\<close>

definition ParseMem :: "(string \<Rightarrow> string) \<Rightarrow> string \<Rightarrow> share_error + int" where
  "ParseMem uni s =
     (let t = TrimSpace (ToUpper uni s)
      in if t = [] then Inl EmptyAmount
         else let (mult, t') =
                (if HasSuffix t ''GIB'' \<or> HasSuffix t ''GB'' \<or> HasSuffix t ''G''
                 then (Fin 1024, TrimRight t ''GIB'')
                 else if HasSuffix t ''MIB'' \<or> HasSuffix t ''MB'' \<or> HasSuffix t ''M''
                 then (Fin 1, TrimRight t ''MIB'')
                 else (Fin 1, t))
              in case ParseFloat t' of
                   None \<Rightarrow> Inl (BadAmount s)
                 | Some v \<Rightarrow> if f64_le v (Fin 0) then Inl (BadAmount s)
                             else Inr (f64_to_int (f64_round (f64_mul v mult))))"

text \<open>\<^verbatim>\<open>%.1f\<close>: the exact value to one decimal, a tie to the even digit.\<close>

fun fmt_f1 :: "float64 \<Rightarrow> string" where
  "fmt_f1 (Fin q) = (let t = nat (rhe (10 * \<bar>q\<bar>))
     in (if q < 0 then ''-'' else []) @ itoa_nat (t div 10) @ ''.'' @ itoa_nat (t mod 10))"
| "fmt_f1 PInf = ''+Inf''"
| "fmt_f1 NInf = ''-Inf''"
| "fmt_f1 NaN = ''NaN''"

definition FormatMem :: "int \<Rightarrow> string" where
  "FormatMem mib =
     (if mib \<ge> 1024 \<and> mib mod 1024 = 0 then Itoa (mib div 1024) @ ''G''
      else if mib \<ge> 1024 then fmt_f1 (f64_div (f64_of_int mib) (Fin 1024)) @ ''G''
      else Itoa mib @ ''M'')"

subsection \<open>Seats\<close>

lemma Seats_error: "(\<exists>e. Seats fraction n = Inl e) \<longleftrightarrow> n < 1 \<or> \<not> share_ok fraction"
  by (auto simp: Seats_def Let_def)

lemma Seats_range: "Seats fraction n = Inr s \<Longrightarrow> 1 \<le> s \<and> s \<le> n \<and> share_ok fraction"
  by (auto simp: Seats_def Let_def split: if_splits)

lemma share_ok_Fin: "share_ok x \<longleftrightarrow> (\<exists>f. x = Fin f \<and> 0 < f \<and> f \<le> 1)"
  by (cases x) (auto simp: share_ok_def)

lemma seat_eps_val: "seat_eps = Fin (4835703278458517 / 4835703278458516698824704)"
  by code_simp

text \<open>
  Before the clamps: the value \<^verbatim>\<open>fraction*float64(n) - 1e-9\<close> is the exact product less a nanoseat, to
  within half of that.
\<close>

lemma seat_product:
  assumes "0 < f" and "f \<le> 1" and "1 \<le> n" and "n \<le> 2 ^ 20"
  obtains d where "f64_sub (f64_mul (Fin f) (f64_of_int n)) seat_eps = Fin d"
    and "f * of_int n - 3 / 2000000000 \<le> d" and "d \<le> f * of_int n - 1 / 2000000000"
proof -
  have nq: "(of_int n :: rat) \<le> 2 ^ 20" using assms(4) by (metis of_int_le_iff of_int_numeral of_int_power)
  have n1: "1 \<le> (of_int n :: rat)" using assms(3) by simp
  have p: "0 < f * of_int n" using assms(1) n1 by simp
  have "f * of_int n \<le> 1 * of_int n" using assms(2) n1 by (intro mult_right_mono) auto
  then have "\<bar>f * of_int n\<bar> \<le> 2 ^ 20" using p nq by simp
  then obtain r where r: "rnd (f * of_int n) = Fin r" and re: "\<bar>r - f * of_int n\<bar> \<le> 2 ^ 20 / 2 ^ 53"
    by (rule rnd_err) simp_all
  define e :: rat where "e = 4835703278458517 / 4835703278458516698824704"
  have e: "e \<le> 1 / 1000000000 + 1 / 100000000000" "1 / 1000000000 - 1 / 100000000000 \<le> e"
    by (simp_all add: e_def)
  have rb: "r \<le> f * of_int n + 1 / 8000000000" "f * of_int n - 1 / 8000000000 \<le> r"
    using order_trans [OF re, of "1 / 8000000000"] unfolding abs_le_iff by simp_all
  have "f * of_int n \<le> 1048576" using \<open>\<bar>f * of_int n\<bar> \<le> 2 ^ 20\<close> p by simp
  then have "r - e \<le> 1048577" and "- (r - e) \<le> 1048577" using rb p e by linarith+
  then have "\<bar>r - e\<bar> \<le> 2 ^ 21" by simp
  then obtain d where d: "rnd (r - e) = Fin d" and de: "\<bar>d - (r - e)\<bar> \<le> 2 ^ 21 / 2 ^ 53"
    by (rule rnd_err) simp_all
  have db: "d \<le> r - e + 1 / 4000000000" "r - e - 1 / 4000000000 \<le> d"
    using order_trans [OF de, of "1 / 4000000000"] unfolding abs_le_iff by simp_all
  have "\<bar>n\<bar> \<le> 2 ^ 52" using assms(3,4) by simp
  then have "f64_sub (f64_mul (Fin f) (f64_of_int n)) seat_eps = Fin d"
    using r d by (simp add: f64_sub_def seat_eps_val e_def)
  moreover have "f * of_int n - 3 / 2000000000 \<le> d" using rb db e by linarith
  moreover have "d \<le> f * of_int n - 1 / 2000000000" using rb db e by linarith
  ultimately show thesis by (rule that)
qed

lemma seat_ceil:
  assumes "0 < f" and "f \<le> 1" and "1 \<le> n" and "n \<le> 2 ^ 20"
  obtains d where "f * of_int n - 3 / 2000000000 \<le> d" and "d \<le> f * of_int n - 1 / 2000000000"
    and "f64_to_int (f64_ceil (f64_sub (f64_mul (Fin f) (f64_of_int n)) seat_eps)) = \<lceil>d\<rceil>"
proof -
  obtain d where d: "f64_sub (f64_mul (Fin f) (f64_of_int n)) seat_eps = Fin d"
    and lo: "f * of_int n - 3 / 2000000000 \<le> d" and hi: "d \<le> f * of_int n - 1 / 2000000000"
    using seat_product [OF assms] .
  have nq: "(of_int n :: rat) \<le> 2 ^ 20" using assms(4) by (metis of_int_le_iff of_int_numeral of_int_power)
  have p: "0 < f * of_int n" using assms(1,3) by simp
  have "f * of_int n \<le> 1 * of_int n" using assms(2,3) by (intro mult_right_mono) auto
  then have "d \<le> 2 ^ 20" and "- 1 \<le> d" using hi lo nq p by simp_all
  then have "- 1 \<le> \<lceil>d\<rceil>" and "\<lceil>d\<rceil> \<le> 2 ^ 60" by (simp_all add: ceiling_le_iff le_ceiling_iff)
  then have "int64_ok \<lceil>d\<rceil>" by (rule int64_okI)
  then have "f64_to_int (f64_ceil (f64_sub (f64_mul (Fin f) (f64_of_int n)) seat_eps)) = \<lceil>d\<rceil>"
    by (simp only: d f64_ceil.simps f64_to_int_of_int)
  with lo hi show thesis by (rule that)
qed

lemma Seats_val:
  assumes "0 < f" and "f \<le> 1" and "1 \<le> n" and "n \<le> 2 ^ 20"
  obtains d where "f * of_int n - 3 / 2000000000 \<le> d" and "d \<le> f * of_int n - 1 / 2000000000"
    and "Seats (Fin f) n = Inr (min n (max 1 \<lceil>d\<rceil>))"
proof -
  obtain d where d: "f * of_int n - 3 / 2000000000 \<le> d" "d \<le> f * of_int n - 1 / 2000000000"
    and c: "f64_to_int (f64_ceil (f64_sub (f64_mul (Fin f) (f64_of_int n)) seat_eps)) = \<lceil>d\<rceil>"
    using seat_ceil [OF assms] .
  have "Seats (Fin f) n = Inr (min n (max 1 \<lceil>d\<rceil>))"
    using assms unfolding Seats_def c Let_def by (simp add: share_ok_def min_def max_def del: less_ceiling_iff ceiling_less_iff)
  with d show thesis by (rule that)
qed

text \<open>The seats of a fraction cover it, to within two nanoseats, and never exceed it by a whole seat.\<close>

lemma Seats_cover:
  assumes "0 < f" and "f \<le> 1" and "1 \<le> n" and "n \<le> 2 ^ 20"
  obtains s where "Seats (Fin f) n = Inr s"
    and "f * of_int n - 2 / 10 ^ 9 \<le> of_int s" and "of_int s < f * of_int n + 1"
proof -
  obtain d where lo: "f * of_int n - 3 / 2000000000 \<le> d" and hi: "d \<le> f * of_int n - 1 / 2000000000"
    and s: "Seats (Fin f) n = Inr (min n (max 1 \<lceil>d\<rceil>))" using Seats_val [OF assms] .
  have p: "0 < f * of_int n" using assms(1,3) by simp
  have pn: "f * of_int n \<le> of_int n" using mult_right_mono [OF assms(2), of "of_int n"] assms(3) by simp
  obtain c where c: "c = \<lceil>d\<rceil>" and cd: "of_int c < d + 1" "d \<le> of_int c"
    using ceiling_correct [of d] by fastforce
  have "f * of_int n - 2 / 10 ^ 9 \<le> of_int (min n (max 1 c))"
    and "of_int (min n (max 1 c)) < f * of_int n + 1"
    using cd lo hi p pn by (simp_all add: min_def max_def)
  from s [folded c] this show thesis by (rule that)
qed

text \<open>A whole number of seats, asked for as the fraction it was granted as, is that many seats again.\<close>

lemma Seats_Granted:
  assumes "1 \<le> k" and "k \<le> n" and "n \<le> 2 ^ 20"
  shows "Seats (Granted k n) n = Inr k"
proof -
  have n0: "0 < (of_int n :: rat)" and k0: "0 < (of_int k :: rat)" using assms by simp_all
  define q :: rat where "q = of_int k / of_int n"
  have q: "0 < q" "q \<le> 1" using assms n0 k0 by (simp_all add: q_def)
  obtain g where g: "rnd q = Fin g" and gb: "of_int 0 \<le> g" "g \<le> of_int 1"
    using rnd_between [of 0 q 1] q by auto
  obtain g' where g': "rnd q = Fin g'" and ge: "\<bar>g' - q\<bar> \<le> 2 ^ 0 / 2 ^ 53"
    using rnd_err [of q 0] q by auto
  have gg: "g' = g" using g g' by simp
  have G: "Granted k n = Fin g" using assms g n0 by (simp add: Granted_def q_def)
  have nq: "(of_int n :: rat) \<le> 1048576"
    using assms(3) by simp
  have qn: "q * of_int n = of_int k" using n0 by (simp add: q_def)
  have "\<bar>g * of_int n - of_int k\<bar> = \<bar>g - q\<bar> * of_int n"
    using n0 by (simp add: qn [symmetric] abs_mult_pos left_diff_distrib [symmetric])
  also have "\<dots> \<le> 1 / 2 ^ 53 * 1048576" using ge gg nq n0 by (intro mult_mono) simp_all
  also have "\<dots> \<le> 1 / 4000000000" by simp
  finally have near: "of_int k - 1 / 4000000000 \<le> g * of_int n" "g * of_int n \<le> of_int k + 1 / 4000000000"
    unfolding abs_le_iff by simp_all
  have "g \<noteq> 0" using near k0 assms(1) by auto
  then have g0: "0 < g" using gb(1) by simp
  obtain d where lo: "g * of_int n - 3 / 2000000000 \<le> d" and hi: "d \<le> g * of_int n - 1 / 2000000000"
    and s: "Seats (Fin g) n = Inr (min n (max 1 \<lceil>d\<rceil>))"
    using Seats_val [OF g0 _ _ assms(3)] gb(2) assms by auto
  have "\<lceil>d\<rceil> = k" using lo hi near by (intro ceiling_unique) simp_all
  then show ?thesis using s assms by (simp add: G)
qed

lemma Granted_range:
  assumes "1 \<le> k" and "k \<le> n" and "n \<le> 2 ^ 20"
  shows "share_ok (Granted k n)"
  using Seats_Granted [OF assms] Seats_range by blast

subsection \<open>Compute and memory caps\<close>

lemma ComputePercent_range:
  assumes "1 \<le> seats" and "seats \<le> n" and "n \<le> 2 ^ 20"
  shows "1 \<le> ComputePercent seats n" and "ComputePercent seats n \<le> 100"
proof -
  have q: "of_int 0 \<le> (100 * of_int seats / of_int n :: rat)" "100 * of_int seats / of_int n \<le> (of_int 100 :: rat)"
    using assms by (simp_all add: pos_divide_le_eq)
  obtain r where r: "rnd (100 * of_int seats / of_int n) = Fin r" "of_int 0 \<le> r" "r \<le> of_int 100"
    using rnd_nonneg [OF q] by auto
  have e: "f64_mul (Fin 100) (f64_of_int seats) = Fin (100 * of_int seats)"
    using rnd_int [of "100 * seats"] assms by simp
  have "0 \<le> round_away r" and "round_away r \<le> 100" using r by (simp_all add: round_away_def floor_le_iff)
  then have "f64_to_int (f64_round (Fin r)) = round_away r"
    by (simp only: f64_round.simps) (intro f64_to_int_of_int int64_okI, simp_all)
  moreover have "f64_div (Fin (100 * of_int seats)) (f64_of_int n) = Fin r" using assms r by simp
  ultimately have "ComputePercent seats n = max 1 (round_away r)"
    by (simp add: ComputePercent_def e max_def)
  then show "1 \<le> ComputePercent seats n" and "ComputePercent seats n \<le> 100"
    using \<open>round_away r \<le> 100\<close> by simp_all
qed

text \<open>The default memory is at least 256 MiB and, on a card that has so much, never more than the card.\<close>

lemma DefaultMemMiB_range:
  assumes "1 \<le> seats" and "seats \<le> n" and "n \<le> 2 ^ 12" and "0 \<le> mem" and "mem \<le> 2 ^ 40"
  shows "256 \<le> DefaultMemMiB seats n mem" and "DefaultMemMiB seats n mem \<le> max 256 mem"
proof -
  have m: "mem * seats \<le> 2 ^ 52" and m0: "0 \<le> mem * seats"
    using mult_mono [of mem "2 ^ 40" seats "2 ^ 12"] assms by simp_all
  have e: "f64_mul (f64_of_int mem) (f64_of_int seats) = Fin (of_int (mem * seats))"
    using rnd_int [of "mem * seats"] m m0 assms by simp
  have "mem * seats \<le> mem * n" using assms by (intro mult_left_mono) auto
  then have "(of_int (mem * seats) :: rat) \<le> of_int (mem * n)" by (simp only: of_int_le_iff)
  then have q: "of_int 0 \<le> (of_int (mem * seats) / of_int n :: rat)"
      "of_int (mem * seats) / of_int n \<le> (of_int mem :: rat)"
    using assms by (simp_all add: pos_divide_le_eq)
  obtain r where r: "rnd (of_int (mem * seats) / of_int n) = Fin r" "of_int 0 \<le> r" "r \<le> of_int mem"
    using rnd_nonneg [OF q] assms(5) by auto
  have fl: "0 \<le> \<lfloor>r\<rfloor>" "\<lfloor>r\<rfloor> \<le> mem" using r by (simp_all add: floor_le_iff)
  have "mem \<le> 2 ^ 60" using assms(5) by simp
  then have "int64_ok \<lfloor>r\<rfloor>" using fl by (intro int64_okI) linarith+
  then have "f64_to_int (Fin r) = \<lfloor>r\<rfloor>" using r by simp
  moreover have "f64_div (Fin (of_int (mem * seats))) (f64_of_int n) = Fin r" using assms r by simp
  ultimately have "DefaultMemMiB seats n mem = max 256 \<lfloor>r\<rfloor>"
    by (simp add: DefaultMemMiB_def e max_def)
  then show "256 \<le> DefaultMemMiB seats n mem" and "DefaultMemMiB seats n mem \<le> max 256 mem"
    using fl by simp_all
qed

subsection \<open>Memory amounts\<close>

lemma upper_char_digit: "is_digit c \<Longrightarrow> upper_char c = c"
  by (simp add: is_digit_def upper_char_def)

lemma map_upper_digits: "list_all is_digit s \<Longrightarrow> map upper_char s = s"
  by (induction s) (simp_all add: upper_char_digit)

lemma is_ascii_digits: "list_all is_digit s \<Longrightarrow> is_ascii s"
  by (induction s) (auto simp: is_ascii_def is_digit_def)

lemma TrimRight_append:
  "list_all (\<lambda>c. c \<notin> set cutset) s \<Longrightarrow> list_all (\<lambda>c. c \<in> set cutset) t \<Longrightarrow> TrimRight (s @ t) cutset = s"
proof -
  assume s: "list_all (\<lambda>c. c \<notin> set cutset) s" and t: "list_all (\<lambda>c. c \<in> set cutset) t"
  have "dropWhile (\<lambda>c. c \<in> set cutset) (rev t @ rev s) = dropWhile (\<lambda>c. c \<in> set cutset) (rev s)"
    using t by (intro dropWhile_append2) (auto simp: list_all_iff)
  also have "\<dots> = rev s" using s by (cases "rev s") (auto simp: list_all_iff dropWhile_eq_self_iff)
  finally show ?thesis by (simp add: TrimRight_def)
qed

lemma digits_notin: "list_all is_digit s \<Longrightarrow> list_all (\<lambda>c. \<not> is_digit c) cs \<Longrightarrow> list_all (\<lambda>c. c \<notin> set cs) s"
  by (auto simp: list_all_iff)

text \<open>An amount written as decimal digits and a unit letter is that many units.\<close>

lemma ParseMem_unit:
  assumes d: "list_all is_digit s" "s \<noteq> []" and v: "0 < digits_val s" "digits_val s \<le> 2 ^ 40"
    and u: "u = CHR ''G'' \<and> k = 1024 \<or> u = CHR ''M'' \<and> k = 1"
  shows "ParseMem uni (s @ [u]) = Inr (int (digits_val s) * k)"
proof -
  have up: "ToUpper uni (s @ [u]) = s @ [u]"
    using u is_ascii_digits [OF d(1)] map_upper_digits [OF d(1)]
    by (auto simp: ToUpper_def is_ascii_def upper_char_def byte_def)
  have "graphic (hd (s @ [u]))" using d by (cases s) (auto simp: is_digit_graphic)
  moreover have "graphic (last (s @ [u]))" using u by (auto simp: graphic_def byte_def)
  ultimately have tr: "TrimSpace (s @ [u]) = s @ [u]" by (intro TrimSpace_graphic) simp_all
  have sfx: "suffix p (s @ [u]) \<longleftrightarrow> p = [] \<or> last p = u \<and> suffix (butlast p) s" for p
    by (cases p rule: rev_cases) (auto simp: suffix_snoc)
  have nd: "\<not> suffix p s" if "p \<noteq> []" "\<not> is_digit (last p)" for p
    using d(1) that by (auto simp: suffix_def list_all_iff)
  have cs: "list_all (\<lambda>c. \<not> is_digit c) ''GIB''" "list_all (\<lambda>c. \<not> is_digit c) ''MIB''"
    by (simp_all add: is_digit_def byte_def)
  have trims: "TrimRight (s @ ''G'') ''GIB'' = s" "TrimRight (s @ ''M'') ''MIB'' = s"
    using digits_notin [OF d(1) cs(1)] digits_notin [OF d(1) cs(2)] by (auto intro: TrimRight_append)
  have pf: "ParseFloat s = Some (Fin (of_nat (digits_val s)))"
    using ParseFloat_digits [OF d] v(2) by simp
  have dv: "int (digits_val s) \<le> int (2 ^ 40)" using v(2) by (simp only: of_nat_le_iff)
  have k: "0 \<le> k" "k \<le> 1024" using u by auto
  have m: "int (digits_val s) * k \<le> 2 ^ 52" "0 \<le> int (digits_val s) * k"
    using mult_mono [OF dv, of k 1024] k by simp_all
  have r: "f64_to_int (f64_round (f64_mul (Fin (of_nat (digits_val s))) (Fin (of_int k)))) = int (digits_val s) * k"
  proof -
    have "f64_mul (Fin (of_nat (digits_val s))) (Fin (of_int k)) = Fin (of_int (int (digits_val s) * k))"
      using rnd_int [of "int (digits_val s) * k"] m by simp
    moreover have "round_away (of_int i) = i" for i
      by (simp add: round_away_def floor_eq_iff)
    ultimately show ?thesis
      using m by (simp only: f64_round.simps) (intro f64_to_int_of_int int64_okI, simp_all)
  qed
  show ?thesis
    using u r pf v(1)
    by (auto simp: ParseMem_def up tr HasSuffix_def sfx nd is_digit_def byte_def trims)
qed

text \<open>What \<open>FormatMem\<close> writes without a fraction, \<open>ParseMem\<close> reads back.\<close>

lemma ParseMem_FormatMem_exact:
  assumes "0 < mib" and "mib \<le> 2 ^ 40" and "mib < 1024 \<or> mib mod 1024 = 0"
  shows "ParseMem uni (FormatMem mib) = Inr mib"
proof (cases "mib < 1024")
  case True
  then show ?thesis
    using assms ParseMem_unit [of "itoa_nat (nat mib)" "CHR ''M''" 1 uni]
    by (simp add: FormatMem_def Itoa_def itoa_nat_digits)
next
  case False
  with assms have d: "mib mod 1024 = 0" "0 < mib div 1024" by auto
  have "mib div 1024 \<le> 2 ^ 40 div 1024" using assms(2) by (intro zdiv_mono1) simp_all
  then have "nat (mib div 1024) \<le> 2 ^ 40" by simp
  then show ?thesis
    using False d ParseMem_unit [of "itoa_nat (nat (mib div 1024))" "CHR ''G''" 1024 uni]
    by (auto simp: FormatMem_def Itoa_def itoa_nat_digits)
qed

end
