(* ===== verification/Share_Properties.thy ===== *)
theory Share_Properties
  imports Share
begin

text \<open>
  What package \<^verbatim>\<open>internal/share\<close> promises, with Go's \<^verbatim>\<open>float64\<close> arithmetic and all its rounding in the model: shares round up to
  whole seats, the share a job is told it was granted asks for the same seats again, caps stay in range, and amounts of memory can be
  printed and read back.
\<close>

text \<open>
  C35: for every share in (0, 1] and a card of up to \<open>2 ^ 20\<close> seats, \<^verbatim>\<open>Seats\<close> returns between one and all seats, no fewer than the
  share is worth (to within two billionths of a seat) and less than one seat more. Anything else is an error.
\<close>

theorem Seats_rounds_up:
  assumes "n \<le> 2 ^ 20"
  shows "case Seats x n of
      Inl e \<Rightarrow> (n < 1 \<and> e = NoSeatCard) \<or> (1 \<le> n \<and> \<not> share_ok x \<and> e = ShareRange x)
    | Inr s \<Rightarrow> 1 \<le> s \<and> s \<le> n \<and> (\<exists>f. x = Fin f \<and> 0 < f \<and> f \<le> 1 \<and>
        f * of_int n - 2 / 10 ^ 9 \<le> of_int s \<and> of_int s < f * of_int n + 1)"
proof (cases "Seats x n")
  case (Inl e)
  then show ?thesis by (auto simp: Seats_def Let_def split: if_splits)
next
  case (Inr s)
  then obtain f where f: "x = Fin f" "0 < f" "f \<le> 1" and r: "1 \<le> s" "s \<le> n"
    using Seats_range [OF Inr] by (auto simp: share_ok_Fin)
  obtain s' where "Seats (Fin f) n = Inr s'" "f * of_int n - 2 / 10 ^ 9 \<le> of_int s'" "of_int s' < f * of_int n + 1"
    using Seats_cover [OF f(2,3) _ assms] r by auto
  then show ?thesis using Inr f r by auto
qed

theorem Seats_rounds_up_witness:
  "Seats (Fin (1/2)) 8 = Inr 4 \<and> (1/2) * 8 - 2 / 10 ^ 9 \<le> (4 :: rat)"
proof -
  have "Seats (Fin (1/2)) 8 = Inr 4" by code_simp
  then show ?thesis using Seats_rounds_up [of 8 "Fin (1/2)"] by simp
qed

text \<open>
  Asking for exactly the share one was granted gives the same number of seats: the rounding of the division
  in \<^verbatim>\<open>Granted\<close> never makes \<^verbatim>\<open>Seats\<close> take one more.
\<close>

theorem Granted_share_asks_for_the_same_seats:
  assumes "1 \<le> k" and "k \<le> n" and "n \<le> 2 ^ 20"
  shows "Seats (Granted k n) n = Inr k"
  using assms by (rule Seats_Granted)

theorem Granted_share_witness: "Seats (Granted 7 10) 10 = Inr 7"
  using Granted_share_asks_for_the_same_seats [of 7 10] by simp

text \<open>
  The compute cap of a job is between 1 and 100 percent, and its default memory at least 256 MiB and, on a card with that much,
  no more than the card has.
\<close>

theorem caps_in_range:
  assumes "1 \<le> seats" and "seats \<le> n" and "n \<le> 2 ^ 12" and "256 \<le> mem" and "mem \<le> 2 ^ 40"
  shows "ComputePercent seats n \<in> {1..100} \<and> DefaultMemMiB seats n mem \<in> {256..mem}"
proof -
  have "n \<le> 2 ^ 20" using assms(3) by simp
  then show ?thesis
    using ComputePercent_range [of seats n] DefaultMemMiB_range [of seats n mem] assms by auto
qed

theorem caps_in_range_witness: "ComputePercent 3 8 \<in> {1..100} \<and> DefaultMemMiB 3 8 16384 \<in> {256..16384}"
  using caps_in_range [of 3 8 16384] by simp

text \<open>
  An amount of memory of whole MiB below a GiB or of whole GiB reads back, from what \<^verbatim>\<open>FormatMem\<close> prints, as itself, whatever
  \<^verbatim>\<open>strings.ToUpper\<close> does to letters outside ASCII.
\<close>

theorem ParseMem_reads_FormatMem:
  assumes "0 < mib" and "mib \<le> 2 ^ 40" and "mib < 1024 \<or> mib mod 1024 = 0"
  shows "ParseMem uni (FormatMem mib) = Inr mib"
  using assms by (rule ParseMem_FormatMem_exact)

theorem ParseMem_reads_FormatMem_witness: "ParseMem (\<lambda>s. s) (FormatMem 20480) = Inr 20480"
  using ParseMem_reads_FormatMem [of 20480 "\<lambda>s. s"] by simp

text \<open>
  C19: \<^verbatim>\<open>ParseMem\<close> refuses amounts that are not positive, but rounds after that test: less than half a MiB is accepted and read as
  0, which its callers take for \<open>no amount given\<close>.
\<close>

theorem ParseMem_accepts_nothing: "ParseMem (\<lambda>s. s) ''0.4M'' = Inr 0"
  by code_simp

end
