(* ===== verification/Gmux_Prelude.thy ===== *)
theory Gmux_Prelude
  imports Complex_Main "HOL-Library.AList" "HOL-Library.Multiset" "HOL-Library.Product_Lexorder"
begin

text \<open>
  What the components share. A Go map the program iterates over is an association list with distinct
  keys (\<open>AList.update\<close> is the assignment \<^verbatim>\<open>m[k] = v\<close>, \<open>AList.delete\<close> is \<^verbatim>\<open>delete(m, k)\<close>, \<open>map_of\<close> the
  lookup); Go's iteration order is not specified, so facts that must not depend on it are proved up to
  the multiset of entries. A component with operations is run by \<open>run_ops\<close> over a list of operations,
  and \<open>guarded_ops\<close> says that every operation of a list meets its caller's obligation in the state it
  is applied to; the locale \<open>invariant_system\<close> lifts an invariant from one operation to such runs.
\<close>

named_theorems inv_pres \<open>every operation keeps its component's invariant\<close>
named_theorems go_simps \<open>unfolding of the functional parts of an operation\<close>

type_synonym ('k, 'v) gomap = "('k \<times> 'v) list"

subsection \<open>Association lists\<close>

lemma mset_AList_update:
  assumes "distinct (map fst al)"
  shows "mset (AList.update k v al) = add_mset (k, v) (mset (AList.delete k al))"
  using assms
proof (induction al)
  case (Cons e al)
  obtain k' v' where e: "e = (k', v')" by (cases e)
  show ?case
  proof (cases "k' = k")
    case True
    with Cons.prems e have "k \<notin> fst ` set al" by auto
    then have "AList.delete k al = al" by (simp add: AList.delete_eq filter_id_conv) force
    with True e show ?thesis by (simp add: AList.delete_eq)
  next
    case False
    with Cons e show ?thesis by (simp add: AList.delete_eq)
  qed
qed simp

lemma distinct_keys_mset:
  "mset al = mset al' \<Longrightarrow> distinct (map fst al) \<Longrightarrow> distinct (map fst al')"
  by (metis mset_map mset_eq_imp_distinct_iff)

lemma delete_filter: "AList.delete k al = filter (\<lambda>e. fst e \<noteq> k) al"
  by (simp add: AList.delete_eq case_prod_beta' eq_commute)

text \<open>Deleting a list of keys, one after the other, keeps the entries of the other keys.\<close>

lemma fold_delete_filter:
  "fold AList.delete ks al = filter (\<lambda>e. fst e \<notin> set ks) al"
proof (induction ks arbitrary: al)
  case (Cons k ks)
  have "(\<lambda>e. fst e \<notin> set ks \<and> fst e \<noteq> k) = (\<lambda>e. fst e \<notin> set (k # ks))" by auto
  with Cons show ?case by (simp add: delete_filter filter_filter)
qed simp

lemma distinct_keys_filter: "distinct (map fst al) \<Longrightarrow> distinct (map fst (filter P al))"
  by (induction al) auto

lemma update_keys: "distinct (map fst al) \<Longrightarrow> distinct (map fst (AList.update k v al))"
  by (rule AList.distinct_update)

lemma in_update:
  assumes "distinct (map fst al)"
  shows "e \<in> set (AList.update k v al) \<longleftrightarrow> e = (k, v) \<or> e \<in> set al \<and> fst e \<noteq> k"
proof -
  have "set (AList.update k v al) = insert (k, v) (set (AList.delete k al))"
    using mset_AList_update [OF assms, of k v] by (metis set_mset_add_mset_insert set_mset_mset)
  then show ?thesis by (auto simp: delete_filter)
qed

text \<open>Assigning the entries of a map one after the other, as a Go loop over a map does: the order does not matter.\<close>

lemma map_of_fold_update:
  assumes "distinct (map fst extra)"
  shows "map_of (fold (\<lambda>(k, v) m. AList.update k v m) extra e) k = (case map_of extra k of Some v \<Rightarrow> Some v | None \<Rightarrow> map_of e k)"
  using assms
proof (induction extra arbitrary: e)
  case (Cons x extra)
  obtain k' v where x: "x = (k', v)" by (cases x)
  have "map_of extra k' = None" using Cons.prems x by (simp add: map_of_eq_None_iff)
  then show ?case using Cons.IH [of "AList.update k' v e"] Cons.prems x by (simp add: AList.update_conv' split: option.split)
qed simp

lemma distinct_fold_update: "distinct (map fst e) \<Longrightarrow> distinct (map fst (fold (\<lambda>(k, v) m. AList.update k v m) extra e))"
  by (induction extra arbitrary: e) (auto simp: AList.distinct_update)

lemma keys_fold_update: "fst ` set (fold (\<lambda>(k, v) m. AList.update k v m) extra e) = fst ` set extra \<union> fst ` set e"
proof (induction extra arbitrary: e)
  case (Cons x extra)
  obtain k v where x: "x = (k, v)" by (cases x)
  have "fst ` set (AList.update k v e) = insert k (fst ` set e)"
    by (simp add: dom_map_of_conv_image_fst [symmetric] AList.update_conv')
  then show ?case using Cons x by simp
qed simp

lemma distinct_map_sort: "distinct (map f xs) \<Longrightarrow> distinct (map f (sort_key g xs))"
  by (metis mset_eq_imp_distinct_iff mset_map mset_sort)

text \<open>Where the keys differ, sorting gives one result whatever the order of the input.\<close>

lemma sort_key_unique:
  assumes "mset xs = mset ys" and "inj_on f (set xs)"
  shows "sort_key f xs = sort_key f ys"
proof (rule properties_for_sort_key)
  show "mset (sort_key f ys) = mset xs" using assms(1) by simp
  fix k assume "k \<in> set (sort_key f ys)"
  have "filter (\<lambda>x. f k = f x) (sort_key f ys) = filter (\<lambda>x. f k = f x) ys"
    using sort_key_stable [of f "f k" ys] by (simp add: eq_commute)
  moreover have "filter (\<lambda>x. f k = f x) xs = filter (\<lambda>x. f k = f x) ys"
  proof -
    have "mset (filter (\<lambda>x. f k = f x) xs) = mset (filter (\<lambda>x. f k = f x) ys)" using assms(1) by simp
    moreover have "\<forall>x \<in> set (filter (\<lambda>x. f k = f x) xs). x = k"
      using assms \<open>k \<in> set (sort_key f ys)\<close> by (auto dest: inj_onD mset_eq_setD)
    ultimately show ?thesis
      by (metis (no_types, lifting) mset_eq_length mset_eq_setD replicate_eqI)
  qed
  ultimately show "filter (\<lambda>x. f k = f x) (sort_key f ys) = filter (\<lambda>x. f k = f x) xs" by simp
qed simp

lemma disjoint_split: "R' \<subseteq> (R - {j}) \<union> S \<Longrightarrow> Q' \<subseteq> Q \<Longrightarrow> Q \<inter> R = {} \<Longrightarrow> S \<inter> Q' = {} \<Longrightarrow> Q' \<inter> R' = {}"
  by blast

subsection \<open>Runs of operations\<close>

fun run_ops :: "('l \<Rightarrow> 's \<Rightarrow> 's) \<Rightarrow> 'l list \<Rightarrow> 's \<Rightarrow> 's" where
  "run_ops step [] s = s"
| "run_ops step (l # ls) s = run_ops step ls (step l s)"

fun guarded_ops :: "('l \<Rightarrow> 's \<Rightarrow> 's) \<Rightarrow> ('l \<Rightarrow> 's \<Rightarrow> bool) \<Rightarrow> 'l list \<Rightarrow> 's \<Rightarrow> bool" where
  "guarded_ops step ok [] s = True"
| "guarded_ops step ok (l # ls) s = (ok l s \<and> guarded_ops step ok ls (step l s))"

locale invariant_system =
  fixes step :: "'l \<Rightarrow> 's \<Rightarrow> 's"
    and ok :: "'l \<Rightarrow> 's \<Rightarrow> bool"
    and inv :: "'s \<Rightarrow> bool"
  assumes step_inv: "inv s \<Longrightarrow> ok l s \<Longrightarrow> inv (step l s)"
begin

lemma run_inv: "inv s \<Longrightarrow> guarded_ops step ok ls s \<Longrightarrow> inv (run_ops step ls s)"
  by (induction ls arbitrary: s) (auto intro: step_inv)

text \<open>The invariant holds after every prefix of a run as well, so at every moment of it.\<close>

lemma guarded_prefix: "guarded_ops step ok (ls @ ms) s \<Longrightarrow> guarded_ops step ok ls s"
  by (induction ls arbitrary: s) auto

lemma run_inv_prefix: "inv s \<Longrightarrow> guarded_ops step ok (ls @ ms) s \<Longrightarrow> inv (run_ops step ls s)"
  by (blast intro: run_inv guarded_prefix)

end

end
