(* ===== verification/Scheduler.thy ===== *)
theory Scheduler
  imports Gmux_Prelude Share
begin

text \<open>
  Package \<^verbatim>\<open>internal/scheduler\<close>: the types and every function of \<^verbatim>\<open>scheduler.go\<close>, in its order. A
  pointer to a card is the card itself (cards change only in \<open>SetDown\<close>), the map \<^verbatim>\<open>running\<close> is an
  association list, the set \<^verbatim>\<open>ignore\<close> a list of ids, and a function that returns an error returns a
  sum. Go's \<^verbatim>\<open>int\<close> is \<open>int\<close>; the theory \<open>Scheduler_Invariant\<close> shows that no sum the scheduler forms leaves
  64 bits. The admission counter \<^verbatim>\<open>next\<close> (\<^verbatim>\<open>uint64\<close>, one step per admission) is a natural number.
\<close>

subsection \<open>Types\<close>

record Card =
  c_Index :: int
  c_Name :: string
  c_MemMiB :: int
  c_Seats :: int
  c_Down :: bool

record Request =
  r_ID :: string
  r_Share :: float64
  r_MemMiB :: int
  r_GPUs :: int
  r_Priority :: int
  r_Preemptible :: bool
  r_Burst :: bool
  r_Wait :: bool

record Slot =
  sl_Card :: int
  sl_Seats :: int
  sl_GrantedShare :: float64
  sl_MemMiB :: int
  sl_ComputePercent :: int
  sl_SeatIDs :: "int list"

record Placement =
  pl_JobID :: string
  pl_Slots :: "Slot list"

record placed =
  p_req :: Request
  p_slots :: "Slot list"
  p_order :: nat

record Decision =
  d_Placement :: "Placement option"
  d_Preempt :: "string list"
  d_Queued :: bool

record Scheduler =
  s_cards :: "Card list"
  s_running :: "(string, placed) gomap"
  s_queue :: "Request list"
  s_next :: nat

record Free =
  f_Card :: int
  f_Seats :: int
  f_MemMiB :: int

text \<open>
  The errors, one constructor per message; \<open>ErrNoFit\<close> is the package's sentinel. \<open>NilCard\<close> is the nil
  dereference \<open>Resize\<close> would make if a job sat on a card the scheduler does not have.
\<close>

datatype sched_error =
    ErrNoFit
  | ShareError share_error
  | CardTooSmall int int int
  | NoJobID
  | ShareOutOfRange float64
  | NegativeGPUs
  | AlreadyRunning string
  | NotEnoughCards int int
  | NoCard int
  | NotRunning string
  | CardFull int int int
  | NilCard

subsection \<open>Cards\<close>

definition New :: "Card list \<Rightarrow> Scheduler" where
  "New cards = \<lparr>s_cards = map (\<lambda>c. if c_Seats c < 1 then c\<lparr>c_Seats := DefaultSeats\<rparr> else c) cards,
     s_running = [], s_queue = [], s_next = 0\<rparr>"

definition Cards :: "Scheduler \<Rightarrow> Card list" where
  "Cards s = s_cards s"

fun set_down :: "int \<Rightarrow> bool \<Rightarrow> Card list \<Rightarrow> Card list option" where
  "set_down idx down [] = None"
| "set_down idx down (c # cs) =
     (if c_Index c = idx then Some (c\<lparr>c_Down := down\<rparr> # cs) else map_option (Cons c) (set_down idx down cs))"

definition SetDown :: "int \<Rightarrow> bool \<Rightarrow> Scheduler \<Rightarrow> Scheduler \<times> (sched_error + unit)" where
  "SetDown idx down s = (case set_down idx down (s_cards s) of
     Some cs \<Rightarrow> (s\<lparr>s_cards := cs\<rparr>, Inr ())
   | None \<Rightarrow> (s, Inl (NoCard idx)))"

definition card_at :: "Scheduler \<Rightarrow> int \<Rightarrow> Card option" where
  "card_at s idx = find (\<lambda>c. c_Index c = idx) (s_cards s)"

subsection \<open>What is in use, what a request needs\<close>

text \<open>Seats and memory in use on a card, ignoring some jobs.\<close>

definition usage_slots :: "int \<Rightarrow> Slot list \<Rightarrow> int \<times> int \<Rightarrow> int \<times> int" where
  "usage_slots idx slots acc =
     fold (\<lambda>sl (seats, mem). if sl_Card sl = idx then (seats + sl_Seats sl, mem + sl_MemMiB sl) else (seats, mem))
       slots acc"

definition usage :: "Scheduler \<Rightarrow> int \<Rightarrow> string list \<Rightarrow> int \<times> int" where
  "usage s idx ignore =
     fold (\<lambda>(jid, p) acc. if jid \<in> set ignore then acc else usage_slots idx (p_slots p) acc) (s_running s) (0, 0)"

definition need :: "Request \<Rightarrow> Card \<Rightarrow> sched_error + int \<times> int" where
  "need r c = (case Seats (r_Share r) (c_Seats c) of
     Inl e \<Rightarrow> Inl (ShareError e)
   | Inr seats \<Rightarrow>
       let mem = (if r_MemMiB r = 0 then DefaultMemMiB seats (c_Seats c) (c_MemMiB c) else r_MemMiB r)
       in if mem > c_MemMiB c then Inl (CardTooSmall mem (c_Index c) (c_MemMiB c)) else Inr (seats, mem))"

subsection \<open>Choosing seats\<close>

definition mark_seats :: "int list \<Rightarrow> bool list \<Rightarrow> bool list" where
  "mark_seats ids used =
     fold (\<lambda>i u. if i \<ge> 0 \<and> i < int (length u) then u[nat i := True] else u) ids used"

text \<open>The seats in use on a card, ignoring some jobs.\<close>

definition occupied :: "Scheduler \<Rightarrow> Card \<Rightarrow> string list \<Rightarrow> bool list" where
  "occupied s c ignore =
     fold (\<lambda>(jid, p) used. if jid \<in> set ignore then used
           else fold (\<lambda>sl u. if sl_Card sl \<noteq> c_Index c then u else mark_seats (sl_SeatIDs sl) u) (p_slots p) used)
       (s_running s) (replicate (nat (c_Seats c)) False)"

text \<open>The seats to keep that are still free, at most \<open>n\<close>; the result is what is marked and what was taken.\<close>

fun keep_seats :: "int \<Rightarrow> int list \<Rightarrow> bool list \<Rightarrow> int list \<Rightarrow> bool list \<times> int list" where
  "keep_seats n [] used out = (used, out)"
| "keep_seats n (i # keep) used out =
     (if int (length out) = n then (used, out)
      else if i \<ge> 0 \<and> i < int (length used) \<and> \<not> used ! nat i
      then keep_seats n keep (used[nat i := True]) (out @ [i])
      else keep_seats n keep used out)"

text \<open>The first start of a run of \<open>need\<close> free seats.\<close>

definition first_run :: "nat \<Rightarrow> bool list \<Rightarrow> nat option" where
  "first_run len used =
     find (\<lambda>start. list_all (\<lambda>i. \<not> used ! i) [start..<start + len])
       (filter (\<lambda>start. start + len \<le> length used) [0..<Suc (length used)])"

text \<open>The lowest free seats, until there are \<open>n\<close>.\<close>

fun low_seats :: "int \<Rightarrow> nat list \<Rightarrow> bool list \<Rightarrow> int list \<Rightarrow> int list" where
  "low_seats n [] used out = out"
| "low_seats n (i # is) used out =
     (if int (length out) < n
      then if \<not> used ! i then low_seats n is (used[i := True]) (out @ [int i]) else low_seats n is used out
      else out)"

definition pickSeats :: "Scheduler \<Rightarrow> Card \<Rightarrow> int \<Rightarrow> string list \<Rightarrow> int list \<Rightarrow> int list" where
  "pickSeats s c n ignore keep =
     (case keep_seats n keep (occupied s c ignore) [] of (used, out) \<Rightarrow>
        let nd = n - int (length out);
            low = sort (low_seats n [0..<length used] used out)
        in if nd = 0 then sort out
           else if out = [] then
             (case first_run (nat nd) used of
                Some start \<Rightarrow> map int [start..<start + nat nd]
              | None \<Rightarrow> low)
           else low)"

definition slot :: "Scheduler \<Rightarrow> Request \<Rightarrow> Card \<Rightarrow> int \<Rightarrow> int \<Rightarrow> string list \<Rightarrow> int list \<Rightarrow> Slot" where
  "slot s r c seats mem ignore keep =
     \<lparr>sl_Card = c_Index c, sl_Seats = seats, sl_GrantedShare = Granted seats (c_Seats c), sl_MemMiB = mem,
      sl_ComputePercent = (if r_Burst r then 100 else ComputePercent seats (c_Seats c)),
      sl_SeatIDs = pickSeats s c seats ignore keep\<rparr>"

subsection \<open>Placement and preemption\<close>

record cand =
  cd_c :: Card
  cd_seats :: int
  cd_mem :: int
  cd_leftSeats :: int

text \<open>The candidate loop of \<^verbatim>\<open>fit\<close>: the cards with room, and the last error \<open>need\<close> gave.\<close>

fun fit_cands :: "Scheduler \<Rightarrow> Request \<Rightarrow> string list \<Rightarrow> Card list \<Rightarrow> cand list \<Rightarrow> sched_error option \<Rightarrow>
    cand list \<times> sched_error option" where
  "fit_cands s r ignore [] cands lastErr = (cands, lastErr)"
| "fit_cands s r ignore (c # cs) cands lastErr =
     (if c_Down c then fit_cands s r ignore cs cands lastErr
      else case need r c of
          Inl e \<Rightarrow> fit_cands s r ignore cs cands (Some e)
        | Inr (seats, mem) \<Rightarrow>
            (case usage s (c_Index c) ignore of (usedS, usedM) \<Rightarrow>
               if usedS + seats > c_Seats c \<or> usedM + mem > c_MemMiB c
               then fit_cands s r ignore cs cands lastErr
               else fit_cands s r ignore cs
                 (cands @ [\<lparr>cd_c = c, cd_seats = seats, cd_mem = mem, cd_leftSeats = c_Seats c - usedS - seats\<rparr>])
                 lastErr))"

text \<open>Best fit: fewest seats left first, then the card's index; the sort is stable.\<close>

definition sort_cands :: "cand list \<Rightarrow> cand list" where
  "sort_cands = sort_key (\<lambda>cd. (cd_leftSeats cd, c_Index (cd_c cd)))"

definition fit :: "Scheduler \<Rightarrow> Request \<Rightarrow> string list \<Rightarrow> sched_error + Slot list" where
  "fit s r ignore =
     (let want = (if r_GPUs r < 1 then 1 else r_GPUs r)
      in case fit_cands s r ignore (s_cards s) [] None of (cands, lastErr) \<Rightarrow>
        if int (length cands) < want
        then (case lastErr of Some e \<Rightarrow> if cands = [] then Inl e else Inl ErrNoFit | None \<Rightarrow> Inl ErrNoFit)
        else Inr (map (\<lambda>cd. slot s r (cd_c cd) (cd_seats cd) (cd_mem cd) ignore [])
                    (take (nat want) (sort_cands cands))))"

definition fits :: "Scheduler \<Rightarrow> Request \<Rightarrow> string list \<Rightarrow> bool" where
  "fits s r ignore \<longleftrightarrow> (\<exists>slots. fit s r ignore = Inr slots)"

text \<open>Dropping the victims that are not needed, in the order they were chosen.\<close>

fun prune_victims :: "Scheduler \<Rightarrow> Request \<Rightarrow> string list \<Rightarrow> string list \<Rightarrow> string list \<Rightarrow> string list \<times> string list" where
  "prune_victims s r [] ignore needed = (ignore, needed)"
| "prune_victims s r (jid # ids) ignore needed =
     (case fit s r (removeAll jid ignore) of
        Inr _ \<Rightarrow> prune_victims s r ids (removeAll jid ignore) needed
      | Inl _ \<Rightarrow> prune_victims s r ids (jid # removeAll jid ignore) (needed @ [jid]))"

fun try_victims :: "Scheduler \<Rightarrow> Request \<Rightarrow> placed list \<Rightarrow> string list \<Rightarrow> string list \<Rightarrow> (string list \<times> Slot list) option" where
  "try_victims s r [] ignore chosen = None"
| "try_victims s r (p # pool) ignore chosen =
     (let jid = r_ID (p_req p)
      in case fit s r (jid # ignore) of
          Inl _ \<Rightarrow> try_victims s r pool (jid # ignore) (chosen @ [jid])
        | Inr _ \<Rightarrow>
            (case prune_victims s r (chosen @ [jid]) (jid # ignore) [] of (ignore', needed) \<Rightarrow>
               (case fit s r ignore' of Inr slots \<Rightarrow> Some (needed, slots) | Inl _ \<Rightarrow> None)))"

text \<open>The jobs that may be pushed off for a request: lowest priority first, newest first among equals.\<close>

definition victim_pool :: "Scheduler \<Rightarrow> Request \<Rightarrow> placed list" where
  "victim_pool s r =
     sort_key (\<lambda>p. (r_Priority (p_req p), - int (p_order p)))
       (filter (\<lambda>p. r_Preemptible (p_req p) \<and> r_Priority (p_req p) < r_Priority r) (map snd (s_running s)))"

definition victims :: "Scheduler \<Rightarrow> Request \<Rightarrow> (string list \<times> Slot list) option" where
  "victims s r = try_victims s r (victim_pool s r) [] []"

subsection \<open>Admission, release, resize\<close>

definition validate :: "Request \<Rightarrow> sched_error option" where
  "validate r =
     (if r_ID r = [] then Some NoJobID
      else if \<not> share_ok (r_Share r) then Some (ShareOutOfRange (r_Share r))
      else if r_GPUs r < 0 then Some NegativeGPUs
      else None)"

definition start_job :: "Request \<Rightarrow> Slot list \<Rightarrow> Scheduler \<Rightarrow> Scheduler" where
  "start_job r slots s =
     s\<lparr>s_next := s_next s + 1,
       s_running := AList.update (r_ID r) \<lparr>p_req = r, p_slots = slots, p_order = s_next s + 1\<rparr> (s_running s)\<rparr>"

definition Admit :: "Request \<Rightarrow> Scheduler \<Rightarrow> Scheduler \<times> (sched_error + Decision)" where
  "Admit r s =
     (case validate r of
        Some e \<Rightarrow> (s, Inl e)
      | None \<Rightarrow>
          if map_of (s_running s) (r_ID r) \<noteq> None then (s, Inl (AlreadyRunning (r_ID r)))
          else if max (r_GPUs r) 1 > int (length (s_cards s))
          then (s, Inl (NotEnoughCards (max (r_GPUs r) 1) (int (length (s_cards s)))))
          else
            (let res = (case fit s r [] of
                   Inr slots \<Rightarrow> Inr ([], slots)
                 | Inl e \<Rightarrow>
                     if e = ErrNoFit
                     then (case victims s r of Some (preempt, slots) \<Rightarrow> Inr (preempt, slots) | None \<Rightarrow> Inl e)
                     else Inl e)
             in case res of
                 Inl e \<Rightarrow>
                   if e = ErrNoFit \<and> r_Wait r
                   then (s\<lparr>s_queue := s_queue s @ [r]\<rparr>,
                         Inr \<lparr>d_Placement = None, d_Preempt = [], d_Queued = True\<rparr>)
                   else (s, Inl e)
               | Inr (preempt, slots) \<Rightarrow>
                   (start_job r slots (s\<lparr>s_running := fold AList.delete preempt (s_running s)\<rparr>),
                    Inr \<lparr>d_Placement = Some \<lparr>pl_JobID = r_ID r, pl_Slots = slots\<rparr>,
                         d_Preempt = preempt, d_Queued = False\<rparr>)))"

definition Evict :: "string \<Rightarrow> Scheduler \<Rightarrow> Scheduler" where
  "Evict jid s = s\<lparr>s_running := AList.delete jid (s_running s)\<rparr>"

text \<open>The loop of \<^verbatim>\<open>drain\<close> over the sorted queue: the state, what started, what still waits.\<close>

fun drain_loop :: "Request list \<Rightarrow> Scheduler \<Rightarrow> Decision list \<Rightarrow> Request list \<Rightarrow> Scheduler \<times> Decision list \<times> Request list" where
  "drain_loop [] s started rest = (s, started, rest)"
| "drain_loop (r # q) s started rest =
     (case fit s r [] of
        Inl _ \<Rightarrow> drain_loop q s started (rest @ [r])
      | Inr slots \<Rightarrow> drain_loop q (start_job r slots s)
          (started @ [\<lparr>d_Placement = Some \<lparr>pl_JobID = r_ID r, pl_Slots = slots\<rparr>, d_Preempt = [], d_Queued = False\<rparr>])
          rest)"

definition sort_queue :: "Request list \<Rightarrow> Request list" where
  "sort_queue = sort_key (\<lambda>r. - r_Priority r)"

definition drain :: "Scheduler \<Rightarrow> Scheduler \<times> Decision list" where
  "drain s = (let q = sort_queue (s_queue s)
     in case drain_loop q (s\<lparr>s_queue := q\<rparr>) [] [] of (s', started, rest) \<Rightarrow> (s'\<lparr>s_queue := rest\<rparr>, started))"

definition Release :: "string \<Rightarrow> Scheduler \<Rightarrow> Scheduler \<times> Decision list" where
  "Release jid s = drain (s\<lparr>s_running := AList.delete jid (s_running s)\<rparr>)"

definition Requeue :: "Request \<Rightarrow> Scheduler \<Rightarrow> Scheduler" where
  "Requeue r s = s\<lparr>s_queue := r\<lparr>r_Wait := True\<rparr> # s_queue s\<rparr>"

fun cancel_queue :: "string \<Rightarrow> Request list \<Rightarrow> Request list option" where
  "cancel_queue jid [] = None"
| "cancel_queue jid (r # q) = (if r_ID r = jid then Some q else map_option (Cons r) (cancel_queue jid q))"

definition Cancel :: "string \<Rightarrow> Scheduler \<Rightarrow> Scheduler \<times> bool" where
  "Cancel jid s = (case cancel_queue jid (s_queue s) of
     Some q \<Rightarrow> (s\<lparr>s_queue := q\<rparr>, True) | None \<Rightarrow> (s, False))"

definition Queue :: "Scheduler \<Rightarrow> Request list" where
  "Queue s = s_queue s"

definition Placement_of :: "string \<Rightarrow> Scheduler \<Rightarrow> Placement option" where
  "Placement_of jid s = map_option (\<lambda>p. \<lparr>pl_JobID = jid, pl_Slots = p_slots p\<rparr>) (map_of (s_running s) jid)"

text \<open>The slot loop of \<^verbatim>\<open>Resize\<close>.\<close>

fun resize_slots :: "Scheduler \<Rightarrow> Request \<Rightarrow> string list \<Rightarrow> Slot list \<Rightarrow> Slot list \<Rightarrow> sched_error + Slot list" where
  "resize_slots s r ignore [] slots = Inr slots"
| "resize_slots s r ignore (old # olds) slots =
     (case card_at s (sl_Card old) of
        None \<Rightarrow> Inl NilCard
      | Some c \<Rightarrow>
          (case need r c of
             Inl e \<Rightarrow> Inl e
           | Inr (seats, mem) \<Rightarrow>
               (case usage s (c_Index c) ignore of (usedS, usedM) \<Rightarrow>
                  if usedS + seats > c_Seats c \<or> usedM + mem > c_MemMiB c
                  then Inl (CardFull (c_Index c) (c_Seats c - usedS) (c_MemMiB c - usedM))
                  else resize_slots s r ignore olds (slots @ [slot s r c seats mem ignore (sl_SeatIDs old)]))))"

definition Resize :: "string \<Rightarrow> float64 \<Rightarrow> int \<Rightarrow> Scheduler \<Rightarrow> Scheduler \<times> (sched_error + Placement)" where
  "Resize jid fraction memMiB s =
     (case map_of (s_running s) jid of
        None \<Rightarrow> (s, Inl (NotRunning jid))
      | Some p \<Rightarrow>
          let r0 = (p_req p)\<lparr>r_Share := fraction\<rparr>;
              r = (if memMiB > 0 then r0\<lparr>r_MemMiB := memMiB\<rparr> else r0)
          in case validate r of
               Some e \<Rightarrow> (s, Inl e)
             | None \<Rightarrow>
                 (case resize_slots s r [jid] (p_slots p) [] of
                    Inl e \<Rightarrow> (s, Inl e)
                  | Inr slots \<Rightarrow>
                      (s\<lparr>s_running := AList.update jid (p\<lparr>p_req := r, p_slots := slots\<rparr>) (s_running s)\<rparr>,
                       Inr \<lparr>pl_JobID = jid, pl_Slots = slots\<rparr>)))"

definition Available :: "Scheduler \<Rightarrow> Free list" where
  "Available s = map (\<lambda>c. case usage s (c_Index c) [] of (usedS, usedM) \<Rightarrow>
     \<lparr>f_Card = c_Index c, f_Seats = c_Seats c - usedS, f_MemMiB = c_MemMiB c - usedM\<rparr>) (s_cards s)"

subsection \<open>The scheduler as a system of operations\<close>

datatype sched_op =
    OpSetDown int bool
  | OpAdmit Request
  | OpEvict string
  | OpRelease string
  | OpRequeue Request
  | OpCancel string
  | OpResize string float64 int

fun sched_step :: "sched_op \<Rightarrow> Scheduler \<Rightarrow> Scheduler" where
  "sched_step (OpSetDown idx down) s = fst (SetDown idx down s)"
| "sched_step (OpAdmit r) s = fst (Admit r s)"
| "sched_step (OpEvict jid) s = Evict jid s"
| "sched_step (OpRelease jid) s = fst (Release jid s)"
| "sched_step (OpRequeue r) s = Requeue r s"
| "sched_step (OpCancel jid) s = fst (Cancel jid s)"
| "sched_step (OpResize jid fraction mem) s = fst (Resize jid fraction mem s)"

end
