(* ===== verification/Scheduler_Seats.thy ===== *)
theory Scheduler_Seats
  imports Scheduler
begin

text \<open>
  The seat picker of \<^verbatim>\<open>scheduler.go\<close> (\<^verbatim>\<open>pickSeats\<close>), over the bitmap of occupied seats. \<open>taken\<close> is the loop
  invariant of its loops: what was collected so far is distinct, was free at the start, and is exactly
  what has been marked since. If enough seats are free the picker returns exactly as many as asked, sorted
  and free; a resize keeps the seats it had; a new job gets a contiguous run when there is one.
\<close>

definition free_seats :: "bool list \<Rightarrow> int set" where
  "free_seats used = {i. 0 \<le> i \<and> i < int (length used) \<and> \<not> used ! nat i}"

definition taken :: "bool list \<Rightarrow> bool list \<Rightarrow> int list \<Rightarrow> bool" where
  "taken used0 used out \<longleftrightarrow> length used = length used0 \<and> distinct out \<and> set out \<subseteq> free_seats used0 \<and>
     (\<forall>k < length used0. used ! k \<longleftrightarrow> used0 ! k \<or> int k \<in> set out)"

lemma finite_free [simp]: "finite (free_seats used)"
  by (rule finite_subset [of _ "{0..<int (length used)}"]) (auto simp: free_seats_def)

lemma taken_start: "taken used0 used0 []"
  by (simp add: taken_def)

lemma taken_step:
  assumes "taken used0 used out" and "0 \<le> i" and "i < int (length used)" and "\<not> used ! nat i"
  shows "taken used0 (used[nat i := True]) (out @ [i])"
  using assms by (auto simp: taken_def free_seats_def nth_list_update)

lemma keep_seats_taken:
  assumes "taken used0 used out" and "int (length out) \<le> n" and "keep_seats n keep used out = (used', out')"
  shows "taken used0 used' out' \<and> int (length out') \<le> n \<and> set out \<subseteq> set out'"
  using assms
proof (induction keep arbitrary: used out)
  case (Cons i keep)
  show ?case
  proof (cases "int (length out) = n")
    case True
    with Cons.prems show ?thesis by simp
  next
    case False
    show ?thesis
    proof (cases "i \<ge> 0 \<and> i < int (length used) \<and> \<not> used ! nat i")
      case True
      with False Cons.prems have "keep_seats n keep (used[nat i := True]) (out @ [i]) = (used', out')" by simp
      from Cons.IH [OF _ _ this] True False Cons.prems(1,2) show ?thesis by (auto intro: taken_step)
    next
      case nofree: False
      have "keep_seats n keep used out = (used', out')" using Cons.prems(3) False nofree by auto
      from Cons.IH [OF Cons.prems(1,2) this] show ?thesis .
    qed
  qed
qed simp

lemma low_seats_taken:
  assumes "taken used0 used out" and "int (length out) \<le> n" and "\<forall>k \<in> set ks. k < length used0"
  shows "(\<exists>used'. taken used0 used' (low_seats n ks used out)) \<and>
    int (length (low_seats n ks used out)) \<le> n \<and> set out \<subseteq> set (low_seats n ks used out)"
  using assms
proof (induction ks arbitrary: used out)
  case (Cons i ks)
  show ?case
  proof (cases "int (length out) < n \<and> \<not> used ! i")
    case True
    have "taken used0 (used[i := True]) (out @ [int i])"
      using Cons.prems True taken_step [of used0 used out "int i"] by (simp add: taken_def)
    from Cons.IH [OF this] Cons.prems(3) True show ?thesis by auto
  next
    case False
    with Cons show ?thesis by auto
  qed
qed auto

lemma low_seats_all:
  assumes "taken used0 used out" and "int (length out) \<le> n" and "\<forall>k \<in> set ks. k < length used0"
    and "int (length (low_seats n ks used out)) < n" and "k \<in> set ks" and "int k \<in> free_seats used0"
  shows "int k \<in> set (low_seats n ks used out)"
  using assms
proof (induction ks arbitrary: used out)
  case (Cons i ks)
  have lt: "int (length out) < n" using Cons.prems(2,4) by (auto split: if_splits)
  show ?case
  proof (cases "used ! i")
    case True
    have "k = i \<Longrightarrow> int k \<in> set out" using True Cons.prems by (auto simp: taken_def free_seats_def)
    then show ?thesis
      using True lt Cons low_seats_taken [OF Cons.prems(1,2), of ks] by auto
  next
    case False
    have t: "taken used0 (used[i := True]) (out @ [int i])"
      using Cons.prems False taken_step [of used0 used out "int i"] by (simp add: taken_def)
    have "int i \<in> set (low_seats n ks (used[i := True]) (out @ [int i]))"
      using low_seats_taken [OF t, of n ks] lt Cons.prems(3) by auto
    then show ?thesis using Cons.IH [OF t] False lt Cons.prems by auto
  qed
qed simp

lemma find_SomeD: "find P xs = Some x \<Longrightarrow> P x \<and> x \<in> set xs"
  by (induction xs) (auto split: if_splits)

lemma first_run_free:
  assumes "first_run len used = Some start"
  shows "start + len \<le> length used" and "\<forall>i \<in> {start..<start + len}. \<not> used ! i"
  using find_SomeD [OF assms [unfolded first_run_def]] by (auto simp: list_all_iff split: if_splits)

text \<open>What is picked: \<open>n\<close> distinct free seats in order.\<close>

definition picked :: "bool list \<Rightarrow> int \<Rightarrow> int list \<Rightarrow> bool" where
  "picked used n out \<longleftrightarrow> int (length out) = n \<and> distinct out \<and> sorted out \<and> set out \<subseteq> free_seats used"

lemma taken_picked: "taken used0 used out \<Longrightarrow> int (length out) = n \<Longrightarrow> picked used0 n (sort out)"
  by (simp add: picked_def taken_def)

text \<open>The lowest free seats fill up what is missing: with fewer than \<open>n\<close> every free seat would be taken.\<close>

lemma low_seats_full:
  assumes t: "taken used0 used out" and le: "int (length out) \<le> n" and enough: "n \<le> int (card (free_seats used0))"
  shows "picked used0 n (sort (low_seats n [0..<length used] used out))"
proof -
  let ?low = "low_seats n [0..<length used] used out"
  have ks: "\<forall>k \<in> set [0..<length used]. k < length used0" using t by (auto simp: taken_def)
  obtain used' where t': "taken used0 used' ?low" and low: "int (length ?low) \<le> n"
    using low_seats_taken [OF t le ks] by blast
  have "\<not> int (length ?low) < n"
  proof
    assume lt: "int (length ?low) < n"
    have "free_seats used0 \<subseteq> set ?low"
    proof
      fix i assume i: "i \<in> free_seats used0"
      then have "nat i \<in> set [0..<length used]" using t by (auto simp: free_seats_def taken_def)
      from low_seats_all [OF t le ks lt this] i show "i \<in> set ?low" by (simp add: free_seats_def)
    qed
    then have "card (free_seats used0) \<le> card (set ?low)" by (intro card_mono) auto
    also have "card (set ?low) = length ?low" using t' by (auto simp: taken_def intro: distinct_card)
    finally show False using lt enough by simp
  qed
  then show ?thesis using low t' by (intro taken_picked) auto
qed

lemma pickSeats_picked:
  assumes "0 \<le> n" and "n \<le> int (card (free_seats (occupied s c ignore)))"
  shows "picked (occupied s c ignore) n (pickSeats s c n ignore keep)"
proof -
  let ?used0 = "occupied s c ignore"
  obtain used out where k: "keep_seats n keep ?used0 [] = (used, out)" by fastforce
  have t: "taken ?used0 used out" and le: "int (length out) \<le> n"
    using keep_seats_taken [OF taken_start _ k] assms(1) by auto
  note low = low_seats_full [OF t le assms(2)]
  show ?thesis
  proof (cases "out = [] \<and> n \<noteq> 0")
    case True
    then have used: "used ! k = ?used0 ! k" if "k < length ?used0" for k using t that by (simp add: taken_def)
    show ?thesis
    proof (cases "first_run (nat n) used")
      case None
      then show ?thesis using k True low by (simp add: pickSeats_def)
    next
      case (Some start)
      have "picked ?used0 n (map int [start..<start + nat n])"
        using first_run_free [OF Some] used t assms(1)
        by (auto simp: picked_def distinct_map free_seats_def taken_def sorted_iff_nth_mono)
      then show ?thesis using k True Some by (simp add: pickSeats_def)
    qed
  next
    case False
    then show ?thesis using k low taken_picked [OF t] by (auto simp: pickSeats_def Let_def)
  qed
qed

text \<open>A job that grows keeps every seat it had: the kept seats come first and none is dropped.\<close>

lemma keep_seats_all:
  assumes "taken used0 used out" and "distinct (out @ keep)" and "set keep \<subseteq> free_seats used0"
    and "int (length out + length keep) \<le> n"
  shows "\<exists>used'. keep_seats n keep used out = (used', out @ keep) \<and> taken used0 used' (out @ keep)"
  using assms
proof (induction keep arbitrary: used out)
  case (Cons i keep)
  have free: "0 \<le> i" "i < int (length used)" "\<not> used ! nat i"
    using Cons.prems by (auto simp: taken_def free_seats_def)
  have "taken used0 (used[nat i := True]) (out @ [i])"
    using Cons.prems(1) free by (rule taken_step)
  from Cons.IH [OF this] Cons.prems free show ?case by auto
qed auto

lemma pickSeats_keeps:
  assumes "distinct keep" and "set keep \<subseteq> free_seats (occupied s c ignore)" and "int (length keep) \<le> n"
    and "n \<le> int (card (free_seats (occupied s c ignore)))"
  shows "set keep \<subseteq> set (pickSeats s c n ignore keep)"
proof -
  let ?used0 = "occupied s c ignore"
  obtain used where k: "keep_seats n keep ?used0 [] = (used, keep)" and t: "taken ?used0 used keep"
    using keep_seats_all [OF taken_start, of keep ?used0 n] assms by auto
  have "set keep \<subseteq> set (low_seats n [0..<length used] used keep)"
    using low_seats_taken [OF t assms(3), of "[0..<length used]"] t by (auto simp: taken_def)
  then show ?thesis using k by (auto simp: pickSeats_def Let_def)
qed

end
