(* ===== verification/Scheduler_Invariant.thy ===== *)
theory Scheduler_Invariant
  imports Scheduler_Seats
begin

text \<open>
  The scheduler's books. \<open>held\<close> lists the seats that are handed out on a card, \<open>mem_used\<close> the memory;
  \<open>book_ok\<close> says that every running job sits on cards of the scheduler with as many distinct seats of its
  own as it was granted, that no seat is held twice, and that memory is not overbooked. \<open>room\<close> is
  what \<^verbatim>\<open>fit\<close> and \<^verbatim>\<open>Resize\<close> establish for the slots they return: they can be added to the book. The
  invariant \<open>sched_inv\<close> of the whole scheduler is kept by every operation (collected in \<open>inv_pres\<close>), and the
  interpretation at the end lifts it to every sequence of operations.
\<close>

subsection \<open>The book\<close>

definition live :: "string list \<Rightarrow> (string, placed) gomap \<Rightarrow> (string, placed) gomap" where
  "live ignore al = filter (\<lambda>e. fst e \<notin> set ignore) al"

definition job_slots :: "int \<Rightarrow> placed \<Rightarrow> Slot list" where
  "job_slots idx p = filter (\<lambda>sl. sl_Card sl = idx) (p_slots p)"

definition held :: "(string, placed) gomap \<Rightarrow> int \<Rightarrow> int list" where
  "held al idx = concat (map (\<lambda>e. concat (map sl_SeatIDs (job_slots idx (snd e)))) al)"

definition seats_used :: "(string, placed) gomap \<Rightarrow> int \<Rightarrow> int" where
  "seats_used al idx = sum_list (map (\<lambda>e. sum_list (map sl_Seats (job_slots idx (snd e)))) al)"

definition mem_used :: "(string, placed) gomap \<Rightarrow> int \<Rightarrow> int" where
  "mem_used al idx = sum_list (map (\<lambda>e. sum_list (map sl_MemMiB (job_slots idx (snd e)))) al)"

definition slot_ok :: "Card \<Rightarrow> Slot \<Rightarrow> bool" where
  "slot_ok c sl \<longleftrightarrow> sl_Card sl = c_Index c \<and> 1 \<le> sl_Seats sl \<and> sl_Seats sl \<le> c_Seats c \<and>
     int (length (sl_SeatIDs sl)) = sl_Seats sl \<and> sorted (sl_SeatIDs sl) \<and> distinct (sl_SeatIDs sl) \<and>
     set (sl_SeatIDs sl) \<subseteq> {0..<c_Seats c} \<and> 0 \<le> sl_MemMiB sl"

definition slots_ok :: "Card list \<Rightarrow> Slot list \<Rightarrow> bool" where
  "slots_ok cards slots \<longleftrightarrow> distinct (map sl_Card slots) \<and> (\<forall>sl \<in> set slots. \<exists>c \<in> set cards. slot_ok c sl)"

definition book_ok :: "Card list \<Rightarrow> (string, placed) gomap \<Rightarrow> bool" where
  "book_ok cards al \<longleftrightarrow> distinct (map fst al) \<and>
     (\<forall>e \<in> set al. r_ID (p_req (snd e)) = fst e \<and> slots_ok cards (p_slots (snd e))) \<and>
     (\<forall>c \<in> set cards. distinct (held al (c_Index c)) \<and> mem_used al (c_Index c) \<le> c_MemMiB c)"

definition room :: "Card list \<Rightarrow> (string, placed) gomap \<Rightarrow> Slot list \<Rightarrow> bool" where
  "room cards al slots \<longleftrightarrow> distinct (map sl_Card slots) \<and>
     (\<forall>sl \<in> set slots. \<exists>c \<in> set cards. slot_ok c sl \<and>
        set (sl_SeatIDs sl) \<inter> set (held al (c_Index c)) = {} \<and>
        mem_used al (c_Index c) + sl_MemMiB sl \<le> c_MemMiB c)"

definition cards_ok :: "Card list \<Rightarrow> bool" where
  "cards_ok cards \<longleftrightarrow> distinct (map c_Index cards) \<and> (\<forall>c \<in> set cards. 1 \<le> c_Seats c \<and> 0 \<le> c_MemMiB c)"

lemma book_simps [simp]:
  "held [] idx = []" "seats_used [] idx = 0" "mem_used [] idx = 0"
  "held (e # al) idx = concat (map sl_SeatIDs (job_slots idx (snd e))) @ held al idx"
  "seats_used (e # al) idx = sum_list (map sl_Seats (job_slots idx (snd e))) + seats_used al idx"
  "mem_used (e # al) idx = sum_list (map sl_MemMiB (job_slots idx (snd e))) + mem_used al idx"
  by (simp_all add: held_def seats_used_def mem_used_def)

lemma live_simps [simp]:
  "live ignore [] = []"
  "live ignore (e # al) = (if fst e \<in> set ignore then live ignore al else e # live ignore al)"
  "live [] al = al"
  by (simp_all add: live_def)

text \<open>The loops of \<^verbatim>\<open>usage\<close> and \<^verbatim>\<open>occupied\<close> compute these sums and sets.\<close>

lemma usage_slots_eq:
  "usage_slots idx slots (a, b) =
     (a + sum_list (map sl_Seats (filter (\<lambda>sl. sl_Card sl = idx) slots)),
      b + sum_list (map sl_MemMiB (filter (\<lambda>sl. sl_Card sl = idx) slots)))"
  unfolding usage_slots_def by (induction slots arbitrary: a b) simp_all

lemma usage_fold:
  "fold (\<lambda>(jid, p) acc. if jid \<in> set ignore then acc else usage_slots idx (p_slots p) acc) al (a, b) =
     (a + seats_used (live ignore al) idx, b + mem_used (live ignore al) idx)"
  by (induction al arbitrary: a b) (auto simp: usage_slots_eq job_slots_def)

lemma usage_eq:
  "usage s idx ignore =
     (seats_used (live ignore (s_running s)) idx, mem_used (live ignore (s_running s)) idx)"
  by (simp add: usage_def usage_fold)

lemma mark_seats_length [simp]: "length (mark_seats ids used) = length used"
  unfolding mark_seats_def by (induction ids arbitrary: used) auto

lemma mark_seats_nth:
  "k < length used \<Longrightarrow> mark_seats ids used ! k \<longleftrightarrow> used ! k \<or> int k \<in> set ids"
  unfolding mark_seats_def by (induction ids arbitrary: used) (auto simp: nth_list_update split: if_splits)

lemma mark_slots:
  "k < length used \<Longrightarrow>
   length (fold (\<lambda>sl u. if sl_Card sl \<noteq> idx then u else mark_seats (sl_SeatIDs sl) u) slots used) = length used \<and>
   (fold (\<lambda>sl u. if sl_Card sl \<noteq> idx then u else mark_seats (sl_SeatIDs sl) u) slots used ! k \<longleftrightarrow>
     used ! k \<or> (\<exists>sl \<in> set slots. sl_Card sl = idx \<and> int k \<in> set (sl_SeatIDs sl)))"
  by (induction slots arbitrary: used) (auto simp: mark_seats_nth)

lemma mark_slots_length [simp]:
  "length (fold (\<lambda>sl u. if sl_Card sl \<noteq> idx then u else mark_seats (sl_SeatIDs sl) u) slots used) = length used"
  by (induction slots arbitrary: used) auto

lemma occupied_fold:
  fixes ignore idx
  defines "f \<equiv> (\<lambda>(jid, p) used. if jid \<in> set ignore then used
           else fold (\<lambda>sl u. if sl_Card sl \<noteq> idx then u else mark_seats (sl_SeatIDs sl) u) (p_slots p) used)"
  shows "length (fold f al used) = length used"
    and "k < length used \<Longrightarrow> fold f al used ! k \<longleftrightarrow> used ! k \<or> int k \<in> set (held (live ignore al) idx)"
proof (induction al arbitrary: used)
  case (Cons e al)
  { case 1
    show ?case using Cons.IH(1) by (auto simp: f_def split: prod.splits)
  next
    case 2
    obtain jid p where e: "e = (jid, p)" by (cases e)
    show ?case
      using Cons.IH(2) [of "f e used"] 2
      by (cases "jid \<in> set ignore") (auto simp: f_def e mark_slots job_slots_def)
  }
qed simp_all

lemma occupied_length [simp]: "length (occupied s c ignore) = nat (c_Seats c)"
  by (simp add: occupied_def occupied_fold(1))

lemma occupied_nth:
  "k < nat (c_Seats c) \<Longrightarrow>
     occupied s c ignore ! k \<longleftrightarrow> int k \<in> set (held (live ignore (s_running s)) (c_Index c))"
  by (simp add: occupied_def occupied_fold(2))

subsection \<open>Changing the book\<close>

lemma sum_list_mset_map: "mset al = mset al' \<Longrightarrow> sum_list (map f al) = sum_list (map f al')"
  for f :: "'a \<Rightarrow> 'b :: comm_monoid_add"
  using sum_mset_sum_list [of "map f al"] sum_mset_sum_list [of "map f al'"] by simp

lemma held_mset: "mset al = mset al' \<Longrightarrow> mset (held al idx) = mset (held al' idx)"
  unfolding held_def mset_concat map_map by (rule sum_list_mset_map)

lemma mem_used_mset: "mset al = mset al' \<Longrightarrow> mem_used al idx = mem_used al' idx"
  unfolding mem_used_def by (rule sum_list_mset_map)

lemma seats_used_mset: "mset al = mset al' \<Longrightarrow> seats_used al idx = seats_used al' idx"
  unfolding seats_used_def by (rule sum_list_mset_map)

text \<open>The order in which a Go map hands out its entries does not matter to the book.\<close>

lemma book_mset:
  assumes "mset al = mset al'" and "book_ok cards al"
  shows "book_ok cards al'"
proof -
  have "set al = set al'" using assms(1) by (metis set_mset_mset)
  moreover have "distinct (held al idx) = distinct (held al' idx)" for idx
    using held_mset [OF assms(1)] by (rule mset_eq_imp_distinct_iff)
  moreover have "distinct (map fst al')"
    using assms distinct_keys_mset by (auto simp: book_ok_def)
  ultimately show ?thesis
    using assms(2) mem_used_mset [OF assms(1)] by (simp add: book_ok_def)
qed

lemma slots_mem_nonneg:
  "slots_ok cards (p_slots p) \<Longrightarrow> 0 \<le> sum_list (map sl_MemMiB (job_slots idx p))"
  by (intro sum_list_nonneg) (auto simp: slots_ok_def slot_ok_def job_slots_def)

lemma slots_seats_nonneg:
  "slots_ok cards (p_slots p) \<Longrightarrow> 0 \<le> sum_list (map sl_Seats (job_slots idx p))"
  by (intro sum_list_nonneg) (fastforce simp: slots_ok_def slot_ok_def job_slots_def)

lemma used_filter_le:
  assumes "\<forall>e \<in> set al. slots_ok cards (p_slots (snd e))"
  shows "mem_used (filter P al) idx \<le> mem_used al idx" and "seats_used (filter P al) idx \<le> seats_used al idx"
  using assms
  by (induction al) (auto dest: slots_mem_nonneg [of _ _ idx] slots_seats_nonneg [of _ _ idx])

lemma held_filter_subset: "set (held (filter P al) idx) \<subseteq> set (held al idx)"
  by (induction al) auto

lemma held_filter_distinct: "distinct (held al idx) \<Longrightarrow> distinct (held (filter P al) idx)"
proof (induction al)
  case (Cons e al)
  then show ?case using held_filter_subset [of P al idx] by (auto simp: disjoint_iff)
qed simp

lemma book_entries: "book_ok cards al \<Longrightarrow> \<forall>e \<in> set al. slots_ok cards (p_slots (snd e))"
  by (simp add: book_ok_def)

lemma book_filter: "book_ok cards al \<Longrightarrow> book_ok cards (filter P al)"
  using used_filter_le(1) [OF book_entries, of cards al P]
  by (auto simp: book_ok_def held_filter_distinct distinct_keys_filter intro: order_trans)

lemma room_filter: "book_ok cards al \<Longrightarrow> room cards al slots \<Longrightarrow> room cards (filter P al) slots"
  using held_filter_subset [of P al] used_filter_le(1) [OF book_entries, of cards al P]
  unfolding room_def by (smt (verit, ccfv_threshold) disjoint_iff subsetD)

text \<open>A job has at most one slot on a card.\<close>

lemma one_slot:
  assumes "distinct (map sl_Card slots)" and "sl \<in> set slots"
  shows "filter (\<lambda>x. sl_Card x = sl_Card sl) slots = [sl]"
  using assms by (induction slots) (auto simp: filter_empty_conv image_iff)

lemma no_slot: "idx \<notin> sl_Card ` set slots \<Longrightarrow> filter (\<lambda>x. sl_Card x = idx) slots = []"
  by (auto simp: filter_empty_conv)

lemma room_slots_ok: "room cards al slots \<Longrightarrow> slots_ok cards slots"
  by (auto simp: room_def slots_ok_def)

lemma book_cons:
  assumes book: "book_ok cards al" and key: "k \<notin> fst ` set al" and req: "r_ID (p_req p) = k"
    and room: "room cards al (p_slots p)" and cards: "distinct (map c_Index cards)"
  shows "book_ok cards ((k, p) # al)"
proof -
  have "distinct (held ((k, p) # al) (c_Index c)) \<and> mem_used ((k, p) # al) (c_Index c) \<le> c_MemMiB c"
    if c: "c \<in> set cards" for c
  proof (cases "c_Index c \<in> sl_Card ` set (p_slots p)")
    case True
    then obtain sl where sl: "sl \<in> set (p_slots p)" "sl_Card sl = c_Index c" by auto
    with room obtain c' where c': "c' \<in> set cards" "slot_ok c' sl"
        "set (sl_SeatIDs sl) \<inter> set (held al (c_Index c')) = {}"
        "mem_used al (c_Index c') + sl_MemMiB sl \<le> c_MemMiB c'"
      by (auto simp: room_def)
    have "c' = c" using c c' sl cards by (auto simp: slot_ok_def distinct_map dest: inj_onD)
    moreover have "job_slots (c_Index c) p = [sl]"
      using one_slot [of "p_slots p" sl] sl room by (simp add: job_slots_def room_def)
    ultimately show ?thesis
      using c c' book by (auto simp: book_ok_def slot_ok_def)
  next
    case False
    then show ?thesis using book c by (simp add: book_ok_def job_slots_def no_slot)
  qed
  then show ?thesis using book key req room_slots_ok [OF room] by (auto simp: book_ok_def)
qed

lemma book_update:
  assumes book: "book_ok cards al" and req: "r_ID (p_req p) = k"
    and room: "room cards (AList.delete k al) (p_slots p)" and cards: "distinct (map c_Index cards)"
  shows "book_ok cards (AList.update k p al)"
proof -
  have "book_ok cards (AList.delete k al)" using book by (simp add: delete_filter book_filter)
  then have "book_ok cards ((k, p) # AList.delete k al)"
    by (rule book_cons [OF _ _ req room cards]) (auto simp: delete_filter)
  moreover have "mset ((k, p) # AList.delete k al) = mset (AList.update k p al)"
    using mset_AList_update [of al k p] book by (simp add: book_ok_def)
  ultimately show ?thesis by (blast intro: book_mset)
qed

text \<open>As many seats are held as the slots say, so the seats of a card are never overbooked.\<close>

lemma slots_count:
  "\<forall>sl \<in> set ss. int (length (sl_SeatIDs sl)) = sl_Seats sl \<Longrightarrow>
     int (length (concat (map sl_SeatIDs ss))) = sum_list (map sl_Seats ss)"
  by (induction ss) auto

lemma job_slots_count:
  assumes "slots_ok cards (p_slots p)"
  shows "int (length (concat (map sl_SeatIDs (job_slots idx p)))) = sum_list (map sl_Seats (job_slots idx p))"
  by (rule slots_count) (use assms in \<open>auto simp: slots_ok_def slot_ok_def job_slots_def\<close>)

lemma held_length:
  assumes "\<forall>e \<in> set al. slots_ok cards (p_slots (snd e))"
  shows "int (length (held al idx)) = seats_used al idx"
  using assms by (induction al) (simp_all add: job_slots_count [of cards] del: length_concat)

lemma held_range:
  assumes "\<forall>e \<in> set al. slots_ok cards (p_slots (snd e))" and "c \<in> set cards" and "distinct (map c_Index cards)"
  shows "set (held al (c_Index c)) \<subseteq> {0..<c_Seats c}"
proof
  fix i assume "i \<in> set (held al (c_Index c))"
  then obtain e sl where e: "e \<in> set al" "sl \<in> set (p_slots (snd e))" "sl_Card sl = c_Index c" "i \<in> set (sl_SeatIDs sl)"
    by (auto simp: held_def job_slots_def)
  with assms(1) obtain c' where c': "c' \<in> set cards" "slot_ok c' sl" by (auto simp: slots_ok_def)
  with e assms(2,3) have "c' = c" by (auto simp: slot_ok_def distinct_map dest: inj_onD)
  with c' e show "i \<in> {0..<c_Seats c}" by (auto simp: slot_ok_def)
qed

lemma book_seats:
  assumes book: "book_ok cards al" and c: "c \<in> set cards" and cards: "cards_ok cards"
  shows "0 \<le> seats_used al (c_Index c)" and "seats_used al (c_Index c) \<le> c_Seats c"
    and "0 \<le> mem_used al (c_Index c)" and "mem_used al (c_Index c) \<le> c_MemMiB c"
proof -
  have d: "distinct (held al (c_Index c))" using book c by (simp add: book_ok_def)
  have "card (set (held al (c_Index c))) \<le> card {0..<c_Seats c}"
    using held_range [OF book_entries [OF book] c] cards by (intro card_mono) (auto simp: cards_ok_def)
  then have "int (length (held al (c_Index c))) \<le> c_Seats c"
    using distinct_card [OF d] cards c by (auto simp: cards_ok_def)
  then show "0 \<le> seats_used al (c_Index c)" "seats_used al (c_Index c) \<le> c_Seats c"
    using held_length [OF book_entries [OF book]] by (metis of_nat_0_le_iff, metis)
  show "mem_used al (c_Index c) \<le> c_MemMiB c" using book c by (simp add: book_ok_def)
  show "0 \<le> mem_used al (c_Index c)"
    using used_filter_le(1) [OF book_entries [OF book], of "\<lambda>_. False" "c_Index c"] by simp
qed

subsection \<open>What fit and resize return fits the book\<close>

lemma DefaultMemMiB_pos: "256 \<le> DefaultMemMiB seats n mib"
  by (simp add: DefaultMemMiB_def Let_def)

lemma need_range:
  assumes "need r c = Inr (seats, mem)"
  shows "1 \<le> seats" and "seats \<le> c_Seats c" and "mem \<le> c_MemMiB c" and "0 \<le> r_MemMiB r \<Longrightarrow> 0 \<le> mem"
  using assms Seats_range [of "r_Share r" "c_Seats c"] DefaultMemMiB_pos [of seats "c_Seats c" "c_MemMiB c"]
  by (auto simp: need_def Let_def split: sum.splits if_splits)

lemma live_filter: "live ignore al = filter (\<lambda>e. fst e \<notin> set ignore) al"
  by (simp add: live_def)

lemma book_live: "book_ok cards al \<Longrightarrow> book_ok cards (live ignore al)"
  by (simp add: live_filter book_filter)

lemma free_occupied:
  fixes ignore
  assumes cards: "cards_ok (s_cards s)" and book: "book_ok (s_cards s) (s_running s)" and c: "c \<in> set (s_cards s)"
  defines "al \<equiv> live ignore (s_running s)"
  shows "free_seats (occupied s c ignore) = {0..<c_Seats c} - set (held al (c_Index c))"
    and "int (card (free_seats (occupied s c ignore))) = c_Seats c - seats_used al (c_Index c)"
proof -
  show free: "free_seats (occupied s c ignore) = {0..<c_Seats c} - set (held al (c_Index c))"
    by (auto simp: free_seats_def occupied_nth al_def nat_less_iff)
  have b: "book_ok (s_cards s) al" using book by (simp add: al_def book_live)
  have sub: "set (held al (c_Index c)) \<subseteq> {0..<c_Seats c}"
    using held_range [OF book_entries [OF b] c] cards by (simp add: cards_ok_def)
  have "card (set (held al (c_Index c))) = length (held al (c_Index c))"
    using b c by (intro distinct_card) (simp add: book_ok_def)
  then have "card (free_seats (occupied s c ignore)) = nat (c_Seats c) - length (held al (c_Index c))"
    using sub by (simp add: free card_Diff_subset finite_subset [OF sub])
  moreover have "int (length (held al (c_Index c))) = seats_used al (c_Index c)"
    using held_length [OF book_entries [OF b]] .
  moreover have "seats_used al (c_Index c) \<le> c_Seats c" using book_seats(2) [OF b c cards] .
  ultimately show "int (card (free_seats (occupied s c ignore))) = c_Seats c - seats_used al (c_Index c)"
    by linarith
qed

definition room_for :: "Scheduler \<Rightarrow> Request \<Rightarrow> string list \<Rightarrow> Card \<Rightarrow> int \<Rightarrow> int \<Rightarrow> bool" where
  "room_for s r ignore c seats mem \<longleftrightarrow> need r c = Inr (seats, mem) \<and>
     seats_used (live ignore (s_running s)) (c_Index c) + seats \<le> c_Seats c \<and>
     mem_used (live ignore (s_running s)) (c_Index c) + mem \<le> c_MemMiB c"

lemma slot_room:
  assumes cards: "cards_ok (s_cards s)" and book: "book_ok (s_cards s) (s_running s)" and c: "c \<in> set (s_cards s)"
    and mem: "0 \<le> r_MemMiB r" and rm: "room_for s r ignore c seats m"
  shows "slot_ok c (slot s r c seats m ignore keep)"
    and "set (sl_SeatIDs (slot s r c seats m ignore keep)) \<inter> set (held (live ignore (s_running s)) (c_Index c)) = {}"
proof -
  have n: "1 \<le> seats" "seats \<le> c_Seats c" "0 \<le> m"
    using need_range [of r c seats m] rm mem by (auto simp: room_for_def)
  have "seats \<le> int (card (free_seats (occupied s c ignore)))"
    using free_occupied(2) [OF cards book c, of ignore] rm by (simp add: room_for_def)
  then have p: "picked (occupied s c ignore) seats (pickSeats s c seats ignore keep)"
    using n by (intro pickSeats_picked) auto
  then show "slot_ok c (slot s r c seats m ignore keep)"
    using n free_occupied(1) [OF cards book c, of ignore] by (auto simp: slot_ok_def slot_def picked_def)
  show "set (sl_SeatIDs (slot s r c seats m ignore keep)) \<inter> set (held (live ignore (s_running s)) (c_Index c)) = {}"
    using p free_occupied(1) [OF cards book c, of ignore] by (auto simp: slot_def picked_def)
qed

text \<open>The candidates of \<^verbatim>\<open>fit\<close>, as a filter of the cards.\<close>

definition cand_of :: "Scheduler \<Rightarrow> Request \<Rightarrow> string list \<Rightarrow> Card \<Rightarrow> cand option" where
  "cand_of s r ignore c =
     (if c_Down c then None
      else case need r c of
          Inl _ \<Rightarrow> None
        | Inr (seats, mem) \<Rightarrow>
            if room_for s r ignore c seats mem
            then Some \<lparr>cd_c = c, cd_seats = seats, cd_mem = mem,
              cd_leftSeats = c_Seats c - seats_used (live ignore (s_running s)) (c_Index c) - seats\<rparr>
            else None)"

lemma fit_cands_eq:
  "fst (fit_cands s r ignore cs cands lastErr) = cands @ List.map_filter (cand_of s r ignore) cs"
  by (induction cs arbitrary: cands lastErr)
    (auto simp: map_filter_simps cand_of_def usage_eq room_for_def split: sum.splits prod.splits)

definition want_cards :: "Request \<Rightarrow> nat" where
  "want_cards r = nat (max 1 (r_GPUs r))"

lemma fit_Inr_iff:
  "fit s r ignore = Inr slots \<longleftrightarrow>
     want_cards r \<le> length (List.map_filter (cand_of s r ignore) (s_cards s)) \<and>
     slots = map (\<lambda>cd. slot s r (cd_c cd) (cd_seats cd) (cd_mem cd) ignore [])
       (take (want_cards r) (sort_cands (List.map_filter (cand_of s r ignore) (s_cards s))))"
proof -
  obtain cands le where fc: "fit_cands s r ignore (s_cards s) [] None = (cands, le)" by fastforce
  then have c: "cands = List.map_filter (cand_of s r ignore) (s_cards s)"
    using fit_cands_eq [of s r ignore "s_cards s" "[]" None] by simp
  have w: "nat (if r_GPUs r < 1 then 1 else r_GPUs r) = want_cards r" by (simp add: want_cards_def)
  then have "int (length cands) < (if r_GPUs r < 1 then 1 else r_GPUs r) \<longleftrightarrow> \<not> want_cards r \<le> length cands"
    by (cases cands) (auto simp: want_cards_def)
  then show ?thesis
    unfolding fit_def fc Let_def prod.case w c [symmetric] by (auto split: option.splits)
qed

lemma fits_iff: "fits s r ignore \<longleftrightarrow> want_cards r \<le> length (List.map_filter (cand_of s r ignore) (s_cards s))"
  by (simp add: fits_def fit_Inr_iff)

lemma map_filter_set: "set (List.map_filter f xs) = {y. \<exists>x \<in> set xs. f x = Some y}"
  by (induction xs) (auto simp: map_filter_simps split: option.splits)

lemma cand_ofD:
  assumes "cand_of s r ignore c = Some cd"
  shows "cd_c cd = c" and "room_for s r ignore c (cd_seats cd) (cd_mem cd)" and "\<not> c_Down c"
    and "cd_leftSeats cd = c_Seats c - seats_used (live ignore (s_running s)) (c_Index c) - cd_seats cd"
  using assms by (auto simp: cand_of_def split: if_splits sum.splits prod.splits)

lemma cands_cards:
  "map cd_c (List.map_filter (cand_of s r ignore) cs) = filter (\<lambda>c. cand_of s r ignore c \<noteq> None) cs"
  by (induction cs) (auto simp: map_filter_simps split: option.splits dest: cand_ofD(1))

lemma distinct_take_sort: "distinct (map f xs) \<Longrightarrow> distinct (map f (take n (sort_key g xs)))"
  by (simp add: take_map [symmetric] distinct_take distinct_map_sort)

lemma fit_room:
  assumes cards: "cards_ok (s_cards s)" and book: "book_ok (s_cards s) (s_running s)"
    and mem: "0 \<le> r_MemMiB r" and fit: "fit s r ignore = Inr slots"
  shows "room (s_cards s) (live ignore (s_running s)) slots" and "length slots = want_cards r"
    and "\<forall>sl \<in> set slots. \<exists>c \<in> set (s_cards s). sl_Card sl = c_Index c \<and> \<not> c_Down c"
proof -
  let ?cands = "List.map_filter (cand_of s r ignore) (s_cards s)"
  define cds where "cds = take (want_cards r) (sort_cands ?cands)"
  have slots: "slots = map (\<lambda>cd. slot s r (cd_c cd) (cd_seats cd) (cd_mem cd) ignore []) cds"
    and len: "want_cards r \<le> length ?cands"
    using fit by (auto simp: fit_Inr_iff cds_def)
  have mem_cds: "cd_c cd \<in> set (s_cards s) \<and> cand_of s r ignore (cd_c cd) = Some cd" if "cd \<in> set cds" for cd
  proof -
    have "cd \<in> set ?cands" using that by (auto simp: cds_def sort_cands_def dest: in_set_takeD)
    then obtain c where "c \<in> set (s_cards s)" "cand_of s r ignore c = Some cd" by (auto simp: map_filter_set)
    moreover from this(2) have "cd_c cd = c" by (rule cand_ofD)
    ultimately show ?thesis by simp
  qed
  have "distinct (map (c_Index \<circ> cd_c) ?cands)"
    using cards by (simp add: cands_cards cards_ok_def distinct_map_filter flip: map_map)
  then have "distinct (map (c_Index \<circ> cd_c) cds)"
    unfolding cds_def sort_cands_def by (rule distinct_take_sort)
  then have "distinct (map sl_Card slots)" by (simp add: slots slot_def comp_def)
  moreover have "\<exists>c \<in> set (s_cards s). slot_ok c sl \<and>
        set (sl_SeatIDs sl) \<inter> set (held (live ignore (s_running s)) (c_Index c)) = {} \<and>
        mem_used (live ignore (s_running s)) (c_Index c) + sl_MemMiB sl \<le> c_MemMiB c"
    if "sl \<in> set slots" for sl
  proof -
    from that obtain cd where cd: "cd \<in> set cds"
      and sl: "sl = slot s r (cd_c cd) (cd_seats cd) (cd_mem cd) ignore []" by (auto simp: slots)
    have rm: "room_for s r ignore (cd_c cd) (cd_seats cd) (cd_mem cd)"
      using mem_cds [OF cd] by (auto dest: cand_ofD(2))
    have c: "cd_c cd \<in> set (s_cards s)" using mem_cds [OF cd] by simp
    show ?thesis
      using slot_room [OF cards book c mem rm, of "[]"] rm c
      by (intro bexI [of _ "cd_c cd"]) (auto simp: sl room_for_def slot_def)
  qed
  ultimately show "room (s_cards s) (live ignore (s_running s)) slots" by (simp add: room_def)
  show "length slots = want_cards r" using len by (simp add: slots cds_def sort_cands_def)
  show "\<forall>sl \<in> set slots. \<exists>c \<in> set (s_cards s). sl_Card sl = c_Index c \<and> \<not> c_Down c"
    using mem_cds by (auto simp: slots slot_def) (metis cand_ofD(3))
qed

text \<open>Taking more jobs away never makes a request stop fitting.\<close>

lemma live_mono: "set ig \<subseteq> set ig' \<Longrightarrow> filter (\<lambda>e. fst e \<notin> set ig') (live ig al) = live ig' al"
  by (auto simp: live_def intro!: filter_cong)

lemma fits_mono:
  assumes book: "book_ok (s_cards s) (s_running s)" and sub: "set ig \<subseteq> set ig'" and fits: "fits s r ig"
  shows "fits s r ig'"
proof -
  have le: "seats_used (live ig' (s_running s)) idx \<le> seats_used (live ig (s_running s)) idx"
      "mem_used (live ig' (s_running s)) idx \<le> mem_used (live ig (s_running s)) idx" for idx
    using used_filter_le [OF book_entries [OF book_live [OF book, of ig]], of "\<lambda>e. fst e \<notin> set ig'"]
    by (simp_all add: live_mono [OF sub])
  have "length (List.map_filter (cand_of s r ig) cs) \<le> length (List.map_filter (cand_of s r ig') cs)" for cs
  proof (induction cs)
    case (Cons c cs)
    have "cand_of s r ig' c \<noteq> None" if "cand_of s r ig c \<noteq> None"
      using that le [of "c_Index c"] by (auto simp: cand_of_def room_for_def split: sum.splits if_splits)
    with Cons show ?case by (auto simp: map_filter_simps split: option.splits)
  qed (simp add: map_filter_simps)
  with fits show ?thesis by (auto simp: fits_iff intro: order_trans)
qed

lemma card_at_in: "card_at s idx = Some c \<Longrightarrow> c \<in> set (s_cards s) \<and> c_Index c = idx"
  using find_SomeD [of "\<lambda>c. c_Index c = idx"] by (auto simp: card_at_def)

text \<open>The slots of a resize: the same cards, each with room for the new share.\<close>

lemma resize_slots_room:
  assumes cards: "cards_ok (s_cards s)" and book: "book_ok (s_cards s) (s_running s)" and mem: "0 \<le> r_MemMiB r"
  shows "resize_slots s r ignore olds acc = Inr slots \<Longrightarrow>
    \<exists>new. slots = acc @ new \<and> map sl_Card new = map sl_Card olds \<and>
      (\<forall>sl \<in> set new. \<exists>c \<in> set (s_cards s). slot_ok c sl \<and>
        set (sl_SeatIDs sl) \<inter> set (held (live ignore (s_running s)) (c_Index c)) = {} \<and>
        mem_used (live ignore (s_running s)) (c_Index c) + sl_MemMiB sl \<le> c_MemMiB c)"
proof (induction olds arbitrary: acc)
  case (Cons old olds)
  from Cons.prems obtain c seats m where ca: "card_at s (sl_Card old) = Some c" and n: "need r c = Inr (seats, m)"
    and rest: "resize_slots s r ignore olds (acc @ [slot s r c seats m ignore (sl_SeatIDs old)]) = Inr slots"
    and rm: "room_for s r ignore c seats m"
    by (auto simp: usage_eq room_for_def split: option.splits sum.splits prod.splits if_splits)
  let ?new = "slot s r c seats m ignore (sl_SeatIDs old)"
  have c: "c \<in> set (s_cards s)" "c_Index c = sl_Card old" using card_at_in [OF ca] by auto
  have "sl_Card ?new = sl_Card old" "mem_used (live ignore (s_running s)) (c_Index c) + sl_MemMiB ?new \<le> c_MemMiB c"
    using c rm by (simp_all add: slot_def room_for_def)
  with Cons.IH [OF rest] slot_room [OF cards book c(1) mem rm] c(1) show ?case by force
qed simp

end
