(* ===== verification/Scheduler_Victims.thy ===== *)
theory Scheduler_Victims
  imports Scheduler_Invariant
begin

text \<open>
  Preemption in \<^verbatim>\<open>scheduler.go\<close> (\<^verbatim>\<open>victims\<close>). The jobs that may be pushed off are tried lowest priority and newest
  first until the request fits; then every one of them that is not needed is dropped again. The lemmas show
  that the set that remains frees enough room, that no job of it can be spared, and that a search that
  finds nothing has shown that pushing off every eligible job would not be enough.
\<close>

subsection \<open>A set of ignored jobs counts as a set\<close>

lemma live_cong: "set ig = set ig' \<Longrightarrow> live ig al = live ig' al"
  by (simp add: live_def)

lemma occupied_cong: "set ig = set ig' \<Longrightarrow> occupied s c ig = occupied s c ig'"
  by (simp add: occupied_def)

lemma cand_of_cong: "set ig = set ig' \<Longrightarrow> cand_of s r ig = cand_of s r ig'"
  using live_cong [of ig ig' "s_running s"] by (auto simp: cand_of_def room_for_def fun_eq_iff split: sum.splits)

lemma slot_cong: "set ig = set ig' \<Longrightarrow> slot s r c seats m ig keep = slot s r c seats m ig' keep"
  using occupied_cong [of ig ig' s c] by (simp add: slot_def pickSeats_def)

lemma fit_cong: "set ig = set ig' \<Longrightarrow> fit s r ig = Inr slots \<Longrightarrow> fit s r ig' = Inr slots"
  using cand_of_cong [of ig ig' s r] slot_cong [of ig ig' s r] by (simp add: fit_Inr_iff)

lemma fits_Inr: "fit s r ig = Inr slots \<Longrightarrow> fits s r ig"
  by (simp add: fits_def)

lemma fits_Inl: "fit s r ig = Inl e \<Longrightarrow> \<not> fits s r ig"
  by (simp add: fits_def)

subsection \<open>Dropping the victims that are not needed\<close>

text \<open>Every job of the set \<open>nd\<close> is needed: without it the request does not fit.\<close>

definition all_needed :: "Scheduler \<Rightarrow> Request \<Rightarrow> string list \<Rightarrow> string list \<Rightarrow> bool" where
  "all_needed s r nd ig \<longleftrightarrow> (\<forall>v \<in> set nd. \<not> fits s r (removeAll v ig))"

lemma all_needed_mono:
  assumes "book_ok (s_cards s) (s_running s)" and "set ig' \<subseteq> set ig" and "all_needed s r nd ig"
  shows "all_needed s r nd ig'"
  unfolding all_needed_def
proof
  fix v assume v: "v \<in> set nd"
  have "fits s r (removeAll v ig') \<Longrightarrow> fits s r (removeAll v ig)"
    by (rule fits_mono [OF assms(1)]) (use assms(2) in auto)
  then show "\<not> fits s r (removeAll v ig')" using assms(3) v by (auto simp: all_needed_def)
qed

lemma prune_victims_spec:
  assumes "book_ok (s_cards s) (s_running s)" and "set ig = set nd \<union> set ids" and "distinct (nd @ ids)"
    and "fits s r ig" and "all_needed s r nd ig" and "prune_victims s r ids ig nd = (ig', nd')"
  shows "set ig' = set nd' \<and> distinct nd' \<and> set nd' \<subseteq> set nd \<union> set ids \<and> fits s r ig' \<and> all_needed s r nd' ig'"
  using assms
proof (induction ids arbitrary: ig nd)
  case (Cons v ids)
  show ?case
  proof (cases "fit s r (removeAll v ig)")
    case (Inr slots)
    have "all_needed s r nd (removeAll v ig)"
      using Cons.prems(5) by (rule all_needed_mono [OF Cons.prems(1), rotated]) auto
    with Inr Cons.prems Cons.IH [of "removeAll v ig" nd] show ?thesis
      by (auto simp: fits_Inr)
  next
    case (Inl e)
    let ?ig = "v # removeAll v ig"
    have v: "v \<in> set ig" "v \<notin> set nd" using Cons.prems(2,3) by auto
    have ig: "set ?ig = set ig" using v by auto
    have "fits s r ?ig" using Cons.prems(1,4) ig by (auto intro: fits_mono)
    moreover have "all_needed s r (nd @ [v]) ?ig"
      using all_needed_mono [OF Cons.prems(1) equalityD1 [OF ig] Cons.prems(5)] fits_Inl [OF Inl]
      by (simp add: all_needed_def)
    ultimately show ?thesis
      using Inl Cons.prems Cons.IH [of ?ig "nd @ [v]"] ig v by auto
  qed
qed simp

subsection \<open>The search\<close>

definition pool_ids :: "placed list \<Rightarrow> string list" where
  "pool_ids pool = map (\<lambda>p. r_ID (p_req p)) pool"

lemma try_victims_Some:
  assumes "book_ok (s_cards s) (s_running s)" and "set ig = set chosen" and "distinct (chosen @ pool_ids pool)"
    and "try_victims s r pool ig chosen = Some (nd, slots)"
  shows "set nd \<subseteq> set chosen \<union> set (pool_ids pool) \<and> distinct nd \<and> fit s r nd = Inr slots \<and> all_needed s r nd nd"
  using assms
proof (induction pool arbitrary: ig chosen)
  case (Cons p pool)
  let ?j = "r_ID (p_req p)"
  have d: "distinct ((chosen @ [?j]) @ pool_ids pool)" using Cons.prems(3) by (auto simp: pool_ids_def)
  show ?case
  proof (cases "fit s r (?j # ig)")
    case (Inl e)
    with Cons.prems Cons.IH [of "?j # ig" "chosen @ [?j]"] d show ?thesis
      by (auto simp: pool_ids_def Let_def)
  next
    case (Inr sl)
    obtain ig' nd' where pr: "prune_victims s r (chosen @ [?j]) (?j # ig) [] = (ig', nd')" by fastforce
    have sp: "set ig' = set nd' \<and> distinct nd' \<and> set nd' \<subseteq> set [] \<union> set (chosen @ [?j]) \<and>
        fits s r ig' \<and> all_needed s r nd' ig'"
      by (rule prune_victims_spec [OF Cons.prems(1) _ _ fits_Inr [OF Inr] _ pr])
        (use Cons.prems(2) d in \<open>auto simp: all_needed_def\<close>)
    have nd: "nd = nd'" "fit s r ig' = Inr slots"
      using Cons.prems(4) Inr pr by (auto simp: Let_def split: sum.splits)
    have "all_needed s r nd nd"
      using sp nd(1) by (intro all_needed_mono [OF Cons.prems(1), of nd ig']) auto
    moreover have "fit s r nd = Inr slots" using fit_cong [of ig' nd] sp nd by auto
    ultimately show ?thesis using sp nd(1) by (auto simp: pool_ids_def)
  qed
qed simp

lemma try_victims_None:
  assumes "book_ok (s_cards s) (s_running s)" and "set ig = set chosen" and "distinct (chosen @ pool_ids pool)"
    and "\<not> fits s r ig" and "try_victims s r pool ig chosen = None"
  shows "\<not> fits s r (chosen @ pool_ids pool)"
  using assms
proof (induction pool arbitrary: ig chosen)
  case Nil
  then show ?case using fits_mono [OF Nil.prems(1), of chosen ig r] by (auto simp: pool_ids_def)
next
  case (Cons p pool)
  let ?j = "r_ID (p_req p)"
  have d: "distinct ((chosen @ [?j]) @ pool_ids pool)" using Cons.prems(3) by (auto simp: pool_ids_def)
  show ?case
  proof (cases "fit s r (?j # ig)")
    case (Inl e)
    with Cons.prems Cons.IH [of "?j # ig" "chosen @ [?j]"] d fits_Inl [OF Inl] show ?thesis
      by (simp add: pool_ids_def Let_def)
  next
    case (Inr sl)
    obtain ig' nd' where pr: "prune_victims s r (chosen @ [?j]) (?j # ig) [] = (ig', nd')" by fastforce
    have "fits s r ig'"
      using prune_victims_spec [OF Cons.prems(1) _ _ fits_Inr [OF Inr] _ pr] Cons.prems(2) d
      by (auto simp: all_needed_def)
    then show ?thesis using Cons.prems(5) Inr pr by (auto simp: Let_def fits_def split: sum.splits)
  qed
qed

subsection \<open>The pool\<close>

text \<open>The jobs rule 3 lets a request push off.\<close>

definition eligible :: "Scheduler \<Rightarrow> Request \<Rightarrow> string set" where
  "eligible s r = {k. \<exists>p. (k, p) \<in> set (s_running s) \<and> r_Preemptible (p_req p) \<and> r_Priority (p_req p) < r_Priority r}"

lemma victim_pool_ids:
  assumes "book_ok cards (s_running s)"
  shows "set (pool_ids (victim_pool s r)) = eligible s r" and "distinct (pool_ids (victim_pool s r))"
proof -
  have ids: "map (\<lambda>p. r_ID (p_req p)) (map snd (s_running s)) = map fst (s_running s)"
    using assms by (auto simp: book_ok_def)
  show "set (pool_ids (victim_pool s r)) = eligible s r"
    using assms by (auto simp: pool_ids_def victim_pool_def eligible_def book_ok_def image_iff) force+
  have "distinct (map (\<lambda>p. r_ID (p_req p)) (map snd (s_running s)))"
    unfolding ids using assms by (simp add: book_ok_def)
  then have "distinct (map (\<lambda>p. r_ID (p_req p))
      (filter (\<lambda>p. r_Preemptible (p_req p) \<and> r_Priority (p_req p) < r_Priority r) (map snd (s_running s))))"
    by (rule distinct_map_filter)
  then have "distinct (map (\<lambda>p. r_ID (p_req p)) (victim_pool s r))"
    unfolding victim_pool_def by (rule distinct_map_sort)
  then show "distinct (pool_ids (victim_pool s r))" by (simp add: pool_ids_def)
qed

lemma victims_Some:
  assumes "book_ok (s_cards s) (s_running s)" and "victims s r = Some (nd, slots)"
  shows "set nd \<subseteq> eligible s r" and "distinct nd" and "fit s r nd = Inr slots" and "all_needed s r nd nd"
  using try_victims_Some [OF assms(1) _ _ assms(2) [unfolded victims_def]] victim_pool_ids [OF assms(1)] by auto

lemma victims_None:
  assumes "book_ok (s_cards s) (s_running s)" and "victims s r = None" and "\<not> fits s r []"
    and "set ig \<subseteq> eligible s r"
  shows "\<not> fits s r ig"
proof -
  have "\<not> fits s r (pool_ids (victim_pool s r))"
    using try_victims_None [OF assms(1) _ _ assms(3), of "[]" "victim_pool s r"] assms(2) victim_pool_ids [OF assms(1)]
    by (simp add: victims_def)
  then show ?thesis using fits_mono [OF assms(1), of ig] assms(4) victim_pool_ids(1) [OF assms(1)] by blast
qed

end
