(* ===== verification/Scheduler_Runs.thy ===== *)
theory Scheduler_Runs
  imports Scheduler_Victims
begin

text \<open>
  The invariant of the whole scheduler and what every operation of \<^verbatim>\<open>scheduler.go\<close> does to it. \<open>sched_inv\<close>
  says that the cards are sane, that the book balances, that every running job holds on as many
  cards as it asked for exactly the seats and memory its request needs there, that what waits is a valid request, and
  that admission numbers are unique. The only obligation it puts on a caller is \<open>req_ok\<close>: a
  request does not ask for a negative amount of memory, which \<^verbatim>\<open>validate\<close> does not check.
\<close>

subsection \<open>The invariant\<close>

definition req_ok :: "Request \<Rightarrow> bool" where
  "req_ok r \<longleftrightarrow> validate r = None \<and> 0 \<le> r_MemMiB r"

definition granted :: "Card list \<Rightarrow> Request \<Rightarrow> Slot list \<Rightarrow> bool" where
  "granted cards r slots \<longleftrightarrow> length slots = want_cards r \<and>
     (\<forall>sl \<in> set slots. \<exists>c \<in> set cards. sl_Card sl = c_Index c \<and> need r c = Inr (sl_Seats sl, sl_MemMiB sl))"

definition job_ok :: "Scheduler \<Rightarrow> placed \<Rightarrow> bool" where
  "job_ok s p \<longleftrightarrow> req_ok (p_req p) \<and> granted (s_cards s) (p_req p) (p_slots p) \<and> p_order p \<le> s_next s"

definition sched_inv :: "Scheduler \<Rightarrow> bool" where
  "sched_inv s \<longleftrightarrow> cards_ok (s_cards s) \<and> book_ok (s_cards s) (s_running s) \<and>
     (\<forall>e \<in> set (s_running s). job_ok s (snd e)) \<and> distinct (map (p_order \<circ> snd) (s_running s)) \<and>
     (\<forall>r \<in> set (s_queue s). req_ok r)"

lemma sched_invD:
  assumes "sched_inv s"
  shows "cards_ok (s_cards s)" and "book_ok (s_cards s) (s_running s)" and "distinct (map c_Index (s_cards s))"
  using assms by (auto simp: sched_inv_def cards_ok_def)

lemma sched_inv_New:
  assumes "distinct (map c_Index cards)" and "\<forall>c \<in> set cards. 0 \<le> c_MemMiB c"
  shows "sched_inv (New cards)"
proof -
  have "map c_Index (s_cards (New cards)) = map c_Index cards"
    by (simp add: New_def)
  then show ?thesis using assms
    by (auto simp: sched_inv_def cards_ok_def book_ok_def New_def DefaultSeats_def simp del: map_map)
qed

subsection \<open>The changes the operations are made of\<close>

lemma sched_inv_filter: "sched_inv s \<Longrightarrow> sched_inv (s\<lparr>s_running := filter P (s_running s)\<rparr>)"
  by (auto simp: sched_inv_def book_filter distinct_map_filter job_ok_def)

lemma sched_inv_queue:
  "sched_inv s \<Longrightarrow> \<forall>r \<in> set q. req_ok r \<Longrightarrow> sched_inv (s\<lparr>s_queue := q\<rparr>)"
  by (simp add: sched_inv_def job_ok_def)

lemma sched_inv_update:
  assumes inv: "sched_inv s" and room: "room (s_cards s) (AList.delete (r_ID (p_req p)) (s_running s)) (p_slots p)"
    and ok: "req_ok (p_req p)" "granted (s_cards s) (p_req p) (p_slots p)"
    and ord: "p_order p \<le> n" "s_next s \<le> n"
      "p_order p \<notin> p_order ` snd ` set (AList.delete (r_ID (p_req p)) (s_running s))"
  shows "sched_inv (s\<lparr>s_next := n, s_running := AList.update (r_ID (p_req p)) p (s_running s)\<rparr>)"
proof -
  let ?k = "r_ID (p_req p)"
  have d: "distinct (map fst (s_running s))" using sched_invD(2) [OF inv] by (simp add: book_ok_def)
  have "book_ok (s_cards s) (AList.update ?k p (s_running s))"
    using sched_invD(2) [OF inv] room sched_invD(3) [OF inv] by (intro book_update) auto
  moreover have "job_ok (s\<lparr>s_next := n, s_running := al\<rparr>) (snd e)" if "e \<in> set (AList.update ?k p (s_running s))" for e al
    using that inv ok ord d by (force simp: in_update sched_inv_def job_ok_def)
  moreover have m: "mset (map (p_order \<circ> snd) (AList.update ?k p (s_running s))) =
      mset (map (p_order \<circ> snd) ((?k, p) # AList.delete ?k (s_running s)))"
    using mset_AList_update [OF d, of ?k p] by simp
  have "distinct (map (p_order \<circ> snd) ((?k, p) # AList.delete ?k (s_running s)))"
    using inv ord(3) by (simp add: sched_inv_def delete_filter distinct_map_filter image_comp)
  then have "distinct (map (p_order \<circ> snd) (AList.update ?k p (s_running s)))"
    by (simp only: mset_eq_imp_distinct_iff [OF m])
  ultimately show ?thesis using inv by (auto simp: sched_inv_def)
qed

lemma sched_inv_start:
  assumes inv: "sched_inv s" and ok: "req_ok r" "granted (s_cards s) r slots" and room: "room (s_cards s) (s_running s) slots"
  shows "sched_inv (start_job r slots s)"
  unfolding start_job_def
  using sched_inv_update [OF inv, of "\<lparr>p_req = r, p_slots = slots, p_order = s_next s + 1\<rparr>" "s_next s + 1"]
    room_filter [OF sched_invD(2) [OF inv] room] ok inv
  by (fastforce simp: delete_filter sched_inv_def job_ok_def)

lemma fit_granted:
  assumes "fit s r ig = Inr slots"
  shows "granted (s_cards s) r slots"
    and "\<forall>sl \<in> set slots. \<exists>c \<in> set (s_cards s). sl_Card sl = c_Index c \<and> \<not> c_Down c"
proof -
  let ?cands = "List.map_filter (cand_of s r ig) (s_cards s)"
  have "\<exists>c \<in> set (s_cards s). sl_Card sl = c_Index c \<and> \<not> c_Down c \<and> need r c = Inr (sl_Seats sl, sl_MemMiB sl)"
    if "sl \<in> set slots" for sl
  proof -
    from that assms obtain cd where "cd \<in> set (take (want_cards r) (sort_cands ?cands))"
      and sl: "sl = slot s r (cd_c cd) (cd_seats cd) (cd_mem cd) ig []" by (auto simp: fit_Inr_iff)
    then have "cd \<in> set ?cands" by (auto simp: sort_cands_def dest: in_set_takeD)
    then obtain c where "c \<in> set (s_cards s)" "cand_of s r ig c = Some cd" by (auto simp: map_filter_set)
    then show ?thesis using cand_ofD [of s r ig c cd] by (auto simp: sl slot_def room_for_def)
  qed
  moreover have "length slots = want_cards r" using assms by (auto simp: fit_Inr_iff sort_cands_def)
  ultimately show "granted (s_cards s) r slots"
    and "\<forall>sl \<in> set slots. \<exists>c \<in> set (s_cards s). sl_Card sl = c_Index c \<and> \<not> c_Down c"
    by (auto simp: granted_def)
qed

lemma fit_start_inv:
  assumes "sched_inv s" and "req_ok r" and "fit s r [] = Inr slots"
  shows "sched_inv (start_job r slots s)"
  using assms fit_room(1) [OF sched_invD(1,2) [OF assms(1)] _ assms(3)] fit_granted(1) [OF assms(3)]
  by (intro sched_inv_start) (auto simp: req_ok_def)

lemma start_job_simps [simp]:
  "s_cards (start_job r slots s) = s_cards s" "s_queue (start_job r slots s) = s_queue s"
  "s_next (start_job r slots s) = s_next s + 1"
  "map_of (s_running (start_job r slots s)) =
     (map_of (s_running s))(r_ID r \<mapsto> \<lparr>p_req = r, p_slots = slots, p_order = s_next s + 1\<rparr>)"
  by (simp_all add: start_job_def AList.update_conv')

subsection \<open>Draining a card\<close>

text \<open>Whether a card is draining makes no difference to what the jobs on it hold.\<close>

definition in_service :: "Card \<Rightarrow> Card" where
  "in_service c = c\<lparr>c_Down := False\<rparr>"

lemma in_service_simps [simp]:
  "c_Index (in_service c) = c_Index c" "c_MemMiB (in_service c) = c_MemMiB c" "c_Seats (in_service c) = c_Seats c"
  "slot_ok (in_service c) = slot_ok c" "need r (in_service c) = need r c"
  by (simp_all add: in_service_def slot_ok_def need_def fun_eq_iff Let_def split: sum.split)

lemma set_down_same: "set_down idx d cs = Some cs' \<Longrightarrow> map in_service cs' = map in_service cs"
  by (induction cs arbitrary: cs') (auto simp: in_service_def split: if_splits)

lemma bex_in_service: "(\<exists>c \<in> set (map in_service cs). P c) \<longleftrightarrow> (\<exists>c \<in> set cs. P (in_service c))"
  by simp

lemma ball_in_service: "(\<forall>c \<in> set (map in_service cs). P c) \<longleftrightarrow> (\<forall>c \<in> set cs. P (in_service c))"
  by simp

lemma in_service_cards:
  "cards_ok (map in_service cs) = cards_ok cs" "book_ok (map in_service cs) al = book_ok cs al"
  "granted (map in_service cs) r slots = granted cs r slots" "slots_ok (map in_service cs) slots = slots_ok cs slots"
  by (simp_all add: cards_ok_def book_ok_def granted_def slots_ok_def comp_def)

lemma SetDown_inv [inv_pres]: "sched_inv s \<Longrightarrow> sched_inv (fst (SetDown idx d s))"
proof (cases "set_down idx d (s_cards s)")
  case (Some cs)
  assume inv: "sched_inv s"
  have "cards_ok cs = cards_ok (s_cards s)" "book_ok cs al = book_ok (s_cards s) al"
      "granted cs r slots = granted (s_cards s) r slots" for al r slots
    using set_down_same [OF Some] by (metis in_service_cards)+
  with inv Some show ?thesis by (simp add: SetDown_def sched_inv_def job_ok_def)
qed (simp add: SetDown_def)

subsection \<open>The operations keep the invariant\<close>

lemma Evict_inv [inv_pres]: "sched_inv s \<Longrightarrow> sched_inv (Evict jid s)"
  by (simp add: Evict_def delete_filter sched_inv_filter)

lemma drain_loop_inv:
  "sched_inv s \<Longrightarrow> \<forall>r \<in> set q. req_ok r \<Longrightarrow> sched_inv (fst (drain_loop q s started rest))"
  by (induction q s started rest rule: drain_loop.induct) (auto simp: fit_start_inv split: sum.splits)

lemma drain_loop_rest:
  "drain_loop q s started rest = (s', started', rest') \<Longrightarrow> set rest' \<subseteq> set rest \<union> set q"
proof (induction q arbitrary: s started rest)
  case (Cons r q)
  then show ?case by (cases "fit s r []") (auto dest!: Cons.IH)
qed simp

lemma drain_inv: "sched_inv s \<Longrightarrow> sched_inv (fst (drain s))"
proof -
  assume inv: "sched_inv s"
  let ?q = "sort_queue (s_queue s)"
  have q: "\<forall>r \<in> set ?q. req_ok r" using inv by (auto simp: sched_inv_def sort_queue_def)
  obtain s' started rest where l: "drain_loop ?q (s\<lparr>s_queue := ?q\<rparr>) [] [] = (s', started, rest)"
    by (cases "drain_loop ?q (s\<lparr>s_queue := ?q\<rparr>) [] []") auto
  have "sched_inv s'" using drain_loop_inv [OF sched_inv_queue [OF inv q] q, of "[]" "[]"] l by simp
  moreover have "\<forall>r \<in> set rest. req_ok r" using drain_loop_rest [OF l] q by auto
  ultimately show ?thesis using l by (simp add: drain_def Let_def sched_inv_queue)
qed

lemma Release_inv [inv_pres]: "sched_inv s \<Longrightarrow> sched_inv (fst (Release jid s))"
  by (simp add: Release_def drain_inv delete_filter sched_inv_filter)

lemma Requeue_inv [inv_pres]: "sched_inv s \<Longrightarrow> req_ok r \<Longrightarrow> sched_inv (Requeue r s)"
  by (auto simp: Requeue_def sched_inv_def job_ok_def req_ok_def validate_def split: if_splits)

lemma cancel_queue_subset: "cancel_queue jid q = Some q' \<Longrightarrow> set q' \<subseteq> set q"
  by (induction q arbitrary: q') (auto split: if_splits)

lemma Cancel_inv [inv_pres]: "sched_inv s \<Longrightarrow> sched_inv (fst (Cancel jid s))"
  using cancel_queue_subset [of jid "s_queue s"]
  by (auto simp: Cancel_def sched_inv_def job_ok_def split: option.splits)


lemma live_one: "live [k] al = AList.delete k al"
  by (simp add: live_def delete_filter)

lemma live_fold_delete: "live ks al = fold AList.delete ks al"
  by (simp add: live_def fold_delete_filter)

text \<open>The two ways \<^verbatim>\<open>Admit\<close> finds room, and what it does then.\<close>

lemma Admit_Placement:
  assumes "Admit r s = (s', Inr d)" and "d_Placement d = Some pl"
  shows "validate r = None" and "map_of (s_running s) (r_ID r) = None"
    and "s' = start_job r (pl_Slots pl) (s\<lparr>s_running := live (d_Preempt d) (s_running s)\<rparr>)"
    and "fit s r [] = Inr (pl_Slots pl) \<and> d_Preempt d = [] \<or>
      fit s r [] = Inl ErrNoFit \<and> victims s r = Some (d_Preempt d, pl_Slots pl)"
    and "pl_JobID pl = r_ID r" and "\<not> d_Queued d"
  using assms
  by (auto simp: Admit_def Let_def live_fold_delete split: option.splits if_splits sum.splits prod.splits)

lemma Admit_other:
  assumes "Admit r s = (s', res)" and "\<nexists>d pl. res = Inr d \<and> d_Placement d = Some pl"
  shows "(\<exists>e. s' = s \<and> res = Inl e) \<or>
    validate r = None \<and> r_Wait r \<and> fit s r [] = Inl ErrNoFit \<and> victims s r = None \<and>
    s' = s\<lparr>s_queue := s_queue s @ [r]\<rparr> \<and> res = Inr \<lparr>d_Placement = None, d_Preempt = [], d_Queued = True\<rparr>"
  using assms
  by (auto simp: Admit_def Let_def split: option.splits if_splits sum.splits prod.splits)

lemma Admit_fit:
  assumes "sched_inv s" and "Admit r s = (s', Inr d)" and "d_Placement d = Some pl"
  shows "fit s r (d_Preempt d) = Inr (pl_Slots pl)" and "set (d_Preempt d) \<subseteq> eligible s r"
    and "all_needed s r (d_Preempt d) (d_Preempt d)" and "distinct (d_Preempt d)"
  using Admit_Placement(4) [OF assms(2,3)] victims_Some [OF sched_invD(2) [OF assms(1)], of r "d_Preempt d" "pl_Slots pl"]
  by (auto simp: all_needed_def)

lemma Admit_inv [inv_pres]:
  assumes inv: "sched_inv s" and mem: "0 \<le> r_MemMiB r"
  shows "sched_inv (fst (Admit r s))"
proof (cases "Admit r s")
  case (Pair s' res)
  show ?thesis
  proof (cases "\<exists>d pl. res = Inr d \<and> d_Placement d = Some pl")
    case True
    then obtain d pl where d: "Admit r s = (s', Inr d)" "d_Placement d = Some pl" using Pair by auto
    let ?s = "s\<lparr>s_running := live (d_Preempt d) (s_running s)\<rparr>"
    note f = Admit_fit(1) [OF inv d] and a = Admit_Placement [OF d]
    have "sched_inv ?s" using sched_inv_filter [OF inv] by (simp add: live_def)
    moreover have "room (s_cards s) (live (d_Preempt d) (s_running s)) (pl_Slots pl)"
      using fit_room(1) [OF sched_invD(1,2) [OF inv] mem f] .
    ultimately have "sched_inv (start_job r (pl_Slots pl) ?s)"
      using a(1) mem fit_granted(1) [OF f] by (intro sched_inv_start) (auto simp: req_ok_def)
    then show ?thesis using a(3) Pair by simp
  next
    case False
    have "sched_inv (s\<lparr>s_queue := s_queue s @ [r]\<rparr>)" if "validate r = None"
      using inv that mem by (intro sched_inv_queue) (auto simp: sched_inv_def req_ok_def)
    then show ?thesis using Admit_other [OF Pair False] inv Pair by auto
  qed
qed

lemma resize_slots_granted:
  "resize_slots s r ig olds acc = Inr slots \<Longrightarrow>
    \<exists>new. slots = acc @ new \<and> length new = length olds \<and>
      (\<forall>sl \<in> set new. \<exists>c \<in> set (s_cards s). sl_Card sl = c_Index c \<and> need r c = Inr (sl_Seats sl, sl_MemMiB sl))"
proof (induction olds arbitrary: acc)
  case (Cons old olds)
  from Cons.prems obtain c seats m where ca: "card_at s (sl_Card old) = Some c" and n: "need r c = Inr (seats, m)"
    and rest: "resize_slots s r ig olds (acc @ [slot s r c seats m ig (sl_SeatIDs old)]) = Inr slots"
    by (auto split: option.splits sum.splits prod.splits if_splits)
  have "need r c = Inr (sl_Seats (slot s r c seats m ig k), sl_MemMiB (slot s r c seats m ig k))"
      "sl_Card (slot s r c seats m ig k) = c_Index c" for k
    using n by (simp_all add: slot_def)
  with Cons.IH [OF rest] card_at_in [OF ca] show ?case by force
qed simp

text \<open>The request a resize stands for.\<close>

definition resize_req :: "placed \<Rightarrow> float64 \<Rightarrow> int \<Rightarrow> Request" where
  "resize_req p fraction memMiB = (p_req p)\<lparr>r_Share := fraction, r_MemMiB := if memMiB > 0 then memMiB else r_MemMiB (p_req p)\<rparr>"

lemma resize_req_simps [simp]:
  "r_ID (resize_req p f m) = r_ID (p_req p)" "r_GPUs (resize_req p f m) = r_GPUs (p_req p)"
  "r_Share (resize_req p f m) = f" "want_cards (resize_req p f m) = want_cards (p_req p)"
  by (simp_all add: resize_req_def want_cards_def)

lemma Resize_eq:
  "Resize jid f m s =
     (case map_of (s_running s) jid of
        None \<Rightarrow> (s, Inl (NotRunning jid))
      | Some p \<Rightarrow>
          (case validate (resize_req p f m) of
             Some e \<Rightarrow> (s, Inl e)
           | None \<Rightarrow>
               (case resize_slots s (resize_req p f m) [jid] (p_slots p) [] of
                  Inl e \<Rightarrow> (s, Inl e)
                | Inr slots \<Rightarrow>
                    (s\<lparr>s_running := AList.update jid (p\<lparr>p_req := resize_req p f m, p_slots := slots\<rparr>) (s_running s)\<rparr>,
                     Inr \<lparr>pl_JobID = jid, pl_Slots = slots\<rparr>))))"
proof -
  have "(if m > 0 then (p_req p)\<lparr>r_Share := f, r_MemMiB := m\<rparr> else (p_req p)\<lparr>r_Share := f\<rparr>) = resize_req p f m" for p
    by (simp add: resize_req_def)
  then show ?thesis by (simp only: Resize_def Let_def)
qed

lemma Resize_OK:
  assumes inv: "sched_inv s" and res: "Resize jid f m s = (s', Inr pl)"
  obtains p where "map_of (s_running s) jid = Some p" and "r_ID (p_req p) = jid"
    and "req_ok (resize_req p f m)" and "job_ok s p"
    and "resize_slots s (resize_req p f m) [jid] (p_slots p) [] = Inr (pl_Slots pl)"
    and "s' = s\<lparr>s_running := AList.update jid (p\<lparr>p_req := resize_req p f m, p_slots := pl_Slots pl\<rparr>) (s_running s)\<rparr>"
    and "pl_JobID pl = jid"
proof -
  from res obtain p where p: "map_of (s_running s) jid = Some p" and v: "validate (resize_req p f m) = None"
    and sl: "resize_slots s (resize_req p f m) [jid] (p_slots p) [] = Inr (pl_Slots pl)"
    and s': "s' = s\<lparr>s_running := AList.update jid (p\<lparr>p_req := resize_req p f m, p_slots := pl_Slots pl\<rparr>) (s_running s)\<rparr>"
    and pl: "pl_JobID pl = jid"
    by (auto simp: Resize_eq split: option.splits sum.splits)
  have e: "(jid, p) \<in> set (s_running s)" using p by (rule map_of_SomeD)
  then have jok: "job_ok s p" using inv by (auto simp: sched_inv_def)
  have jid: "r_ID (p_req p) = jid"
    using e sched_invD(2) [OF inv] by (auto simp: book_ok_def)
  have ok: "req_ok (resize_req p f m)"
    using jok v by (auto simp: job_ok_def req_ok_def resize_req_def)
  show ?thesis by (rule that [OF p jid ok jok sl s' pl])
qed

lemma Resize_room:
  assumes inv: "sched_inv s" and ok: "req_ok r" and slots: "resize_slots s r ig olds [] = Inr slots"
    and olds: "distinct (map sl_Card olds)"
  shows "room (s_cards s) (live ig (s_running s)) slots" and "map sl_Card slots = map sl_Card olds"
  using resize_slots_room [OF sched_invD(1,2) [OF inv] _ slots] ok olds by (auto simp: room_def req_ok_def)

lemma other_order:
  assumes inv: "sched_inv s" and p: "(k, p) \<in> set (s_running s)"
  shows "p_order p \<notin> p_order ` snd ` set (AList.delete k (s_running s))"
proof
  assume "p_order p \<in> p_order ` snd ` set (AList.delete k (s_running s))"
  then obtain e where e: "e \<in> set (s_running s)" "fst e \<noteq> k" "p_order (snd e) = p_order p"
    by (auto simp: delete_filter)
  have "inj_on (p_order \<circ> snd) (set (s_running s))" using inv by (simp add: sched_inv_def distinct_map)
  from inj_onD [OF this, of e "(k, p)"] e p show False by simp
qed

lemma Resize_inv [inv_pres]:
  assumes inv: "sched_inv s"
  shows "sched_inv (fst (Resize jid f m s))"
proof (cases "\<exists>s' pl. Resize jid f m s = (s', Inr pl)")
  case True
  then obtain s' pl where r: "Resize jid f m s = (s', Inr pl)" by auto
  from inv r obtain p where p: "map_of (s_running s) jid = Some p" and jid: "r_ID (p_req p) = jid"
    and ok: "req_ok (resize_req p f m)" and jok: "job_ok s p"
    and sl: "resize_slots s (resize_req p f m) [jid] (p_slots p) [] = Inr (pl_Slots pl)"
    and s': "s' = s\<lparr>s_running := AList.update jid (p\<lparr>p_req := resize_req p f m, p_slots := pl_Slots pl\<rparr>) (s_running s)\<rparr>"
    by (rule Resize_OK)
  let ?p = "p\<lparr>p_req := resize_req p f m, p_slots := pl_Slots pl\<rparr>"
  have e: "(jid, p) \<in> set (s_running s)" using p by (rule map_of_SomeD)
  have "distinct (map sl_Card (p_slots p))"
    using e book_entries [OF sched_invD(2) [OF inv]] by (auto simp: slots_ok_def)
  from Resize_room(1) [OF inv ok sl this]
  have "room (s_cards s) (AList.delete jid (s_running s)) (pl_Slots pl)" by (simp add: live_one)
  moreover have "granted (s_cards s) (resize_req p f m) (pl_Slots pl)"
    using resize_slots_granted [OF sl] jok by (auto simp: granted_def job_ok_def)
  ultimately have "sched_inv (s\<lparr>s_next := s_next s, s_running := AList.update (r_ID (p_req ?p)) ?p (s_running s)\<rparr>)"
    using jid ok jok other_order [OF inv e]
    by (intro sched_inv_update [OF inv]) (auto simp: job_ok_def)
  then show ?thesis using s' r jid by simp
next
  case False
  then show ?thesis using inv by (auto simp: Resize_eq split: option.splits sum.splits)
qed

subsection \<open>Every sequence of operations\<close>

text \<open>What a caller owes: it never asks for negative memory, and requeues only what was admitted.\<close>

fun sched_ok :: "sched_op \<Rightarrow> Scheduler \<Rightarrow> bool" where
  "sched_ok (OpAdmit r) s = (0 \<le> r_MemMiB r)"
| "sched_ok (OpRequeue r) s = req_ok r"
| "sched_ok _ s = True"

interpretation sched: invariant_system sched_step sched_ok sched_inv
proof
  fix s op
  assume "sched_inv s" "sched_ok op s"
  then show "sched_inv (sched_step op s)" by (cases op) (simp_all add: inv_pres)
qed

end
