(* ===== verification/Scheduler_Properties.thy ===== *)
theory Scheduler_Properties
  imports Scheduler_Runs
begin

text \<open>
  What the scheduler of \<^verbatim>\<open>internal/scheduler\<close> promises, over its model and the invariant of \<open>Scheduler_Runs\<close>: no
  run of operations overbooks a card or hands a seat to two jobs; placement is best fit, gang and never on
  a draining card; preemption takes only jobs rule 3 allows, all of them needed, and gives up only when
  no choice would do; a release starts what it can and leaves nothing waiting that fits.
\<close>

subsection \<open>A small machine to instantiate the properties on\<close>

text \<open>Cards of two seats, jobs of half a card.\<close>

definition demo_card :: "int \<Rightarrow> Card" where
  "demo_card idx = \<lparr>c_Index = idx, c_Name = ''g'', c_MemMiB = 1000, c_Seats = 2, c_Down = False\<rparr>"

definition demo_req :: "string \<Rightarrow> int \<Rightarrow> Request" where
  "demo_req jid prio = \<lparr>r_ID = jid, r_Share = Fin (1/2), r_MemMiB = 100, r_GPUs = 1, r_Priority = prio,
     r_Preemptible = True, r_Burst = False, r_Wait = True\<rparr>"

definition demo_slot :: "int \<Rightarrow> int list \<Rightarrow> Slot" where
  "demo_slot idx ids = \<lparr>sl_Card = idx, sl_Seats = 1, sl_GrantedShare = Fin (1/2), sl_MemMiB = 100,
     sl_ComputePercent = 50, sl_SeatIDs = ids\<rparr>"

definition demo_job :: "string \<Rightarrow> int \<Rightarrow> int list \<Rightarrow> nat \<Rightarrow> string \<times> placed" where
  "demo_job jid prio ids ord = (jid, \<lparr>p_req = demo_req jid prio, p_slots = [demo_slot 0 ids], p_order = ord\<rparr>)"

definition demo_ops :: "sched_op list" where
  "demo_ops = [OpAdmit (demo_req ''a'' 0), OpAdmit (demo_req ''b'' 0)]"

definition demo_full :: Scheduler where
  "demo_full = \<lparr>s_cards = [demo_card 0], s_running = [demo_job ''a'' 0 [0] 1, demo_job ''b'' 0 [1] 2],
     s_queue = [], s_next = 2\<rparr>"

lemma demo_share:
  "Seats (Fin (1/2)) 2 = Inr 1" "Granted 1 2 = Fin (1/2)" "ComputePercent 1 2 = 50" "share_ok (Fin (1/2))"
  by code_simp+

lemmas demo_defs = demo_card_def demo_req_def demo_slot_def demo_job_def demo_ops_def

lemmas demo_eval = New_def Admit_def validate_def fit_def need_def usage_def usage_slots_def slot_def pickSeats_def
  occupied_def first_run_def mark_seats_def sort_cands_def start_job_def victims_def victim_pool_def demo_share
  upt_rec Let_def demo_defs

lemma demo_run: "run_ops sched_step demo_ops (New [demo_card 0]) = demo_full"
  by (simp add: demo_eval demo_full_def)

lemma demo_guarded: "guarded_ops sched_step sched_ok demo_ops s"
  by (simp add: demo_defs)

lemma demo_card_simps [simp]: "c_Index (demo_card i) = i" "c_MemMiB (demo_card i) = 1000"
  by (simp_all add: demo_card_def)

subsection \<open>The book balances after every run\<close>

lemma run_sched_inv:
  assumes "distinct (map c_Index cards)" and "\<forall>c \<in> set cards. 0 \<le> c_MemMiB c"
    and "guarded_ops sched_step sched_ok ops (New cards)"
  shows "sched_inv (run_ops sched_step ops (New cards))"
  using sched.run_inv [OF sched_inv_New [OF assms(1,2)] assms(3)] .

lemma demo_inv: "sched_inv demo_full"
  using run_sched_inv [of "[demo_card 0]" demo_ops] by (simp add: demo_run demo_guarded)

text \<open>
  C1: whatever sequence of operations (admissions, releases, evictions, requeues, cancellations, resizes,
  drains, in any order) a caller applies to a scheduler made by \<^verbatim>\<open>New\<close>, asking for non-negative memory, the seats and
  the memory that \<^verbatim>\<open>usage\<close> counts on any card are within the card's, and what \<^verbatim>\<open>Available\<close> reports as free is
  never negative.
\<close>

theorem no_overbooking:
  assumes "distinct (map c_Index cards)" and "\<forall>c \<in> set cards. 0 \<le> c_MemMiB c"
    and "guarded_ops sched_step sched_ok ops (New cards)"
  defines "s \<equiv> run_ops sched_step ops (New cards)"
  shows "(\<forall>c \<in> set (Cards s). \<exists>us um. usage s (c_Index c) [] = (us, um) \<and>
      0 \<le> us \<and> us \<le> c_Seats c \<and> 0 \<le> um \<and> um \<le> c_MemMiB c) \<and>
    (\<forall>f \<in> set (Available s). 0 \<le> f_Seats f \<and> 0 \<le> f_MemMiB f)"
proof -
  have inv: "sched_inv s" unfolding s_def by (rule run_sched_inv [OF assms(1-3)])
  note b = book_seats [OF sched_invD(2) [OF inv] _ sched_invD(1) [OF inv]]
  show ?thesis using b by (auto simp: Cards_def usage_eq Available_def)
qed

theorem no_overbooking_witness:
  "usage demo_full 0 [] = (2, 200) \<and>
   (\<exists>us um. usage demo_full 0 [] = (us, um) \<and> 0 \<le> us \<and> us \<le> 2 \<and> 0 \<le> um \<and> um \<le> 1000)"
  using no_overbooking [of "[demo_card 0]" demo_ops]
  by (simp add: demo_guarded demo_run) (simp add: demo_full_def Cards_def demo_eval)

text \<open>Two running jobs that hold the same seat of the same card are the same job.\<close>

lemma held_two:
  assumes "distinct (held al idx)" and "distinct (map fst al)" and "(j, p) \<in> set al" and "(k, q) \<in> set al"
    and "i \<in> set (held [(j, p)] idx)" and "i \<in> set (held [(k, q)] idx)"
  shows "j = k"
  using assms
proof (induction al)
  case (Cons e al)
  have sub: "set (held [x] idx) \<subseteq> set (held al idx)" if "x \<in> set al" for x
    using that by (auto simp: held_def)
  have "held (e # al) idx = held [e] idx @ held al idx" by simp
  then have e: "set (held [e] idx) \<inter> set (held al idx) = {}" "distinct (held al idx)"
    using Cons.prems(1) by (simp_all only: distinct_append)
  have "(j, p) = e \<and> (k, q) = e \<or> (j, p) \<in> set al \<and> (k, q) \<in> set al"
    using Cons.prems(3-6) sub [of "(j, p)"] sub [of "(k, q)"] e(1)
    by (simp only: set_simps insert_iff) blast
  then show ?case using Cons e(2) by auto
qed simp

lemma running_slot:
  assumes inv: "sched_inv s" and p: "map_of (s_running s) j = Some p" and sl: "sl \<in> set (p_slots p)"
  obtains c where "c \<in> set (s_cards s)" "slot_ok c sl"
  using map_of_SomeD [OF p] book_entries [OF sched_invD(2) [OF inv]] sl by (fastforce simp: slots_ok_def)

lemma seats_apart:
  assumes inv: "sched_inv s" and j: "map_of (s_running s) j = Some p" and k: "map_of (s_running s) k = Some q" and ne: "j \<noteq> k"
    and sl: "sl \<in> set (p_slots p)" "sl' \<in> set (p_slots q)" "sl_Card sl = sl_Card sl'"
  shows "set (sl_SeatIDs sl) \<inter> set (sl_SeatIDs sl') = {}"
proof -
  obtain c where c: "c \<in> set (s_cards s)" "slot_ok c sl" by (rule running_slot [OF inv j sl(1)])
  have d: "distinct (held (s_running s) (c_Index c))" "distinct (map fst (s_running s))"
    using sched_invD(2) [OF inv] c(1) by (auto simp: book_ok_def)
  have "j = k" if "i \<in> set (sl_SeatIDs sl)" "i \<in> set (sl_SeatIDs sl')" for i
    by (rule held_two [OF d map_of_SomeD [OF j] map_of_SomeD [OF k], of i])
      (use that sl c(2) in \<open>auto simp: job_slots_def slot_ok_def\<close>)
  then show ?thesis using ne by blast
qed

text \<open>
  C2: after any such run, every running job holds on each of its cards exactly as many distinct, valid
  seats as it was granted, and no seat of a card is held by two jobs.
\<close>

theorem seats_exclusive:
  assumes "distinct (map c_Index cards)" and "\<forall>c \<in> set cards. 0 \<le> c_MemMiB c"
    and "guarded_ops sched_step sched_ok ops (New cards)"
    and "map_of (s_running (run_ops sched_step ops (New cards))) j = Some p"
    and "map_of (s_running (run_ops sched_step ops (New cards))) k = Some q"
    and "sl \<in> set (p_slots p)" and "sl' \<in> set (p_slots q)" and "sl_Card sl = sl_Card sl'"
  shows "(set (sl_SeatIDs sl) \<inter> set (sl_SeatIDs sl') \<noteq> {} \<longrightarrow> j = k) \<and>
    distinct (sl_SeatIDs sl) \<and> int (length (sl_SeatIDs sl)) = sl_Seats sl \<and>
    (\<exists>c \<in> set (Cards (run_ops sched_step ops (New cards))).
       c_Index c = sl_Card sl \<and> set (sl_SeatIDs sl) \<subseteq> {0..<c_Seats c})"
proof -
  let ?s = "run_ops sched_step ops (New cards)"
  have inv: "sched_inv ?s" by (rule run_sched_inv [OF assms(1-3)])
  obtain c where "c \<in> set (s_cards ?s)" "slot_ok c sl" by (rule running_slot [OF inv assms(4,6)])
  moreover have "set (sl_SeatIDs sl) \<inter> set (sl_SeatIDs sl') = {}" if "j \<noteq> k"
    by (rule seats_apart [OF inv assms(4,5) that assms(6-8)])
  ultimately show ?thesis by (auto simp: slot_ok_def Cards_def)
qed

theorem seats_exclusive_witness:
  "set [0] \<inter> set [1::int] = {} \<and> distinct (sl_SeatIDs (demo_slot 0 [0])) \<and>
   (\<exists>c \<in> set (Cards demo_full). c_Index c = 0 \<and> set (sl_SeatIDs (demo_slot 0 [0])) \<subseteq> {0..<c_Seats c})"
proof -
  have "(set (sl_SeatIDs (demo_slot 0 [0])) \<inter> set (sl_SeatIDs (demo_slot 0 [1])) \<noteq> {} \<longrightarrow> ''a'' = ''b'') \<and>
    distinct (sl_SeatIDs (demo_slot 0 [0])) \<and>
    int (length (sl_SeatIDs (demo_slot 0 [0]))) = sl_Seats (demo_slot 0 [0]) \<and>
    (\<exists>c \<in> set (Cards (run_ops sched_step demo_ops (New [demo_card 0]))).
       c_Index c = sl_Card (demo_slot 0 [0]) \<and> set (sl_SeatIDs (demo_slot 0 [0])) \<subseteq> {0..<c_Seats c})"
    by (rule seats_exclusive [where p = "snd (demo_job ''a'' 0 [0] 1)" and q = "snd (demo_job ''b'' 0 [1] 2)"])
      (simp_all add: demo_guarded demo_run, simp_all add: demo_full_def demo_job_def demo_slot_def)
  then show ?thesis by (simp add: demo_run demo_slot_def)
qed

subsection \<open>Preemption\<close>

text \<open>
  C3: when \<^verbatim>\<open>Admit\<close> pushes jobs off, each of them is preemptible and of lower priority than the new job, the
  placement it returns is where the new job fits once they are gone, and none of them could be spared: with only
  some of them gone the job does not fit.
\<close>

theorem Admit_preempts_needed:
  assumes "sched_inv s" and "Admit r s = (s', Inr d)" and "d_Placement d = Some pl"
  shows "set (d_Preempt d) \<subseteq> eligible s r \<and> fit s r (d_Preempt d) = Inr (pl_Slots pl) \<and>
    (\<forall>V. set V \<subset> set (d_Preempt d) \<longrightarrow> \<not> fits s r V)"
proof -
  note a = Admit_fit [OF assms]
  have "\<not> fits s r V" if V: "set V \<subset> set (d_Preempt d)" for V
  proof -
    from V obtain v where v: "v \<in> set (d_Preempt d)" "v \<notin> set V" by auto
    then have "set V \<subseteq> set (removeAll v (d_Preempt d))" using V by auto
    from fits_mono [OF sched_invD(2) [OF assms(1)] this, of r] a(3) v(1) show ?thesis by (auto simp: all_needed_def)
  qed
  with a show ?thesis by blast
qed

lemma demo_full_simps:
  "s_cards demo_full = [demo_card 0]" "s_running demo_full = [demo_job ''a'' 0 [0] 1, demo_job ''b'' 0 [1] 2]"
  "s_queue demo_full = []" "s_next demo_full = 2"
  by (simp_all add: demo_full_def)

lemma demo_fit:
  "fit demo_full (demo_req j p) [] = Inl ErrNoFit"
  "fit demo_full (demo_req j p) [''b''] = Inr [demo_slot 0 [1]]"
  by (simp_all add: demo_full_def demo_eval)

lemma demo_validate: "validate (demo_req [a] p) = None"
  by (simp add: validate_def demo_req_def demo_share)

lemma demo_req_simps:
  "r_ID (demo_req j p) = j" "r_Priority (demo_req j p) = p" "r_GPUs (demo_req j p) = 1"
  "r_Preemptible (demo_req j p) = True" "r_Wait (demo_req j p) = True" "r_MemMiB (demo_req j p) = 100"
  by (simp_all add: demo_req_def)

lemmas demo_admit = demo_req_simps demo_job_def Admit_def victims_def victim_pool_def start_job_def demo_full_simps demo_fit demo_validate Let_def

lemma demo_preempt:
  "Admit (demo_req ''c'' 1) demo_full =
    (\<lparr>s_cards = [demo_card 0], s_running = [demo_job ''a'' 0 [0] 1, demo_job ''c'' 1 [1] 3], s_queue = [], s_next = 3\<rparr>,
     Inr \<lparr>d_Placement = Some \<lparr>pl_JobID = ''c'', pl_Slots = [demo_slot 0 [1]]\<rparr>, d_Preempt = [''b''], d_Queued = False\<rparr>)"
  by (simp add: demo_admit)

theorem Admit_preempts_needed_witness:
  "set [''b''] \<subseteq> eligible demo_full (demo_req ''c'' 1) \<and> \<not> fits demo_full (demo_req ''c'' 1) []"
  using Admit_preempts_needed [OF demo_inv demo_preempt, of "\<lparr>pl_JobID = ''c'', pl_Slots = [demo_slot 0 [1]]\<rparr>"]
  by (auto dest: spec [of _ "[]"])

lemma Admit_NoFit:
  assumes "Admit r s = (s', res)" and "res = Inl ErrNoFit \<or> (\<exists>d. res = Inr d \<and> d_Queued d)"
  shows "fit s r [] = Inl ErrNoFit" and "victims s r = None"
  using assms
  by (auto simp: Admit_def Let_def validate_def split: option.splits if_splits sum.splits prod.splits)

text \<open>
  C8: a job is told to wait, or refused for lack of room, only when no choice of jobs it may push off would
  make it fit; a refusal changes nothing, and a job that waits is put at the end of the queue.
\<close>

theorem Admit_gives_up_rightly:
  assumes "sched_inv s" and "Admit r s = (s', res)"
    and "res = Inl ErrNoFit \<or> (\<exists>d. res = Inr d \<and> d_Queued d)"
  shows "(\<forall>V. set V \<subseteq> eligible s r \<longrightarrow> \<not> fits s r V) \<and>
    (if r_Wait r then s' = s\<lparr>s_queue := s_queue s @ [r]\<rparr> \<and> res = Inr \<lparr>d_Placement = None, d_Preempt = [], d_Queued = True\<rparr>
     else s' = s \<and> res = Inl ErrNoFit)"
proof -
  note n = Admit_NoFit [OF assms(2,3)]
  have "\<not> fits s r []" using n(1) by (rule fits_Inl)
  from victims_None [OF sched_invD(2) [OF assms(1)] n(2) this]
  have "\<forall>V. set V \<subseteq> eligible s r \<longrightarrow> \<not> fits s r V" by blast
  moreover have "if r_Wait r then s' = s\<lparr>s_queue := s_queue s @ [r]\<rparr> \<and> res = Inr \<lparr>d_Placement = None, d_Preempt = [], d_Queued = True\<rparr>
     else s' = s \<and> res = Inl ErrNoFit"
    using assms(2,3) n by (auto simp: Admit_def Let_def validate_def split: option.splits if_splits sum.splits prod.splits)
  ultimately show ?thesis by blast
qed

lemma demo_wait:
  "Admit (demo_req ''c'' 0) demo_full =
    (demo_full\<lparr>s_queue := [demo_req ''c'' 0]\<rparr>, Inr \<lparr>d_Placement = None, d_Preempt = [], d_Queued = True\<rparr>)"
  by (simp add: demo_admit)

theorem Admit_gives_up_rightly_witness:
  "eligible demo_full (demo_req ''c'' 0) = {} \<and> \<not> fits demo_full (demo_req ''c'' 0) []"
  using Admit_gives_up_rightly [OF demo_inv demo_wait] by (auto simp: eligible_def demo_full_def demo_defs)

subsection \<open>Placement\<close>

lemma sort_take_le:
  assumes "x \<in> set (take n (sort_key f xs))" and "y \<in> set xs" and "y \<notin> set (take n (sort_key f xs))"
  shows "f x \<le> f y"
proof -
  let ?ys = "sort_key f xs"
  have "y \<in> set (drop n ?ys)"
    using assms(2,3) set_append [of "take n ?ys" "drop n ?ys"] by auto
  moreover have "sorted (map f (take n ?ys) @ map f (drop n ?ys))"
    by (simp flip: map_append)
  ultimately show ?thesis using assms(1) by (auto simp: sorted_append)
qed

text \<open>
  C9: a placement \<^verbatim>\<open>fit\<close> returns is on as many different cards as were asked for, none of them draining, with the
  seats and memory the request needs on each; and it is best fit: a card in service that also has room and was
  passed over would be left with at least as many free seats as any chosen one.
\<close>

theorem fit_best_fit:
  assumes "sched_inv s" and "fit s r [] = Inr slots"
  shows "int (length slots) = max 1 (r_GPUs r) \<and> distinct (map sl_Card slots) \<and>
    (\<forall>sl \<in> set slots. \<exists>c \<in> set (s_cards s). c_Index c = sl_Card sl \<and> \<not> c_Down c \<and>
       need r c = Inr (sl_Seats sl, sl_MemMiB sl) \<and>
       fst (usage s (c_Index c) []) + sl_Seats sl \<le> c_Seats c \<and> snd (usage s (c_Index c) []) + sl_MemMiB sl \<le> c_MemMiB c \<and>
       (\<forall>c' \<in> set (s_cards s). \<forall>n m. \<not> c_Down c' \<and> c_Index c' \<notin> sl_Card ` set slots \<and> need r c' = Inr (n, m) \<and>
          fst (usage s (c_Index c') []) + n \<le> c_Seats c' \<and> snd (usage s (c_Index c') []) + m \<le> c_MemMiB c' \<longrightarrow>
          c_Seats c - fst (usage s (c_Index c) []) - sl_Seats sl \<le> c_Seats c' - fst (usage s (c_Index c') []) - n))"
    (is "?len \<and> ?dis \<and> (\<forall>sl \<in> set slots. ?P sl)")
proof -
  let ?cands = "List.map_filter (cand_of s r []) (s_cards s)"
  define cds where "cds = take (want_cards r) (sort_cands ?cands)"
  have slots: "slots = map (\<lambda>cd. slot s r (cd_c cd) (cd_seats cd) (cd_mem cd) [] []) cds"
    and len: "want_cards r \<le> length ?cands" using assms(2) by (auto simp: fit_Inr_iff cds_def)
  have ?len using len by (simp add: slots cds_def sort_cands_def want_cards_def)
  moreover have ?dis
  proof -
    have "distinct (map (c_Index \<circ> cd_c) ?cands)"
      using sched_invD(3) [OF assms(1)] by (simp add: cands_cards distinct_map_filter flip: map_map)
    then have "distinct (map (c_Index \<circ> cd_c) cds)" unfolding cds_def sort_cands_def by (rule distinct_take_sort)
    then show ?thesis by (simp add: slots slot_def comp_def)
  qed
  moreover have "?P sl" if sl: "sl \<in> set slots" for sl
  proof -
    from sl obtain cd where cd: "cd \<in> set cds" and sl_eq: "sl = slot s r (cd_c cd) (cd_seats cd) (cd_mem cd) [] []"
      by (auto simp: slots)
    then have "cd \<in> set ?cands" by (auto simp: cds_def sort_cands_def dest: in_set_takeD)
    then obtain c where c: "c \<in> set (s_cards s)" and co: "cand_of s r [] c = Some cd" by (auto simp: map_filter_set)
    note cdD = cand_ofD [OF co]
    have best: "cd_leftSeats cd \<le> c_Seats c' - seats_used (s_running s) (c_Index c') - n"
      if c': "c' \<in> set (s_cards s)" "\<not> c_Down c'" "c_Index c' \<notin> sl_Card ` set slots" and rm: "room_for s r [] c' n m" for c' n m
    proof -
      obtain cd' where cd': "cand_of s r [] c' = Some cd'" using c'(2) rm by (auto simp: cand_of_def room_for_def)
      then have "cd' \<in> set ?cands" using c'(1) by (auto simp: map_filter_set)
      moreover have "cd' \<notin> set cds" using c'(3) cand_ofD(1) [OF cd'] by (auto simp: slots slot_def image_image)
      ultimately have "cd_leftSeats cd \<le> cd_leftSeats cd'"
        using sort_take_le [of cd "want_cards r" "\<lambda>cd. (cd_leftSeats cd, c_Index (cd_c cd))" ?cands cd'] cd
        by (auto simp: cds_def sort_cands_def less_eq_prod_def)
      moreover have "cd_seats cd' = n" using cand_ofD(2) [OF cd'] rm by (simp add: room_for_def)
      ultimately show ?thesis using cand_ofD(4) [OF cd'] by simp
    qed
    show ?thesis
      using cdD c best by (intro bexI [OF _ c]) (auto simp: sl_eq slot_def usage_eq room_for_def)
  qed
  ultimately show ?thesis by blast
qed

theorem fit_best_fit_witness:
  "let s = sched_step (OpAdmit (demo_req ''a'' 0)) (New [demo_card 1, demo_card 0])
   in sched_inv s \<and> fit s (demo_req ''b'' 0) [] = Inr [demo_slot 0 [1]] \<and> distinct (map sl_Card [demo_slot 0 [1]])"
proof -
  let ?s = "sched_step (OpAdmit (demo_req ''a'' 0)) (New [demo_card 1, demo_card 0])"
  have inv: "sched_inv ?s"
    using run_sched_inv [of "[demo_card 1, demo_card 0]" "[OpAdmit (demo_req ''a'' 0)]"] by (simp add: demo_req_def)
  have fit: "fit ?s (demo_req ''b'' 0) [] = Inr [demo_slot 0 [1]]" by (simp add: demo_eval)
  show ?thesis using fit_best_fit [OF inv fit] inv fit by (simp add: Let_def)
qed

text \<open>
  A request fits without pushing anyone off exactly when at least as many cards in service as it asks for have, by what
  \<^verbatim>\<open>Available\<close> reports, the seats and the memory it needs there.
\<close>

theorem fits_iff_Available:
  "fits s r [] \<longleftrightarrow> max 1 (r_GPUs r) \<le> int (length (filter (\<lambda>(c, f). \<not> c_Down c \<and>
     (case need r c of Inl _ \<Rightarrow> False | Inr (n, m) \<Rightarrow> n \<le> f_Seats f \<and> m \<le> f_MemMiB f)) (zip (s_cards s) (Available s))))"
proof -
  have "length (List.map_filter (cand_of s r []) cs) =
      length (filter (\<lambda>(c, f). \<not> c_Down c \<and> (case need r c of Inl _ \<Rightarrow> False | Inr (n, m) \<Rightarrow> n \<le> f_Seats f \<and> m \<le> f_MemMiB f))
        (zip cs (Available (s\<lparr>s_cards := cs\<rparr>))))" for cs
    by (induction cs) (auto simp: map_filter_simps Available_def usage_eq cand_of_def room_for_def split: sum.splits)
  from this [of "s_cards s"] show ?thesis by (auto simp: fits_iff want_cards_def)
qed

end
