(* ===== verification/Scheduler_Queue.thy ===== *)
theory Scheduler_Queue
  imports Scheduler_Properties "HOL-Library.Sublist"
begin

text \<open>
  The waiting line of \<^verbatim>\<open>scheduler.go\<close> (\<^verbatim>\<open>Release\<close>, \<^verbatim>\<open>drain\<close>, \<^verbatim>\<open>Requeue\<close>, \<^verbatim>\<open>Cancel\<close>) and \<^verbatim>\<open>Resize\<close>. A drain
  only adds jobs (\<open>extends\<close>), so what did not fit at its turn does not fit at the end either.
\<close>

subsection \<open>Draining the queue\<close>

definition extends :: "Scheduler \<Rightarrow> Scheduler \<Rightarrow> bool" where
  "extends s s' \<longleftrightarrow> s_cards s' = s_cards s \<and> map_of (s_running s) \<subseteq>\<^sub>m map_of (s_running s') \<and>
     (\<forall>idx. seats_used (s_running s) idx \<le> seats_used (s_running s') idx \<and>
            mem_used (s_running s) idx \<le> mem_used (s_running s') idx)"

lemma extends_refl [simp]: "extends s s"
  by (simp add: extends_def)

lemma extends_trans: "extends s s' \<Longrightarrow> extends s' s'' \<Longrightarrow> extends s s''"
  unfolding extends_def by (metis map_le_trans order_trans)

lemma used_append:
  "seats_used (al @ bl) idx = seats_used al idx + seats_used bl idx"
  "mem_used (al @ bl) idx = mem_used al idx + mem_used bl idx"
  by (simp_all add: seats_used_def mem_used_def)

lemma update_new: "k \<notin> fst ` set al \<Longrightarrow> AList.update k v al = al @ [(k, v)]"
  by (induction al) auto

lemma extends_start:
  assumes "r_ID r \<notin> fst ` set (s_running s)" and "slots_ok (s_cards s) slots"
  shows "extends s (start_job r slots s)"
proof -
  let ?p = "\<lparr>p_req = r, p_slots = slots, p_order = s_next s + 1\<rparr>"
  have "0 \<le> sum_list (map sl_Seats (job_slots idx ?p))" "0 \<le> sum_list (map sl_MemMiB (job_slots idx ?p))" for idx
    using assms(2) by (simp_all add: slots_seats_nonneg slots_mem_nonneg)
  then show ?thesis using assms(1)
    by (auto simp: extends_def start_job_def update_new used_append map_le_def map_add_def split: option.splits
        dest: map_of_SomeD)
qed

lemma fits_extends:
  assumes "extends s s'" and "fits s' r []"
  shows "fits s r []"
proof -
  have "length (List.map_filter (cand_of s' r []) cs) \<le> length (List.map_filter (cand_of s r []) cs)" for cs
  proof (induction cs)
    case (Cons c cs)
    have "seats_used (s_running s) (c_Index c) \<le> seats_used (s_running s') (c_Index c)"
        "mem_used (s_running s) (c_Index c) \<le> mem_used (s_running s') (c_Index c)"
      using assms(1) by (simp_all add: extends_def)
    then have "cand_of s r [] c \<noteq> None" if "cand_of s' r [] c \<noteq> None"
      using that by (auto simp: cand_of_def room_for_def split: sum.splits if_splits)
    with Cons show ?case by (auto simp: map_filter_simps split: option.splits)
  qed (simp add: map_filter_simps)
  from this [of "s_cards s"] assms show ?thesis by (auto simp: fits_iff extends_def)
qed

definition started_id :: "Decision \<Rightarrow> string" where
  "started_id d = (case d_Placement d of Some pl \<Rightarrow> pl_JobID pl | None \<Rightarrow> [])"

definition started_ok :: "Scheduler \<Rightarrow> Decision \<Rightarrow> bool" where
  "started_ok s d \<longleftrightarrow> (\<exists>pl p. d_Placement d = Some pl \<and> d_Preempt d = [] \<and> \<not> d_Queued d \<and>
     map_of (s_running s) (pl_JobID pl) = Some p \<and> p_slots p = pl_Slots pl)"

lemma started_ok_extends: "started_ok s d \<Longrightarrow> extends s s' \<Longrightarrow> started_ok s' d"
  unfolding started_ok_def extends_def map_le_def by (metis domI)

lemma drain_loop_spec:
  assumes "sched_inv s" and "\<forall>r \<in> set q. req_ok r" and "distinct (map r_ID q)"
    and "r_ID ` set q \<inter> fst ` set (s_running s) = {}" and "drain_loop q s st rest = (s', st', rest')"
  shows "\<exists>ds rs. st' = st @ ds \<and> rest' = rest @ rs \<and> extends s s' \<and> subseq (map started_id ds) (map r_ID q) \<and>
    subseq rs q \<and> mset (map started_id ds) + mset (map r_ID rs) = mset (map r_ID q) \<and>
    (\<forall>r \<in> set rs. \<not> fits s' r []) \<and> (\<forall>d \<in> set ds. started_ok s' d)"
  using assms
proof (induction q arbitrary: s st rest)
  case (Cons r q)
  show ?case
  proof (cases "fit s r []")
    case (Inl e)
    obtain ds rs where IH: "st' = st @ ds" "rest' = (rest @ [r]) @ rs" "extends s s'" "subseq (map started_id ds) (map r_ID q)"
        "subseq rs q" "mset (map started_id ds) + mset (map r_ID rs) = mset (map r_ID q)"
        "\<forall>r \<in> set rs. \<not> fits s' r []" "\<forall>d \<in> set ds. started_ok s' d"
      using Cons.IH [of s st "rest @ [r]"] Cons.prems Inl by auto
    have "\<not> fits s' r []" using fits_extends [OF IH(3)] fits_Inl [OF Inl] by blast
    then show ?thesis using IH by (intro exI [of _ ds] exI [of _ "r # rs"]) auto
  next
    case (Inr slots)
    let ?s = "start_job r slots s"
    let ?d = "\<lparr>d_Placement = Some \<lparr>pl_JobID = r_ID r, pl_Slots = slots\<rparr>, d_Preempt = [], d_Queued = False\<rparr>"
    have inv: "sched_inv ?s" using Cons.prems Inr by (intro fit_start_inv) auto
    have "slots_ok (s_cards s) slots"
      using fit_room(1) [OF sched_invD(1,2) [OF Cons.prems(1)] _ Inr] Cons.prems(2) by (auto simp: req_ok_def dest: room_slots_ok)
    then have ext: "extends s ?s" using Cons.prems(4) by (intro extends_start) auto
    have fresh: "r_ID ` set q \<inter> fst ` set (s_running ?s) = {}"
      using Cons.prems(3,4) by (auto simp: start_job_def AList.update_conv' dom_map_of_conv_image_fst [symmetric])
    obtain ds rs where IH: "st' = (st @ [?d]) @ ds" "rest' = rest @ rs" "extends ?s s'" "subseq (map started_id ds) (map r_ID q)"
        "subseq rs q" "mset (map started_id ds) + mset (map r_ID rs) = mset (map r_ID q)"
        "\<forall>r \<in> set rs. \<not> fits s' r []" "\<forall>d \<in> set ds. started_ok s' d"
      using Cons.IH [of ?s "st @ [?d]" rest, OF inv] Cons.prems Inr fresh by auto
    have "started_ok ?s ?d" by (simp add: started_ok_def)
    then have "started_ok s' ?d" using IH(3) by (rule started_ok_extends)
    moreover have "started_id ?d = r_ID r" by (simp add: started_id_def)
    ultimately show ?thesis using IH extends_trans [OF ext IH(3)]
      by (intro exI [of _ "?d # ds"] exI [of _ rs]) auto
  qed
qed simp

lemma Release_spec:
  assumes "sched_inv s" and "distinct (map r_ID (s_queue s))"
    and "r_ID ` set (s_queue s) \<inter> fst ` set (s_running s) = {}" and "Release jid s = (s', ds)"
  shows "(\<forall>r \<in> set (s_queue s'). \<not> fits s' r []) \<and> (\<forall>d \<in> set ds. started_ok s' d) \<and>
    subseq (map started_id ds) (map r_ID (sort_queue (s_queue s))) \<and>
    mset (map started_id ds) + mset (map r_ID (s_queue s')) = mset (map r_ID (s_queue s)) \<and>
    (\<forall>k p. k \<noteq> jid \<and> map_of (s_running s) k = Some p \<longrightarrow> map_of (s_running s') k = Some p)"
proof -
  let ?q = "sort_queue (s_queue s)"
  let ?s = "s\<lparr>s_running := AList.delete jid (s_running s), s_queue := ?q\<rparr>"
  obtain s1 st rest where l: "drain_loop ?q ?s [] [] = (s1, st, rest)" by (cases "drain_loop ?q ?s [] []") auto
  have inv: "sched_inv ?s"
    using sched_inv_queue [OF sched_inv_filter [OF assms(1)], of ?q] assms(1)
    by (simp add: delete_filter sched_inv_def sort_queue_def)
  have q: "\<forall>r \<in> set ?q. req_ok r" "mset (map r_ID ?q) = mset (map r_ID (s_queue s))" "distinct (map r_ID ?q)"
    using assms(1,2) by (auto simp: sched_inv_def sort_queue_def distinct_map_sort)
  have fresh: "r_ID ` set ?q \<inter> fst ` set (s_running ?s) = {}"
    using assms(3) by (auto simp: sort_queue_def delete_filter)
  have sp: "extends ?s s1" "subseq (map started_id st) (map r_ID ?q)"
      "mset (map started_id st) + mset (map r_ID rest) = mset (map r_ID ?q)"
      "\<forall>r \<in> set rest. \<not> fits s1 r []" "\<forall>d \<in> set st. started_ok s1 d"
    using drain_loop_spec [OF inv q(1,3) fresh l] by auto
  have rel: "s' = s1\<lparr>s_queue := rest\<rparr>" "ds = st"
    using assms(4) l by (auto simp: Release_def drain_def Let_def)
  have "cand_of s' r [] = cand_of s1 r []" for r
    by (rule ext) (simp add: rel cand_of_def room_for_def split: sum.split prod.split)
  then have "fits s' r [] = fits s1 r []" for r by (simp add: rel fits_iff)
  then have "\<forall>r \<in> set rest. \<not> fits s' r []" using sp(4) by simp
  moreover have "\<forall>d \<in> set st. started_ok s' d" using sp(5) by (simp add: rel started_ok_def)
  moreover have "map_of (s_running s1) k = Some p" if "k \<noteq> jid" "map_of (s_running s) k = Some p" for k p
  proof -
    have "map_of (s_running ?s) k = Some p" using that by (simp add: AList.delete_conv')
    then show ?thesis using sp(1) unfolding extends_def map_le_def by (metis domI)
  qed
  ultimately show ?thesis using sp(2,3) q(2) by (simp add: rel)
qed

lemma subset_insert_absorb: "A \<subseteq> B \<union> C \<Longrightarrow> B = insert r D \<Longrightarrow> r \<in> C \<Longrightarrow> A \<subseteq> D \<union> C"
  by blast

lemma drain_loop_keys:
  "drain_loop q s st rest = (s', st', rest') \<Longrightarrow>
     fst ` set (s_running s') \<subseteq> fst ` set (s_running s) \<union> started_id ` set st' \<and> set st \<subseteq> set st'"
proof (induction q arbitrary: s st rest)
  case (Cons r q)
  show ?case
  proof (cases "fit s r []")
    case (Inl e)
    then show ?thesis using Cons by auto
  next
    case (Inr slots)
    let ?d = "\<lparr>d_Placement = Some \<lparr>pl_JobID = r_ID r, pl_Slots = slots\<rparr>, d_Preempt = [], d_Queued = False\<rparr>"
    have IH: "fst ` set (s_running s') \<subseteq> fst ` set (s_running (start_job r slots s)) \<union> started_id ` set st' \<and> set (st @ [?d]) \<subseteq> set st'"
      using Cons.IH [of "start_job r slots s" "st @ [?d]" rest] Cons.prems Inr by simp
    have "fst ` set (s_running (start_job r slots s)) = insert (r_ID r) (fst ` set (s_running s))"
      by (simp add: start_job_def AList.update_conv' dom_map_of_conv_image_fst [symmetric])
    moreover have "r_ID r \<in> started_id ` set st'"
      by (rule image_eqI [of _ _ ?d]) (use IH in \<open>simp_all add: started_id_def\<close>)
    ultimately have "fst ` set (s_running s') \<subseteq> fst ` set (s_running s) \<union> started_id ` set st'"
      by (rule subset_insert_absorb [OF conjunct1 [OF IH]])
    then show ?thesis using IH by simp
  qed
qed simp

lemma Release_keys:
  assumes "Release jid s = (s', ds)"
  shows "fst ` set (s_running s') \<subseteq> (fst ` set (s_running s) - {jid}) \<union> started_id ` set ds"
proof -
  let ?q = "sort_queue (s_queue s)"
  let ?s = "s\<lparr>s_running := AList.delete jid (s_running s), s_queue := ?q\<rparr>"
  obtain s1 st rest where l: "drain_loop ?q ?s [] [] = (s1, st, rest)" by (cases "drain_loop ?q ?s [] []") auto
  then have "s' = s1\<lparr>s_queue := rest\<rparr>" "ds = st" using assms by (auto simp: Release_def drain_def Let_def)
  then show ?thesis using drain_loop_keys [OF l] by (auto simp: delete_filter)
qed



subsection \<open>The waiting line\<close>

lemma filter_sort_key: "filter (\<lambda>x. f x = k) (sort_key f xs) = filter (\<lambda>x. f x = k) xs"
  by (rule sort_key_stable)

text \<open>
  A job that was pushed off and requeued is the first of its priority when the queue is next drained; the others of that
  priority follow in their order of arrival, and the other priorities are not affected.
\<close>

theorem Requeue_first_of_band:
  "filter (\<lambda>x. r_Priority x = p) (sort_queue (s_queue (Requeue r s))) =
     (if r_Priority r = p then [r\<lparr>r_Wait := True\<rparr>] else []) @ filter (\<lambda>x. r_Priority x = p) (s_queue s) \<and>
   sorted (map (\<lambda>x. - r_Priority x) (sort_queue (s_queue (Requeue r s))))"
proof -
  have "filter (\<lambda>x. - r_Priority x = - p) (sort_queue q) = filter (\<lambda>x. - r_Priority x = - p) q" for q
    unfolding sort_queue_def by (rule filter_sort_key)
  moreover have "sorted (map (\<lambda>x. - r_Priority x) (sort_queue q))" for q by (simp add: sort_queue_def)
  ultimately show ?thesis by (simp add: Requeue_def)
qed

text \<open>
  Cancelling takes the first waiting job of that id out of the queue and nothing else; it reports whether there was one.
\<close>

theorem Cancel_removes_first:
  "Cancel jid s =
     (s\<lparr>s_queue := takeWhile (\<lambda>r. r_ID r \<noteq> jid) (s_queue s) @ tl (dropWhile (\<lambda>r. r_ID r \<noteq> jid) (s_queue s))\<rparr>,
      jid \<in> r_ID ` set (s_queue s))"
proof -
  have "cancel_queue jid q = (if jid \<in> r_ID ` set q
      then Some (takeWhile (\<lambda>r. r_ID r \<noteq> jid) q @ tl (dropWhile (\<lambda>r. r_ID r \<noteq> jid) q)) else None)" for q
    by (induction q) auto
  moreover have tw: "takeWhile (\<lambda>r. r_ID r \<noteq> jid) q @ tl (dropWhile (\<lambda>r. r_ID r \<noteq> jid) q) = q" if "jid \<notin> r_ID ` set q" for q
    using that by (induction q) auto
  moreover have "s\<lparr>s_queue := takeWhile (\<lambda>r. r_ID r \<noteq> jid) (s_queue s) @ tl (dropWhile (\<lambda>r. r_ID r \<noteq> jid) (s_queue s))\<rparr> = s"
    if "jid \<notin> r_ID ` set (s_queue s)" unfolding tw [OF that] by simp
  ultimately show ?thesis by (simp add: Cancel_def)
qed

subsection \<open>Resizing\<close>

lemma keep_seats_sub: "keep_seats n keep used out = (used', out') \<Longrightarrow> set out' \<subseteq> set out \<union> set keep"
proof (induction keep arbitrary: used out)
  case (Cons i keep)
  then show ?case by (fastforce split: if_splits)
qed simp

text \<open>
  A job that shrinks only gives seats up; one that grows keeps what it had. Both are about the seats its old slot held,
  which are free once the job itself is left out of the count.
\<close>

lemma pickSeats_shrinks:
  assumes "distinct keep" and "set keep \<subseteq> free_seats (occupied s c ig)" and "n \<le> int (length keep)" and "0 \<le> n"
  shows "set (pickSeats s c n ig keep) \<subseteq> set keep"
proof -
  let ?k = "take (nat n) keep"
  have app: "keep_seats n (?k @ drop (nat n) keep) (occupied s c ig) [] = keep_seats n keep (occupied s c ig) []"
    by simp
  obtain used where k: "keep_seats n ?k (occupied s c ig) [] = (used, ?k)"
    using keep_seats_all [OF taken_start, of ?k "occupied s c ig" n] assms
    by (auto dest: in_set_takeD)
  obtain used' out' where k': "keep_seats n keep (occupied s c ig) [] = (used', out')" by fastforce
  have "keep_seats n (xs @ ys) u out = (u', out'') \<Longrightarrow> keep_seats n xs u out = (v, o1) \<Longrightarrow> int (length o1) = n \<Longrightarrow> out'' = o1"
    for xs ys u out u' out'' v o1
  proof (induction xs arbitrary: u out)
    case Nil
    then show ?case by (cases ys) auto
  next
    case (Cons i xs)
    then show ?case by (auto split: if_splits)
  qed
  from this [of ?k "drop (nat n) keep", OF _ k] k' assms(3,4) have "out' = ?k" by simp
  then show ?thesis using k' assms(3,4) by (auto simp: pickSeats_def Let_def dest: in_set_takeD)
qed

text \<open>The slots a resize returns, one by one: the old slot of the job on the same card, made bigger or smaller.\<close>

definition resized :: "Slot \<Rightarrow> Slot \<Rightarrow> bool" where
  "resized old new \<longleftrightarrow> sl_Card new = sl_Card old \<and>
     (sl_Seats old \<le> sl_Seats new \<longrightarrow> set (sl_SeatIDs old) \<subseteq> set (sl_SeatIDs new)) \<and>
     (sl_Seats new \<le> sl_Seats old \<longrightarrow> set (sl_SeatIDs new) \<subseteq> set (sl_SeatIDs old))"

definition owns :: "Scheduler \<Rightarrow> string \<Rightarrow> Slot \<Rightarrow> bool" where
  "owns s jid old \<longleftrightarrow> (\<forall>c \<in> set (s_cards s). c_Index c = sl_Card old \<longrightarrow> slot_ok c old \<and>
      set (sl_SeatIDs old) \<inter> set (held (live [jid] (s_running s)) (c_Index c)) = {})"

lemma resize_slots_resized:
  assumes inv: "sched_inv s" and ok: "req_ok r"
  shows "resize_slots s r [jid] olds acc = Inr slots \<Longrightarrow>
    \<forall>old \<in> set olds. owns s jid old \<Longrightarrow>
    \<exists>new. slots = acc @ new \<and> list_all2 resized olds new"
proof (induction olds arbitrary: acc)
  case (Cons old olds)
  from Cons.prems(1) obtain c seats m where ca: "card_at s (sl_Card old) = Some c" and n: "need r c = Inr (seats, m)"
    and rest: "resize_slots s r [jid] olds (acc @ [slot s r c seats m [jid] (sl_SeatIDs old)]) = Inr slots"
    and rm: "room_for s r [jid] c seats m"
    by (auto simp: usage_eq room_for_def split: option.splits sum.splits prod.splits if_splits)
  let ?new = "slot s r c seats m [jid] (sl_SeatIDs old)"
  have c: "c \<in> set (s_cards s)" "c_Index c = sl_Card old" using card_at_in [OF ca] by auto
  have old: "slot_ok c old" "set (sl_SeatIDs old) \<inter> set (held (live [jid] (s_running s)) (c_Index c)) = {}"
    using Cons.prems(2) c by (auto simp: owns_def)
  note fo = free_occupied [OF sched_invD(1,2) [OF inv] c(1), of "[jid]"]
  have free: "set (sl_SeatIDs old) \<subseteq> free_seats (occupied s c [jid])" "distinct (sl_SeatIDs old)"
      "int (length (sl_SeatIDs old)) = sl_Seats old"
    using old fo(1) by (auto simp: slot_ok_def)
  have enough: "seats \<le> int (card (free_seats (occupied s c [jid])))" "0 \<le> seats"
    using fo(2) rm need_range(1) [OF n] by (auto simp: room_for_def)
  have "resized old ?new"
    using pickSeats_keeps [OF free(2,1) _ enough(1)] pickSeats_shrinks [OF free(2,1) _ enough(2)] free(3) c(2)
    by (simp add: resized_def slot_def)
  moreover obtain new where "slots = (acc @ [?new]) @ new" "list_all2 resized olds new"
    using Cons.IH [OF rest] Cons.prems(2) by auto
  ultimately show ?case by (intro exI [of _ "?new # new"]) simp
qed simp

lemma own_seats:
  assumes inv: "sched_inv s" and p: "(jid, p) \<in> set (s_running s)" and old: "old \<in> set (p_slots p)"
    and c: "c \<in> set (s_cards s)" "c_Index c = sl_Card old"
  shows "slot_ok c old" and "set (sl_SeatIDs old) \<inter> set (held (live [jid] (s_running s)) (c_Index c)) = {}"
proof -
  have so: "slots_ok (s_cards s) (p_slots p)" using p book_entries [OF sched_invD(2) [OF inv]] by auto
  then obtain c' where c': "c' \<in> set (s_cards s)" "slot_ok c' old" using old by (auto simp: slots_ok_def)
  then have "c' = c" using c sched_invD(3) [OF inv] by (auto simp: slot_ok_def distinct_map dest: inj_onD)
  with c' show "slot_ok c old" by simp
  have d: "distinct (held (s_running s) (c_Index c))" "distinct (map fst (s_running s))"
    using sched_invD(2) [OF inv] c(1) by (auto simp: book_ok_def)
  show "set (sl_SeatIDs old) \<inter> set (held (live [jid] (s_running s)) (c_Index c)) = {}"
  proof (rule ccontr)
    assume "set (sl_SeatIDs old) \<inter> set (held (live [jid] (s_running s)) (c_Index c)) \<noteq> {}"
    then obtain i e where i: "i \<in> set (sl_SeatIDs old)" "e \<in> set (s_running s)" "fst e \<noteq> jid" "i \<in> set (held [e] (c_Index c))"
      by (auto simp: held_def live_def)
    have "fst e = jid"
      by (rule held_two [OF d, of "fst e" "snd e" jid p i]) (use i p old c(2) in \<open>auto simp: job_slots_def\<close>)
    with i(3) show False by simp
  qed
qed

text \<open>
  C22: a resize that succeeds keeps the job on its cards with its admission number; where it grows it keeps every seat it had,
  where it shrinks it only gives seats up; no other job, no card and no waiting job is touched. A resize that fails
  changes nothing.
\<close>

theorem Resize_in_place:
  assumes "sched_inv s" and "Resize jid f m s = (s', res)"
  shows "(case res of Inl e \<Rightarrow> s' = s
    | Inr pl \<Rightarrow> \<exists>p. map_of (s_running s) jid = Some p \<and> list_all2 resized (p_slots p) (pl_Slots pl) \<and>
        map_of (s_running s') = (map_of (s_running s))(jid \<mapsto> p\<lparr>p_req := resize_req p f m, p_slots := pl_Slots pl\<rparr>) \<and>
        s_cards s' = s_cards s \<and> s_queue s' = s_queue s)"
proof (cases res)
  case (Inl e)
  then show ?thesis using assms(2) by (auto simp: Resize_eq split: option.splits sum.splits)
next
  case (Inr pl)
  from assms(1) assms(2) [unfolded Inr] obtain p where p: "map_of (s_running s) jid = Some p"
    and ok: "req_ok (resize_req p f m)"
    and sl: "resize_slots s (resize_req p f m) [jid] (p_slots p) [] = Inr (pl_Slots pl)"
    and s': "s' = s\<lparr>s_running := AList.update jid (p\<lparr>p_req := resize_req p f m, p_slots := pl_Slots pl\<rparr>) (s_running s)\<rparr>"
    by (rule Resize_OK)
  have "\<forall>old \<in> set (p_slots p). owns s jid old"
    using own_seats [OF assms(1) map_of_SomeD [OF p]] unfolding owns_def by blast
  then have "list_all2 resized (p_slots p) (pl_Slots pl)"
    using resize_slots_resized [OF assms(1) ok sl] by simp
  then show ?thesis using Inr p s' by (simp add: AList.update_conv')
qed

lemma demo_resize:
  "Resize ''b'' (Fin (1/2)) 200 demo_full =
    (demo_full\<lparr>s_running := [demo_job ''a'' 0 [0] 1, (''b'', \<lparr>p_req = (demo_req ''b'' 0)\<lparr>r_MemMiB := 200\<rparr>,
        p_slots = [(demo_slot 0 [1])\<lparr>sl_MemMiB := 200\<rparr>], p_order = 2\<rparr>)]\<rparr>,
     Inr \<lparr>pl_JobID = ''b'', pl_Slots = [(demo_slot 0 [1])\<lparr>sl_MemMiB := 200\<rparr>]\<rparr>)"
  by (simp add: Resize_def card_at_def demo_full_def demo_eval)

theorem Resize_in_place_witness:
  "list_all2 resized [demo_slot 0 [1]] [(demo_slot 0 [1])\<lparr>sl_MemMiB := 200\<rparr>]"
  using Resize_in_place [OF demo_inv demo_resize] by (simp add: demo_full_simps demo_job_def)

end
