(* ===== verification/Scheduler_Order.thy ===== *)
theory Scheduler_Order
  imports Scheduler_Properties
begin

text \<open>
  Go hands out the entries of a map in no particular order, and \<^verbatim>\<open>usage\<close>, \<^verbatim>\<open>occupied\<close> and \<^verbatim>\<open>victims\<close> of
  \<^verbatim>\<open>scheduler.go\<close> iterate over the map \<^verbatim>\<open>running\<close>. Two states are \<open>same_jobs\<close> when they differ in that order
  only; no decision depends on it.
\<close>

definition same_jobs :: "Scheduler \<Rightarrow> Scheduler \<Rightarrow> bool" where
  "same_jobs s s' \<longleftrightarrow> s_cards s' = s_cards s \<and> s_queue s' = s_queue s \<and> s_next s' = s_next s \<and>
     mset (s_running s') = mset (s_running s)"

lemma live_mset: "mset al = mset al' \<Longrightarrow> mset (live ig al) = mset (live ig al')"
  by (simp add: live_def)

lemma usage_order:
  assumes "same_jobs s s'"
  shows "usage s' idx ig = usage s idx ig"
proof -
  have "mset (live ig (s_running s')) = mset (live ig (s_running s))"
    using assms by (intro live_mset) (simp add: same_jobs_def)
  from seats_used_mset [OF this] mem_used_mset [OF this] show ?thesis by (simp add: usage_eq)
qed

lemma held_set: "mset al = mset al' \<Longrightarrow> set (held al idx) = set (held al' idx)"
  using held_mset by (metis set_mset_mset)

lemma occupied_order:
  assumes "same_jobs s s'"
  shows "occupied s' c ig = occupied s c ig"
proof -
  have "mset (live ig (s_running s')) = mset (live ig (s_running s))"
    using assms by (intro live_mset) (simp add: same_jobs_def)
  from held_set [OF this, of "c_Index c"] show ?thesis by (intro nth_equalityI) (simp_all add: occupied_nth)
qed

lemma slot_order: "same_jobs s s' \<Longrightarrow> slot s' r c n m ig keep = slot s r c n m ig keep"
  using occupied_order [of s s' c ig] by (simp add: slot_def pickSeats_def)

lemma fit_cands_order: "same_jobs s s' \<Longrightarrow> fit_cands s' r ig cs cands e = fit_cands s r ig cs cands e"
  by (induction s r ig cs cands e rule: fit_cands.induct) (auto simp: usage_order split: sum.split prod.split)

lemma fit_order: "same_jobs s s' \<Longrightarrow> fit s' r ig = fit s r ig"
  by (auto simp: fit_def Let_def fit_cands_order slot_order same_jobs_def [THEN iffD1, THEN conjunct1] split: prod.split)

text \<open>Admission numbers are unique, so the pool of victims comes out in one order only.\<close>

lemma victim_pool_order:
  assumes "sched_inv s" and "same_jobs s s'"
  shows "victim_pool s' r = victim_pool s r"
proof -
  have "inj_on p_order (snd ` set (s_running s))"
    using assms(1) by (auto simp: sched_inv_def distinct_map inj_on_def)
  then have "inj_on (\<lambda>p. (r_Priority (p_req p), - int (p_order p))) (set (filter P (map snd (s_running s))))" for P
    by (auto simp: inj_on_def)
  moreover have "mset (filter P (map snd (s_running s))) = mset (filter P (map snd (s_running s')))" for P
    using assms(2) by (simp add: same_jobs_def)
  ultimately show ?thesis unfolding victim_pool_def by (metis (no_types, lifting) sort_key_unique)
qed

lemma prune_order: "same_jobs s s' \<Longrightarrow> prune_victims s' r ids ig nd = prune_victims s r ids ig nd"
  by (induction s r ids ig nd rule: prune_victims.induct) (auto simp: fit_order split: sum.split)

lemma try_victims_order: "same_jobs s s' \<Longrightarrow> try_victims s' r pool ig chosen = try_victims s r pool ig chosen"
  by (induction s r pool ig chosen rule: try_victims.induct)
    (auto simp: fit_order prune_order Let_def split: sum.split prod.split)

lemma victims_order: "sched_inv s \<Longrightarrow> same_jobs s s' \<Longrightarrow> victims s' r = victims s r"
  by (simp add: victims_def victim_pool_order try_victims_order)

lemma map_of_order:
  assumes "sched_inv s" and "same_jobs s s'"
  shows "map_of (s_running s') = map_of (s_running s)"
proof -
  have "distinct (map fst (s_running s))" "mset (s_running s) = mset (s_running s')"
    using sched_invD(2) [OF assms(1)] assms(2) by (auto simp: book_ok_def same_jobs_def)
  then show ?thesis by (metis distinct_keys_mset map_of_inject_set mset_eq_setD)
qed

lemma update_order:
  assumes "mset al = mset al'" and "distinct (map fst al)"
  shows "mset (AList.update k v al) = mset (AList.update k v al')"
  using assms distinct_keys_mset [OF assms] by (simp add: mset_AList_update delete_filter)

text \<open>What \<^verbatim>\<open>Admit\<close> decides, apart from what it then does to the state.\<close>

definition admit_plan :: "Request \<Rightarrow> Scheduler \<Rightarrow> sched_error + string list \<times> Slot list" where
  "admit_plan r s =
     (case validate r of
        Some e \<Rightarrow> Inl e
      | None \<Rightarrow>
          if map_of (s_running s) (r_ID r) \<noteq> None then Inl (AlreadyRunning (r_ID r))
          else if max (r_GPUs r) 1 > int (length (s_cards s))
          then Inl (NotEnoughCards (max (r_GPUs r) 1) (int (length (s_cards s))))
          else case fit s r [] of
              Inr slots \<Rightarrow> Inr ([], slots)
            | Inl e \<Rightarrow> if e = ErrNoFit then (case victims s r of Some x \<Rightarrow> Inr x | None \<Rightarrow> Inl e) else Inl e)"

lemma Admit_plan:
  "Admit r s =
     (case admit_plan r s of
        Inl e \<Rightarrow> if e = ErrNoFit \<and> r_Wait r
          then (s\<lparr>s_queue := s_queue s @ [r]\<rparr>, Inr \<lparr>d_Placement = None, d_Preempt = [], d_Queued = True\<rparr>)
          else (s, Inl e)
      | Inr (preempt, slots) \<Rightarrow>
          (start_job r slots (s\<lparr>s_running := fold AList.delete preempt (s_running s)\<rparr>),
           Inr \<lparr>d_Placement = Some \<lparr>pl_JobID = r_ID r, pl_Slots = slots\<rparr>, d_Preempt = preempt, d_Queued = False\<rparr>))"
  by (auto simp: Admit_def admit_plan_def Let_def validate_def split: option.split sum.split prod.split)

text \<open>
  C39: the decision \<^verbatim>\<open>Admit\<close> takes, and the state it leaves, are the same whatever order Go's map iteration takes the running
  jobs in.
\<close>

theorem Admit_order_independent:
  assumes "sched_inv s" and "same_jobs s s'"
  shows "snd (Admit r s') = snd (Admit r s) \<and> same_jobs (fst (Admit r s)) (fst (Admit r s'))"
proof -
  have d: "distinct (map fst (s_running s))" using sched_invD(2) [OF assms(1)] by (simp add: book_ok_def)
  have d': "distinct (map fst (s_running s'))" by (rule distinct_keys_mset [OF _ d]) (use assms(2) in \<open>simp add: same_jobs_def\<close>)
  have "fit s' r [] = fit s r []" "victims s' r = victims s r" "map_of (s_running s') = map_of (s_running s)"
      "s_cards s' = s_cards s"
    using fit_order [OF assms(2)] victims_order [OF assms] map_of_order [OF assms] assms(2) by (simp_all add: same_jobs_def)
  then have plan: "admit_plan r s' = admit_plan r s" by (simp only: admit_plan_def)
  have start: "same_jobs (start_job r sl (s\<lparr>s_running := fold AList.delete ks (s_running s)\<rparr>))
      (start_job r sl (s'\<lparr>s_running := fold AList.delete ks (s_running s')\<rparr>))" for sl ks
    using assms(2) d d' by (auto simp: same_jobs_def start_job_def fold_delete_filter distinct_keys_filter intro!: update_order)
  have queue: "same_jobs (s\<lparr>s_queue := s_queue s @ [r]\<rparr>) (s'\<lparr>s_queue := s_queue s' @ [r]\<rparr>)"
    using assms(2) by (simp add: same_jobs_def)
  show ?thesis
  proof (cases "admit_plan r s")
    case (Inl e)
    then show ?thesis using assms(2) queue plan by (simp add: Admit_plan)
  next
    case (Inr x)
    then show ?thesis using start [of "snd x" "fst x"] plan by (simp add: Admit_plan case_prod_beta)
  qed
qed

theorem Admit_order_independent_witness:
  "same_jobs demo_full (demo_full\<lparr>s_running := rev (s_running demo_full)\<rparr>) \<and>
   snd (Admit (demo_req ''c'' 1) (demo_full\<lparr>s_running := rev (s_running demo_full)\<rparr>)) = snd (Admit (demo_req ''c'' 1) demo_full)"
proof -
  have same: "same_jobs demo_full (demo_full\<lparr>s_running := rev (s_running demo_full)\<rparr>)" by (simp add: same_jobs_def)
  show ?thesis using Admit_order_independent [OF demo_inv same] same by blast
qed

end
