(* ===== verification/Scheduler_Limits.thy ===== *)
theory Scheduler_Limits
  imports Scheduler_Properties
begin

text \<open>
  Where \<^verbatim>\<open>scheduler.go\<close> does less than its comments say, stated and proved on its model: a negative amount
  of memory is accepted and inflates what is free; a card that is too small for a request keeps it from waiting for, or
  pushing jobs off, the cards that are not; and the set of victims is not always a smallest one.
\<close>

definition demo_mem :: "string \<Rightarrow> int \<Rightarrow> int \<Rightarrow> Request" where
  "demo_mem jid prio m = (demo_req jid prio)\<lparr>r_MemMiB := m\<rparr>"

text \<open>
  C14: \<^verbatim>\<open>validate\<close> does not look at the memory: a request for minus 500 MiB is admitted on a card of 1000 MiB, and \<^verbatim>\<open>Available\<close>
  then reports 1500 MiB free on it.
\<close>

theorem negative_memory_overbooks:
  "Available (fst (Admit (demo_mem ''a'' 0 (- 500)) (New [demo_card 0]))) = [\<lparr>f_Card = 0, f_Seats = 1, f_MemMiB = 1500\<rparr>]"
  by (simp add: demo_mem_def Available_def demo_eval)

subsection \<open>A card that is too small\<close>

lemma fit_cands_lastErr:
  "(\<exists>c \<in> set cs. \<not> c_Down c \<and> (\<exists>e. need r c = Inl e)) \<or> lastErr \<noteq> None \<Longrightarrow>
     \<exists>e. snd (fit_cands s r ig cs cands lastErr) = Some e \<and> (lastErr = Some e \<or> (\<exists>c. need r c = Inl e))"
proof (induction cs arbitrary: cands lastErr)
  case (Cons c cs)
  show ?case
  proof (cases "c_Down c")
    case True
    then show ?thesis using Cons by auto
  next
    case False
    show ?thesis
    proof (cases "need r c")
      case (Inl e)
      then show ?thesis using False Cons.IH [of "Some e" cands] by auto
    next
      case (Inr x)
      then show ?thesis using False Cons by (cases x) (auto split: prod.splits)
    qed
  qed
qed auto

lemma need_Inl: "need r c = Inl e \<Longrightarrow> e \<noteq> ErrNoFit"
  by (auto simp: need_def Let_def split: sum.splits if_splits)

text \<open>
  C40: while one card in service is too small for a request and no other has room at the moment, \<^verbatim>\<open>Admit\<close> refuses the request
  with an error other than \<^verbatim>\<open>ErrNoFit\<close>: it neither waits, though it asked to, nor pushes anyone off, even when a
  bigger card would fit it as soon as a job there ends.
\<close>

theorem small_card_blocks_waiting:
  assumes "validate r = None" and "map_of (s_running s) (r_ID r) = None" and "max (r_GPUs r) 1 \<le> int (length (s_cards s))"
    and "c \<in> set (s_cards s)" and "\<not> c_Down c" and "need r c = Inl e"
    and "\<forall>c \<in> set (s_cards s). \<forall>n m. \<not> c_Down c \<and> need r c = Inr (n, m) \<longrightarrow>
      c_Seats c < fst (usage s (c_Index c) []) + n \<or> c_MemMiB c < snd (usage s (c_Index c) []) + m"
  shows "\<exists>e'. Admit r s = (s, Inl e') \<and> e' \<noteq> ErrNoFit"
proof -
  have "List.map_filter (cand_of s r []) (s_cards s) = []"
    using assms(7) by (auto simp: map_filter_def filter_empty_conv cand_of_def room_for_def usage_eq split: sum.splits)
  then have f: "fst (fit_cands s r [] (s_cards s) [] None) = []" by (simp add: fit_cands_eq)
  obtain e' where e': "snd (fit_cands s r [] (s_cards s) [] None) = Some e'" "\<exists>c. need r c = Inl e'"
    using fit_cands_lastErr [of "s_cards s" r None s "[]" "[]"] assms(4-6) by auto
  have "fit s r [] = Inl e'"
    using f e'(1) by (cases "fit_cands s r [] (s_cards s) [] None") (auto simp: fit_def Let_def)
  moreover have "e' \<noteq> ErrNoFit" using e'(2) need_Inl by blast
  ultimately show ?thesis using assms(1-3) by (simp add: Admit_def Let_def)
qed

definition demo_mixed :: Scheduler where
  "demo_mixed = demo_full\<lparr>s_cards := [demo_card 0, (demo_card 1)\<lparr>c_MemMiB := 50\<rparr>]\<rparr>"

theorem small_card_blocks_waiting_witness:
  "r_Wait (demo_req ''c'' 5) \<and> (\<exists>e'. Admit (demo_req ''c'' 5) demo_mixed = (demo_mixed, Inl e') \<and> e' \<noteq> ErrNoFit)"
proof -
  have "\<exists>e'. Admit (demo_req ''c'' 5) demo_mixed = (demo_mixed, Inl e') \<and> e' \<noteq> ErrNoFit"
    by (rule small_card_blocks_waiting [where c = "(demo_card 1)\<lparr>c_MemMiB := 50\<rparr>" and e = "CardTooSmall 100 1 50"])
      (simp_all add: demo_mixed_def demo_full_def demo_eval)
  then show ?thesis by (simp add: demo_req_simps)
qed

subsection \<open>The victims are not a smallest set\<close>

definition demo_three :: Scheduler where
  "demo_three = run_ops sched_step [OpAdmit (demo_mem ''b'' 0 700), OpAdmit (demo_mem ''a'' 0 400), OpAdmit (demo_mem ''c'' 0 400)]
     (New [demo_card 0, demo_card 1])"

definition demo_mem_job :: "string \<Rightarrow> int \<Rightarrow> int \<Rightarrow> int list \<Rightarrow> nat \<Rightarrow> string \<times> placed" where
  "demo_mem_job jid m idx ids ord =
     (jid, \<lparr>p_req = demo_mem jid 0 m, p_slots = [(demo_slot idx ids)\<lparr>sl_MemMiB := m\<rparr>], p_order = ord\<rparr>)"

lemma demo_three_eq:
  "demo_three = \<lparr>s_cards = [demo_card 0, demo_card 1],
     s_running = [demo_mem_job ''b'' 700 0 [0] 1, demo_mem_job ''a'' 400 1 [0] 2, demo_mem_job ''c'' 400 1 [1] 3],
     s_queue = [], s_next = 3\<rparr>"
  by (simp add: demo_three_def demo_mem_def demo_mem_job_def demo_eval)

lemma demo_three_fit:
  "fit demo_three (demo_mem ''d'' 1 1000) [''c''] = Inl ErrNoFit"
  "fit demo_three (demo_mem ''d'' 1 1000) [''a''] = Inl ErrNoFit"
  "fit demo_three (demo_mem ''d'' 1 1000) [''a'', ''c''] = Inr [(demo_slot 1 [0])\<lparr>sl_MemMiB := 1000\<rparr>]"
  "fit demo_three (demo_mem ''d'' 1 1000) [''c'', ''a''] = Inr [(demo_slot 1 [0])\<lparr>sl_MemMiB := 1000\<rparr>]"
  "fit demo_three (demo_mem ''d'' 1 1000) [''b''] = Inr [(demo_slot 0 [0])\<lparr>sl_MemMiB := 1000\<rparr>]"
  by (simp_all add: demo_three_eq demo_mem_def demo_mem_job_def demo_eval)

text \<open>
  The comment on \<^verbatim>\<open>victims\<close> says it picks the smallest set. It picks a set none of whose jobs can be spared: with one big job on one card
  and two small newer ones on another, all of one priority, it pushes off the two where the one would do.
\<close>

theorem victims_not_smallest:
  "map_option fst (victims demo_three (demo_mem ''d'' 1 1000)) = Some [''c'', ''a''] \<and>
   fits demo_three (demo_mem ''d'' 1 1000) [''b''] \<and> ''b'' \<in> eligible demo_three (demo_mem ''d'' 1 1000)"
proof -
  have pool: "victim_pool demo_three (demo_mem ''d'' 1 1000) =
      map snd [demo_mem_job ''c'' 400 1 [1] 3, demo_mem_job ''a'' 400 1 [0] 2, demo_mem_job ''b'' 700 0 [0] 1]"
    by (simp add: victim_pool_def demo_three_eq demo_mem_job_def demo_mem_def demo_req_def)
  have "victims demo_three (demo_mem ''d'' 1 1000) = Some ([''c'', ''a''], [(demo_slot 1 [0])\<lparr>sl_MemMiB := 1000\<rparr>])"
    unfolding victims_def pool
    by (simp add: demo_mem_job_def demo_three_fit) (simp add: demo_mem_def demo_req_simps demo_three_fit [unfolded demo_mem_def])
  moreover have "''b'' \<in> eligible demo_three (demo_mem ''d'' 1 1000)"
    by (simp add: eligible_def demo_three_eq demo_mem_job_def demo_mem_def demo_req_def)
  ultimately show ?thesis using demo_three_fit by (simp add: fits_def)
qed

end
