(* ===== verification/Scheduler_Liveness.thy ===== *)
theory Scheduler_Liveness
  imports Scheduler_Queue
begin

text \<open>
  Waiting ends: as running jobs end, one release after the other, every waiting job that fits an idle machine gets its turn. Each release of a running job takes one job
  out of the books, running or waiting, so their number bounds how long that can take.
\<close>

subsection \<open>One release\<close>

definition queue_once :: "Scheduler \<Rightarrow> bool" where
  "queue_once s \<longleftrightarrow> distinct (map r_ID (s_queue s)) \<and> r_ID ` set (s_queue s) \<inter> fst ` set (s_running s) = {}"

lemma drain_loop_count:
  "distinct (map r_ID q) \<Longrightarrow> r_ID ` set q \<inter> fst ` set (s_running s) = {} \<Longrightarrow> drain_loop q s st rest = (s', st', rest') \<Longrightarrow>
    length (s_running s') + length rest' = length (s_running s) + length q + length rest"
proof (induction q arbitrary: s st rest)
  case (Cons r q)
  show ?case
  proof (cases "fit s r []")
    case (Inl e)
    then show ?thesis using Cons.IH [of s st "rest @ [r]"] Cons.prems by auto
  next
    case (Inr slots)
    have u: "s_running (start_job r slots s) = s_running s @ [(r_ID r, \<lparr>p_req = r, p_slots = slots, p_order = s_next s + 1\<rparr>)]"
      using Cons.prems(2) by (simp add: start_job_def update_new)
    then have "r_ID ` set q \<inter> fst ` set (s_running (start_job r slots s)) = {}" using Cons.prems(1,2) by auto
    then show ?thesis
      using Cons.IH [of "start_job r slots s" "st @ [\<lparr>d_Placement = Some \<lparr>pl_JobID = r_ID r, pl_Slots = slots\<rparr>, d_Preempt = [], d_Queued = False\<rparr>]" rest]
        Cons.prems(1,3) Inr u by simp
  qed
qed simp

lemma set_subseq: "subseq xs ys \<Longrightarrow> set xs \<subseteq> set ys"
  by (induction rule: list_emb.induct) auto

lemma delete_length: "distinct (map fst al) \<Longrightarrow> k \<in> fst ` set al \<Longrightarrow> Suc (length (AList.delete k al)) = length al"
proof (induction al)
  case (Cons x al)
  show ?case
  proof (cases "fst x = k")
    case True
    then have "k \<notin> fst ` set al" using Cons.prems(1) by simp
    then have "AList.delete k al = al" by simp
    then show ?thesis using True by (cases x) (simp add: delete_filter)
  next
    case False
    then show ?thesis using Cons by (cases x) (auto simp: delete_filter)
  qed
qed simp

lemma Release_count:
  assumes "sched_inv s" and "queue_once s" and "jid \<in> fst ` set (s_running s)" and "Release jid s = (s', ds)"
  shows "Suc (length (s_running s') + length (s_queue s')) = length (s_running s) + length (s_queue s)" and "s_cards s' = s_cards s"
    and "set (s_queue s') \<subseteq> set (s_queue s)"
proof -
  let ?q = "sort_queue (s_queue s)"
  let ?s = "s\<lparr>s_running := AList.delete jid (s_running s), s_queue := ?q\<rparr>"
  obtain s1 st rest where l: "drain_loop ?q ?s [] [] = (s1, st, rest)" by (cases "drain_loop ?q ?s [] []") auto
  have rel: "s' = s1\<lparr>s_queue := rest\<rparr>" using assms(4) l by (auto simp: Release_def drain_def Let_def)
  have q: "distinct (map r_ID ?q)" "r_ID ` set ?q \<inter> fst ` set (s_running ?s) = {}"
    using assms(2) by (auto simp: queue_once_def sort_queue_def distinct_map_sort delete_filter)
  have "distinct (map fst (s_running s))" using sched_invD(2) [OF assms(1)] by (simp add: book_ok_def)
  then show "Suc (length (s_running s') + length (s_queue s')) = length (s_running s) + length (s_queue s)"
    using drain_loop_count [OF q l] delete_length [OF _ assms(3)] by (simp add: rel sort_queue_def)
  have inv: "sched_inv ?s"
    using sched_inv_queue [OF sched_inv_filter [OF assms(1)], of ?q] assms(1) by (simp add: delete_filter sched_inv_def sort_queue_def)
  have ok: "\<forall>r \<in> set ?q. req_ok r" using assms(1) by (simp add: sched_inv_def sort_queue_def)
  have sp: "extends ?s s1" "subseq rest ?q" using drain_loop_spec [OF inv ok q l] by auto
  show "s_cards s' = s_cards s" using sp(1) by (simp add: rel extends_def)
  show "set (s_queue s') \<subseteq> set (s_queue s)" using set_subseq [OF sp(2)] by (simp add: rel sort_queue_def)
qed

lemma Release_keeps_once:
  assumes "sched_inv s" and "queue_once s" and "Release jid s = (s', ds)"
  shows "queue_once s'"
proof -
  have m: "mset (map started_id ds @ map r_ID (s_queue s')) = mset (map r_ID (s_queue s))"
    using Release_spec [OF assms(1) _ _ assms(3)] assms(2) by (simp add: queue_once_def)
  have "distinct (map r_ID (s_queue s))" using assms(2) by (simp add: queue_once_def)
  then have d: "distinct (map started_id ds @ map r_ID (s_queue s'))" using mset_eq_imp_distinct_iff [OF m] by simp
  have "r_ID ` set (s_queue s') \<subseteq> r_ID ` set (s_queue s)" using mset_eq_setD [OF m] by auto
  moreover have "started_id ` set ds \<inter> r_ID ` set (s_queue s') = {}" "distinct (map r_ID (s_queue s'))" using d by auto
  moreover have "r_ID ` set (s_queue s) \<inter> fst ` set (s_running s) = {}" using assms(2) by (simp add: queue_once_def)
  ultimately show ?thesis using disjoint_split [OF Release_keys [OF assms(3)]] unfolding queue_once_def by simp
qed

lemma Release_starts_or_keeps:
  assumes "sched_inv s" and "queue_once s" and "jid \<in> fst ` set (s_running s)" and "Release jid s = (s', ds)" and "r \<in> set (s_queue s)"
  shows "r \<in> set (s_queue s') \<or> r_ID r \<in> fst ` set (s_running s')"
proof -
  have m: "mset (map started_id ds @ map r_ID (s_queue s')) = mset (map r_ID (s_queue s))" and st: "\<forall>d \<in> set ds. started_ok s' d"
    using Release_spec [OF assms(1) _ _ assms(4)] assms(2) by (simp_all add: queue_once_def)
  have "r_ID r \<in> set (map started_id ds @ map r_ID (s_queue s'))" using mset_eq_setD [OF m] assms(5) by auto
  then consider d where "d \<in> set ds" "started_id d = r_ID r" | r' where "r' \<in> set (s_queue s')" "r_ID r' = r_ID r" by auto
  then show ?thesis
  proof cases
    case (1 d)
    then show ?thesis using st by (fastforce simp: started_ok_def started_id_def dest: map_of_SomeD intro: rev_image_eqI)
  next
    case (2 r')
    then have "r' \<in> set (s_queue s)" using Release_count(3) [OF assms(1-4)] by blast
    then have "r' = r" using 2(2) assms(2,5) by (auto simp: queue_once_def distinct_map inj_on_def)
    then show ?thesis using 2(1) by simp
  qed
qed

subsection \<open>Jobs ending one after the other\<close>

text \<open>Only running jobs end.\<close>

definition ends :: "sched_op \<Rightarrow> Scheduler \<Rightarrow> bool" where
  "ends p s \<longleftrightarrow> (\<exists>jid. p = OpRelease jid \<and> jid \<in> fst ` set (s_running s))"

lemma fits_idle:
  assumes "s_cards s' = s_cards s" and "s_running s' = []"
  shows "fits s' r [] = fits (s\<lparr>s_running := []\<rparr>) r []"
proof -
  have "cand_of s' r [] = cand_of (s\<lparr>s_running := []\<rparr>) r []" by (rule ext) (simp add: assms(2) cand_of_def room_for_def split: sum.split prod.split)
  then show ?thesis by (simp add: fits_iff assms(1))
qed

lemma ends_step:
  assumes "sched_inv s" and "queue_once s" and "ends p s"
  obtains jid s1 ds where "p = OpRelease jid" "jid \<in> fst ` set (s_running s)" "Release jid s = (s1, ds)" "sched_step p s = s1" "sched_inv s1" "queue_once s1"
proof -
  obtain jid where p: "p = OpRelease jid" "jid \<in> fst ` set (s_running s)" using assms(3) by (auto simp: ends_def)
  obtain s1 ds where r: "Release jid s = (s1, ds)" by fastforce
  have "sched_inv s1" using Release_inv [OF assms(1), of jid] r by simp
  then show thesis using that p r Release_keeps_once [OF assms(1,2) r] by simp
qed

lemma ends_count:
  "sched_inv s \<Longrightarrow> queue_once s \<Longrightarrow> guarded_ops sched_step ends ops s \<Longrightarrow>
    length ops + length (s_running (run_ops sched_step ops s)) + length (s_queue (run_ops sched_step ops s)) = length (s_running s) + length (s_queue s) \<and>
    s_cards (run_ops sched_step ops s) = s_cards s \<and>
    (ops \<noteq> [] \<longrightarrow> (\<forall>r \<in> set (s_queue (run_ops sched_step ops s)). \<not> fits (run_ops sched_step ops s) r []))"
proof (induction ops arbitrary: s)
  case (Cons p ops)
  have "ends p s" using Cons.prems(3) by simp
  from ends_step [OF Cons.prems(1,2) this] obtain jid s1 ds where
    s1: "p = OpRelease jid" "jid \<in> fst ` set (s_running s)" "Release jid s = (s1, ds)" "sched_step p s = s1" "sched_inv s1" "queue_once s1" .
  have "\<forall>r \<in> set (s_queue s1). \<not> fits s1 r []" using Release_spec [OF Cons.prems(1) _ _ s1(3)] Cons.prems(2) by (simp add: queue_once_def)
  then show ?case
    using Cons.IH [OF s1(5,6)] Cons.prems(3) Release_count(1,2) [OF Cons.prems(1,2) s1(2,3)] s1(4) by (cases ops) auto
qed simp

lemma ends_turn:
  "sched_inv s \<Longrightarrow> queue_once s \<Longrightarrow> guarded_ops sched_step ends ops s \<Longrightarrow> r \<in> set (s_queue s) \<Longrightarrow>
    r \<in> set (s_queue (run_ops sched_step ops s)) \<or> (\<exists>k \<le> length ops. r_ID r \<in> fst ` set (s_running (run_ops sched_step (take k ops) s)))"
proof (induction ops arbitrary: s)
  case (Cons p ops)
  have "ends p s" using Cons.prems(3) by simp
  from ends_step [OF Cons.prems(1,2) this] obtain jid s1 ds where
    s1: "p = OpRelease jid" "jid \<in> fst ` set (s_running s)" "Release jid s = (s1, ds)" "sched_step p s = s1" "sched_inv s1" "queue_once s1" .
  consider "r \<in> set (s_queue s1)" | "r_ID r \<in> fst ` set (s_running s1)" using Release_starts_or_keeps [OF Cons.prems(1,2) s1(2,3) Cons.prems(4)] by blast
  then show ?case
  proof cases
    case 1
    have "guarded_ops sched_step ends ops s1" using Cons.prems(3) s1(4) by simp
    from Cons.IH [OF s1(5,6) this 1] show ?thesis
    proof
      assume "\<exists>k \<le> length ops. r_ID r \<in> fst ` set (s_running (run_ops sched_step (take k ops) s1))"
      then obtain k where "k \<le> length ops" "r_ID r \<in> fst ` set (s_running (run_ops sched_step (take k ops) s1))" by blast
      then show ?thesis using s1(4) by (intro disjI2 exI [of _ "Suc k"]) simp
    qed (simp add: s1(4))
  next
    case 2
    then show ?thesis using s1(4) by (intro disjI2 exI [of _ 1]) simp
  qed
qed simp

text \<open>
  C7: let running jobs end, one after the other and in any order, with nothing new coming in. Every end takes exactly one job out of the running and the waiting, so there are at most as many
  ends as there were jobs; and once nothing runs any more, every job that was waiting and fits an idle machine has run: none of them is passed over for ever.
\<close>

theorem waiting_jobs_get_their_turn:
  assumes "sched_inv s" and "queue_once s" and "guarded_ops sched_step ends ops s"
  shows "length ops + length (s_running (run_ops sched_step ops s)) + length (s_queue (run_ops sched_step ops s)) = length (s_running s) + length (s_queue s) \<and>
    (ops \<noteq> [] \<and> s_running (run_ops sched_step ops s) = [] \<longrightarrow>
      (\<forall>r \<in> set (s_queue s). fits (s\<lparr>s_running := []\<rparr>) r [] \<longrightarrow>
        (\<exists>k \<le> length ops. r_ID r \<in> fst ` set (s_running (run_ops sched_step (take k ops) s)))))"
  using ends_count [OF assms] ends_turn [OF assms] fits_idle [of "run_ops sched_step ops s" s] by blast

theorem waiting_jobs_get_their_turn_witness:
  "length [OpRelease ''a''] + length (s_running (run_ops sched_step [OpRelease ''a''] (demo_full\<lparr>s_queue := [demo_req ''c'' 0]\<rparr>))) +
    length (s_queue (run_ops sched_step [OpRelease ''a''] (demo_full\<lparr>s_queue := [demo_req ''c'' 0]\<rparr>))) = 3"
proof -
  let ?s = "demo_full\<lparr>s_queue := [demo_req ''c'' 0]\<rparr>"
  have inv: "sched_inv ?s" using Admit_inv [OF demo_inv, of "demo_req ''c'' 0"] by (simp add: demo_wait demo_req_simps)
  have k: "fst ` set (s_running demo_full) = {''a'', ''b''}" "length (s_running demo_full) = 2" by (auto simp: demo_full_simps demo_job_def)
  have g: "queue_once ?s" "guarded_ops sched_step ends [OpRelease ''a''] ?s" using k(1) by (simp_all add: queue_once_def ends_def demo_req_simps)
  show ?thesis using waiting_jobs_get_their_turn [OF inv g] k(2) by (simp only: length_Cons list.size Scheduler.select_convs Scheduler.surjective Scheduler.update_convs) (simp add: demo_full_def)
qed

end
