(* ===== verification/Fence_Filter.thy ===== *)
theory Fence_Filter
  imports Go_Strings "HOL-Library.Word"
begin

text \<open>
  The seccomp programs of \<^verbatim>\<open>internal/fence/supervisor_linux.go\<close> and the machine that runs them. Instructions and data are
  32 bit words, jump offsets bytes. \<open>bpf_run\<close> is the part of the kernel's classic BPF interpreter the programs use: load a
  word of the \<^verbatim>\<open>seccomp_data\<close>, jump on equality, return; anything else, a load out of range, or running off the end
  is \<open>None\<close> (the kernel refuses to install such a program). Jumps only go forward, so the state of the machine is what is
  left of the program and the accumulator.
\<close>

subsection \<open>Constants\<close>

type_synonym u32 = "32 word"

definition auditArchX86_64 :: u32 where "auditArchX86_64 = 0xC000003E"
definition auditArchAArch64 :: u32 where "auditArchAArch64 = 0xC00000B7"
definition retKillProcess :: u32 where "retKillProcess = 0x80000000"
definition retErrno :: u32 where "retErrno = 0x00050000"
definition retAllow :: u32 where "retAllow = 0x7FFF0000"
definition retUserNotif :: u32 where "retUserNotif = 0x7FC00000"
definition afInet :: u32 where "afInet = 2"
definition afInet6 :: u32 where "afInet6 = 10"
definition afPacket :: u32 where "afPacket = 17"
definition eperm :: u32 where "eperm = 1"
definition handoffFD :: u32 where "handoffFD = 1023"

record sysnums =
  sn_socket :: u32
  sn_connect :: u32
  sn_sendto :: u32
  sn_sendmsg :: u32
  sn_sendmmsg :: u32
  sn_closeS :: u32
  sn_dup :: u32
  sn_dup2 :: u32
  sn_dup3 :: u32
  sn_fcntl :: u32

text \<open>\<^verbatim>\<open>arch()\<close>, of the architecture the program was built for.\<close>

definition arch :: "string \<Rightarrow> (u32 \<times> sysnums) option" where
  "arch goarch =
     (if goarch = ''amd64'' then
        Some (auditArchX86_64,
          \<lparr>sn_socket = 41, sn_connect = 42, sn_sendto = 44, sn_sendmsg = 46, sn_sendmmsg = 307, sn_closeS = 3,
           sn_dup = 32, sn_dup2 = 33, sn_dup3 = 292, sn_fcntl = 72\<rparr>)
      else if goarch = ''arm64'' then
        Some (auditArchAArch64,
          \<lparr>sn_socket = 198, sn_connect = 203, sn_sendto = 206, sn_sendmsg = 211, sn_sendmmsg = 269, sn_closeS = 57,
           sn_dup = 23, sn_dup2 = 0xFFFFFFFF, sn_dup3 = 24, sn_fcntl = 25\<rparr>)
      else None)"

subsection \<open>Instructions and the machine\<close>

record sockFilter =
  i_code :: "16 word"
  i_jt :: "8 word"
  i_jf :: "8 word"
  i_k :: u32

definition insn :: "16 word \<Rightarrow> 8 word \<Rightarrow> 8 word \<Rightarrow> u32 \<Rightarrow> sockFilter" where
  "insn code jt jf k = \<lparr>i_code = code, i_jt = jt, i_jf = jf, i_k = k\<rparr>"

text \<open>The three instruction codes: \<^verbatim>\<open>bpfLD|bpfW|bpfABS\<close>, \<^verbatim>\<open>bpfJMP|bpfJEQ|bpfK\<close>, \<^verbatim>\<open>bpfRET|bpfK\<close>.\<close>

definition ldAbs :: "16 word" where "ldAbs = 0x20"
definition jmpEq :: "16 word" where "jmpEq = 0x15"
definition retK :: "16 word" where "retK = 0x06"

definition offNR :: u32 where "offNR = 0"
definition offArch :: u32 where "offArch = 4"
definition offArg0 :: u32 where "offArg0 = 16"

text \<open>What a filter sees of a system call: \<^verbatim>\<open>struct seccomp_data\<close>, as far as the programs read it.\<close>

record seccomp_data =
  sd_nr :: u32
  sd_arch :: u32
  sd_args :: "64 word list"

definition load_word :: "seccomp_data \<Rightarrow> u32 \<Rightarrow> u32 option" where
  "load_word d k =
     (if k = offNR then Some (sd_nr d)
      else if k = offArch then Some (sd_arch d)
      else if k = offArg0 then (case sd_args d of a # _ \<Rightarrow> Some (ucast a) | [] \<Rightarrow> None)
      else None)"

fun bpf_exec :: "sockFilter list \<Rightarrow> seccomp_data \<Rightarrow> u32 \<Rightarrow> u32 option" where
  "bpf_exec [] d A = None"
| "bpf_exec (i # rest) d A =
     (if i_code i = ldAbs then
        (case load_word d (i_k i) of None \<Rightarrow> None | Some v \<Rightarrow> bpf_exec rest d v)
      else if i_code i = jmpEq then
        bpf_exec (drop (if A = i_k i then unat (i_jt i) else unat (i_jf i)) rest) d A
      else if i_code i = retK then Some (i_k i)
      else None)"

definition bpf_run :: "sockFilter list \<Rightarrow> seccomp_data \<Rightarrow> u32 option" where
  "bpf_run prog d = bpf_exec prog d 0"

subsection \<open>The programs\<close>

definition denyProgram :: "u32 \<Rightarrow> sysnums \<Rightarrow> sockFilter list" where
  "denyProgram a s =
     [insn ldAbs 0 0 offArch,
      insn jmpEq 1 0 a,
      insn retK 0 0 retKillProcess,
      insn ldAbs 0 0 offNR,
      insn jmpEq 0 5 (sn_socket s),
      insn ldAbs 0 0 offArg0,
      insn jmpEq 2 0 afInet,
      insn jmpEq 1 0 afInet6,
      insn jmpEq 0 1 afPacket,
      insn retK 0 0 (or retErrno eperm),
      insn retK 0 0 retAllow]"

definition here :: "int \<Rightarrow> int \<Rightarrow> 8 word" where
  "here i target = word_of_int (target - (i + 1))"

definition notifyIf :: "int \<Rightarrow> u32 \<Rightarrow> sockFilter" where
  "notifyIf i k = insn jmpEq (here i 21) 0 k"

definition allowlistProgram :: "u32 \<Rightarrow> sysnums \<Rightarrow> sockFilter list" where
  "allowlistProgram a s =
     [insn ldAbs 0 0 offArch,
      insn jmpEq 1 0 a,
      insn retK 0 0 retKillProcess,
      insn ldAbs 0 0 offNR,
      notifyIf 4 (sn_connect s),
      notifyIf 5 (sn_sendto s),
      insn jmpEq 0 3 (sn_sendmsg s),
      insn ldAbs 0 0 offArg0,
      insn jmpEq (here 8 23) 0 handoffFD,
      insn retK 0 0 retUserNotif,
      notifyIf 10 (sn_sendmmsg s),
      notifyIf 11 (sn_closeS s),
      notifyIf 12 (sn_dup s),
      notifyIf 13 (sn_dup2 s),
      notifyIf 14 (sn_dup3 s),
      notifyIf 15 (sn_fcntl s),
      insn jmpEq 0 (here 16 23) (sn_socket s),
      insn ldAbs 0 0 offArg0,
      insn jmpEq (here 18 22) 0 afPacket,
      notifyIf 19 afInet,
      insn jmpEq (here 20 21) (here 20 23) afInet6,
      insn retK 0 0 retUserNotif,
      insn retK 0 0 (or retErrno eperm),
      insn retK 0 0 retAllow]"

subsection \<open>What they decide\<close>

datatype verdict = Kill | Eperm | Notify | Allow

definition verdict_word :: "verdict \<Rightarrow> u32" where
  "verdict_word v = (case v of Kill \<Rightarrow> 0x80000000 | Eperm \<Rightarrow> 0x00050001 | Notify \<Rightarrow> 0x7FC00000 | Allow \<Rightarrow> 0x7FFF0000)"

definition deny_spec :: "u32 \<Rightarrow> sysnums \<Rightarrow> u32 \<Rightarrow> u32 \<Rightarrow> u32 \<Rightarrow> verdict" where
  "deny_spec a s arc nr arg =
     (if arc \<noteq> a then Kill
      else if nr = sn_socket s \<and> arg \<in> {afInet, afInet6, afPacket} then Eperm
      else Allow)"

definition allow_spec :: "u32 \<Rightarrow> sysnums \<Rightarrow> u32 \<Rightarrow> u32 \<Rightarrow> u32 \<Rightarrow> verdict" where
  "allow_spec a s arc nr arg =
     (if arc \<noteq> a then Kill
      else if nr \<in> {sn_connect s, sn_sendto s} then Notify
      else if nr = sn_sendmsg s then (if arg = handoffFD then Allow else Notify)
      else if nr \<in> {sn_sendmmsg s, sn_closeS s, sn_dup s, sn_dup2 s, sn_dup3 s, sn_fcntl s} then Notify
      else if nr = sn_socket s then (if arg = afPacket then Eperm else if arg \<in> {afInet, afInet6} then Notify else Allow)
      else Allow)"

lemmas filter_consts = retKillProcess_def retErrno_def retAllow_def retUserNotif_def afInet_def afInet6_def
  afPacket_def eperm_def handoffFD_def ldAbs_def jmpEq_def retK_def offNR_def offArch_def offArg0_def

lemma bpf_steps:
  "bpf_exec (insn ldAbs jt jf k # rest) d A = (case load_word d k of None \<Rightarrow> None | Some v \<Rightarrow> bpf_exec rest d v)"
  "bpf_exec (insn jmpEq jt jf k # rest) d A =
     (if A = k then bpf_exec (drop (unat jt) rest) d A else bpf_exec (drop (unat jf) rest) d A)"
  "bpf_exec (insn retK jt jf k # rest) d A = Some k"
  by (simp_all add: insn_def ldAbs_def jmpEq_def retK_def split: option.split)

lemma load_words:
  "load_word d offArch = Some (sd_arch d)" "load_word d offNR = Some (sd_nr d)"
  "sd_args d = arg # args \<Longrightarrow> load_word d offArg0 = Some (ucast arg)"
  by (simp_all add: load_word_def offArch_def offNR_def offArg0_def)

lemma verdict_words:
  "verdict_word Kill = retKillProcess" "verdict_word Eperm = or retErrno eperm" "verdict_word Notify = retUserNotif"
  "verdict_word Allow = retAllow"
  by (simp_all add: verdict_word_def filter_consts)

lemma jumps:
  "unat (here 4 21) = 16" "unat (here 5 21) = 15" "unat (here 8 23) = 14" "unat (here 10 21) = 10" "unat (here 11 21) = 9"
  "unat (here 12 21) = 8" "unat (here 13 21) = 7" "unat (here 14 21) = 6" "unat (here 15 21) = 5" "unat (here 16 23) = 6"
  "unat (here 18 22) = 3" "unat (here 19 21) = 1" "unat (here 20 21) = 0" "unat (here 20 23) = 2"
  by (simp_all add: here_def)

lemmas bpf_eval = verdict_words jumps bpf_run_def denyProgram_def allowlistProgram_def notifyIf_def bpf_steps load_words

lemma bpf_deny:
  "bpf_run (denyProgram a s) \<lparr>sd_nr = nr, sd_arch = arc, sd_args = arg # args\<rparr> =
     Some (verdict_word (deny_spec a s arc nr (ucast arg)))"
  by (simp add: bpf_eval deny_spec_def del: bpf_exec.simps(2))

lemma bpf_allowlist:
  "bpf_run (allowlistProgram a s) \<lparr>sd_nr = nr, sd_arch = arc, sd_args = arg # args\<rparr> =
     Some (verdict_word (allow_spec a s arc nr (ucast arg)))"
  by (simp add: bpf_eval allow_spec_def del: bpf_exec.simps(2))

text \<open>
  The deny filter kills a process of another architecture, refuses exactly the sockets of the INET, INET6 and PACKET families
  with EPERM, and allows everything else, whatever the other arguments of the call are.
\<close>

theorem deny_filter_exact:
  "bpf_run (denyProgram a s) \<lparr>sd_nr = nr, sd_arch = arc, sd_args = arg # args\<rparr> =
     Some (verdict_word (deny_spec a s arc nr (ucast arg)))"
  by (rule bpf_deny)


text \<open>
  On amd64 the kernel reports a call made through its x32 interface with the same architecture word and bit 30 of the number set.
  Both filters allow such a call: an INET socket and a connect made that way are not seen by the fence.
\<close>

theorem x32_calls_pass_the_filters:
  "case arch ''amd64'' of
     Some (a, s) \<Rightarrow>
       bpf_run (denyProgram a s) \<lparr>sd_nr = or 0x40000000 (sn_socket s), sd_arch = a, sd_args = ucast afInet # args\<rparr> = Some (verdict_word Allow) \<and>
       bpf_run (allowlistProgram a s) \<lparr>sd_nr = or 0x40000000 (sn_socket s), sd_arch = a, sd_args = ucast afInet # args\<rparr> = Some (verdict_word Allow) \<and>
       bpf_run (allowlistProgram a s) \<lparr>sd_nr = or 0x40000000 (sn_connect s), sd_arch = a, sd_args = arg # args\<rparr> = Some (verdict_word Allow)
   | None \<Rightarrow> False"
  by (simp add: arch_def bpf_deny bpf_allowlist deny_spec_def allow_spec_def filter_consts)

end
