(* ===== verification/Fence_Supervisor.thy ===== *)
theory Fence_Supervisor
  imports Fence_Filter Gmux_Prelude
begin

text \<open>
  The supervisor of \<^verbatim>\<open>internal/fence/supervisor_linux.go\<close>: its state, the handler of every notification, and the world
  around it. A handler is a function of the request, of the answers the kernel gives to the system calls it makes
  (\<open>kernel\<close>, one field per call site), and of the state; it returns the state and the calls it made, each with its
  result, in order (\<open>act\<close>). Trace output is left out. The second half puts the job beside it: \<open>world_step\<close> takes one
  system call of the job through the seccomp program, the supervisor, and the kernel.
\<close>

subsection \<open>State, requests, actions\<close>

type_synonym sockaddr = "string \<times> int"

record entry =
  e_kind :: int
  e_fd :: int

record Supervisor =
  sv_proxy :: sockaddr
  sv_dns :: sockaddr
  sv_sn :: sysnums
  sv_table :: "(u32, entry) gomap"
  sv_Injected :: int
  sv_Refused :: int

text \<open>What the handlers read of \<^verbatim>\<open>notifReq\<close>: the id, the call number, and its first two arguments.\<close>

record notifReq =
  rq_id :: "64 word"
  rq_nr :: u32
  rq_arg0 :: "64 word"
  rq_arg1 :: "64 word"

definition econnrefused :: int where "econnrefused = 111"
definition notifFlagContinue :: int where "notifFlagContinue = 1"
definition sockTypeMask :: "64 word" where "sockTypeMask = 0xF"
definition sockCloexec :: "64 word" where "sockCloexec = 0x80000"
definition fDupFD :: "64 word" where "fDupFD = 0"
definition fDupFDCloexec :: "64 word" where "fDupFDCloexec = 1030"
definition SOCK_STREAM :: int where "SOCK_STREAM = 1"
definition SOCK_DGRAM :: int where "SOCK_DGRAM = 2"

text \<open>The calls a handler makes, with their results: \<open>Respond id errno val flags\<close> is the answer to the notification.\<close>

datatype act =
    SysSocket int "int option"
  | SysConnect int sockaddr bool
  | SysDup int "int option"
  | SysClose int
  | NotifValid "64 word" bool
  | AddFD "64 word" int "u32 option" bool "int option"
  | Respond "64 word" int int int

text \<open>The kernel's answers to one notification: each call site of the handlers has its field.\<close>

record kernel =
  k_socket :: "int option"
  k_connect :: bool
  k_valid :: bool
  k_addfd :: "int option"
  k_dup1 :: "int option"
  k_dup2 :: "int option"

subsection \<open>The handlers\<close>

definition NewSupervisor :: "string \<Rightarrow> sockaddr option \<Rightarrow> sockaddr option \<Rightarrow> Supervisor option" where
  "NewSupervisor goarch pa da =
     (case arch goarch of None \<Rightarrow> None
      | Some (_, sn) \<Rightarrow>
          (case pa of None \<Rightarrow> None
           | Some p \<Rightarrow> (case da of None \<Rightarrow> None
              | Some d \<Rightarrow> Some \<lparr>sv_proxy = p, sv_dns = d, sv_sn = sn, sv_table = [], sv_Injected = 0, sv_Refused = 0\<rparr>)))"

definition cont :: "notifReq \<Rightarrow> act list" where
  "cont req = [Respond (rq_id req) 0 0 notifFlagContinue]"

definition deny :: "notifReq \<Rightarrow> act list \<Rightarrow> Supervisor \<Rightarrow> Supervisor \<times> act list" where
  "deny req acts s = (s\<lparr>sv_Refused := sv_Refused s + 1\<rparr>, acts @ [Respond (rq_id req) (- uint eperm) 0 0])"

text \<open>\<^verbatim>\<open>addfd\<close>: a target below zero asks for any free descriptor.\<close>

definition addfd :: "kernel \<Rightarrow> notifReq \<Rightarrow> int \<Rightarrow> int \<Rightarrow> bool \<Rightarrow> act" where
  "addfd k req srcfd newfd cloexec =
     AddFD (rq_id req) srcfd (if newfd \<ge> 0 then Some (word_of_int newfd) else None) cloexec (k_addfd k)"

definition onSocket :: "kernel \<Rightarrow> notifReq \<Rightarrow> Supervisor \<Rightarrow> Supervisor \<times> act list" where
  "onSocket k req s =
     (let kind = uint (and (rq_arg1 req) sockTypeMask)
      in if rq_arg0 req \<noteq> ucast afInet \<and> rq_arg0 req \<noteq> ucast afInet6 then deny req [] s
         else if kind \<noteq> SOCK_STREAM \<and> kind \<noteq> SOCK_DGRAM then deny req [] s
         else case k_socket k of
             None \<Rightarrow> deny req [SysSocket kind None] s
           | Some sock \<Rightarrow>
               let acts = [SysSocket kind (Some sock), NotifValid (rq_id req) (k_valid k)]
               in if \<not> k_valid k then (s, acts @ [SysClose sock])
                  else let acts' = acts @ [addfd k req sock (- 1) (and (rq_arg1 req) sockCloexec \<noteq> 0), SysClose sock]
                       in case k_addfd k of
                           None \<Rightarrow> deny req acts' s
                         | Some fd \<Rightarrow>
                             (s\<lparr>sv_table := AList.update (word_of_int fd) \<lparr>e_kind = kind, e_fd = - 1\<rparr> (sv_table s)\<rparr>,
                              acts' @ [Respond (rq_id req) 0 fd 0]))"

text \<open>\<^verbatim>\<open>dial\<close>: a socket of the kind, connected to the stub for datagrams and to the proxy for the rest.\<close>

definition dial :: "kernel \<Rightarrow> int \<Rightarrow> Supervisor \<Rightarrow> int option \<times> act list" where
  "dial k kind s =
     (case k_socket k of
        None \<Rightarrow> (None, [SysSocket kind None])
      | Some sock \<Rightarrow>
          let addr = (if kind = SOCK_DGRAM then sv_dns s else sv_proxy s)
          in if \<not> k_connect k
             then (None, [SysSocket kind (Some sock), SysConnect sock addr False, SysClose sock])
             else (Some sock, [SysSocket kind (Some sock), SysConnect sock addr True]))"

definition onConnect :: "kernel \<Rightarrow> notifReq \<Rightarrow> Supervisor \<Rightarrow> Supervisor \<times> act list" where
  "onConnect k req s =
     (let jobfd = (ucast (rq_arg0 req) :: u32)
      in case map_of (sv_table s) jobfd of
          None \<Rightarrow> (s, cont req)
        | Some e \<Rightarrow>
            (case dial k (e_kind e) s of
               (None, acts) \<Rightarrow> (s, acts @ [Respond (rq_id req) (- econnrefused) 0 0])
             | (Some relay, acts) \<Rightarrow>
                 let acts' = acts @ [NotifValid (rq_id req) (k_valid k)]
                 in if \<not> k_valid k then (s, acts' @ [SysClose relay])
                    else let acts'' = acts' @ [addfd k req relay (uint jobfd) False]
                         in case k_addfd k of
                             None \<Rightarrow> deny req (acts'' @ [SysClose relay]) s
                           | Some _ \<Rightarrow>
                               (s\<lparr>sv_table := AList.update jobfd \<lparr>e_kind = e_kind e, e_fd = relay\<rparr> (sv_table s),
                                  sv_Injected := sv_Injected s + 1\<rparr>,
                                acts'' @ [Respond (rq_id req) 0 0 0])))"

definition onDup :: "kernel \<Rightarrow> notifReq \<Rightarrow> u32 \<Rightarrow> Supervisor \<Rightarrow> Supervisor \<times> act list" where
  "onDup k req nr s =
     (let src = (ucast (rq_arg0 req) :: u32); own = map_of (sv_table s) src
      in if nr = sn_fcntl (sv_sn s) then
           (if (rq_arg1 req \<noteq> fDupFD \<and> rq_arg1 req \<noteq> fDupFDCloexec) \<or> own = None then (s, cont req) else deny req [] s)
         else case own of
             None \<Rightarrow>
               (if nr = sn_dup2 (sv_sn s) \<or> nr = sn_dup3 (sv_sn s)
                then (s\<lparr>sv_table := AList.delete (ucast (rq_arg1 req)) (sv_table s)\<rparr>, cont req)
                else (s, cont req))
           | Some e \<Rightarrow>
               let acts = [NotifValid (rq_id req) (k_valid k)]
               in if \<not> k_valid k then (s, acts)
                  else if e_fd e < 0 then (s, acts @ cont req)
                  else case k_dup1 k of
                      None \<Rightarrow> deny req (acts @ [SysDup (e_fd e) None]) s
                    | Some dup \<Rightarrow>
                        let newfd = (if nr = sn_dup (sv_sn s) then - 1 else sint (rq_arg1 req));
                            acts' = acts @ [SysDup (e_fd e) (Some dup), addfd k req dup newfd False, SysClose dup]
                        in case k_addfd k of
                            None \<Rightarrow> deny req acts' s
                          | Some fd \<Rightarrow>
                              (s\<lparr>sv_table := AList.update (word_of_int fd)
                                   \<lparr>e_kind = e_kind e, e_fd = (case k_dup2 k of Some d \<Rightarrow> d | None \<Rightarrow> - 1)\<rparr> (sv_table s)\<rparr>,
                               acts' @ [SysDup (e_fd e) (k_dup2 k), Respond (rq_id req) 0 fd 0]))"

definition handle :: "kernel \<Rightarrow> notifReq \<Rightarrow> Supervisor \<Rightarrow> Supervisor \<times> act list" where
  "handle k req s =
     (let nr = rq_nr req; sn = sv_sn s
      in if nr = sn_socket sn then onSocket k req s
         else if nr = sn_closeS sn then
           (s\<lparr>sv_table := AList.delete (ucast (rq_arg0 req)) (sv_table s)\<rparr>, cont req)
         else if nr = sn_connect sn then onConnect k req s
         else if nr \<in> {sn_dup sn, sn_dup2 sn, sn_dup3 sn, sn_fcntl sn} then onDup k req nr s
         else case map_of (sv_table s) (ucast (rq_arg0 req)) of
             None \<Rightarrow> (s, cont req)
           | Some e \<Rightarrow> if e_fd e < 0 then deny req [] s else (s, cont req))"

end
