(* ===== verification/Fence_World.thy ===== *)
theory Fence_World
  imports Fence_Supervisor
begin

text \<open>
  The fence at work: one fenced process, its descriptors, the seccomp program, the supervisor, and the kernel between them.
  \<open>sock\<close> says what a descriptor of the job is: not an INET socket, an INET socket the supervisor handed out and that is not connected,
  one the supervisor connected to its proxy or stub, or one that talks to an address of the job's own choosing (\<open>Escaped\<close>), which
  is what the fence exists to prevent. \<open>native\<close> is what the kernel does with a call it carries out itself, because the filter
  allowed it or the supervisor let it continue: connecting, or sending to an address on, an unconnected INET socket escapes, and so
  does either on a connected datagram socket, which Linux lets name another address on every send.
\<close>

subsection \<open>The world\<close>

datatype sock = Plain | Raw int | Relayed int | Escaped int

record world =
  w_sup :: Supervisor
  w_fds :: "u32 \<Rightarrow> sock option"
  w_own :: "int \<Rightarrow> sock option"

text \<open>
  One call of the job, with the kernel's answers to the supervisor and what the call itself does when the kernel carries it
  out: \<open>j_new\<close> the descriptor a call that makes one returns (\<open>None\<close> when it fails), \<open>j_copy\<close> the descriptor of which an
  unfiltered call hands out another copy (one sent over a unix socket and received again), \<open>j_gone\<close> the descriptors an
  unfiltered call closes (\<^verbatim>\<open>close_range\<close>, \<^verbatim>\<open>execve\<close>).
\<close>

record jcall =
  j_nr :: u32
  j_arg0 :: "64 word"
  j_arg1 :: "64 word"
  j_kernel :: kernel
  j_new :: "u32 option"
  j_copy :: "u32 option"
  j_gone :: "u32 list"

definition escape :: "sock \<Rightarrow> sock" where
  "escape x = (case x of Raw k \<Rightarrow> Escaped k | Relayed k \<Rightarrow> if k = SOCK_DGRAM then Escaped k else Relayed k | y \<Rightarrow> y)"

definition new_fd :: "u32 option \<Rightarrow> sock option \<Rightarrow> (u32 \<Rightarrow> sock option) \<Rightarrow> u32 \<Rightarrow> sock option" where
  "new_fd n x fds = (case n of Some fd \<Rightarrow> fds(fd := x) | None \<Rightarrow> fds)"

text \<open>The kernel carries a call out.\<close>

definition native :: "sysnums \<Rightarrow> jcall \<Rightarrow> (u32 \<Rightarrow> sock option) \<Rightarrow> u32 \<Rightarrow> sock option" where
  "native sn j fds =
     (let fd = ucast (j_arg0 j); nr = j_nr j
      in if nr = sn_closeS sn then fds(fd := None)
         else if nr \<in> {sn_connect sn, sn_sendto sn, sn_sendmsg sn, sn_sendmmsg sn}
         then fds(fd := map_option escape (fds fd))
         else if nr \<in> {sn_dup sn, sn_dup2 sn, sn_dup3 sn} \<or>
           nr = sn_fcntl sn \<and> (ucast (j_arg1 j) :: u32) \<in> {ucast fDupFD, ucast fDupFDCloexec}
         then (if fds fd = None then fds else new_fd (j_new j) (fds fd) fds)
         else if nr = sn_fcntl sn then fds
         else new_fd (j_new j) (case j_copy j of None \<Rightarrow> Some Plain | Some x \<Rightarrow> fds x)
           (\<lambda>x. if x \<in> set (j_gone j) then None else fds x))"

text \<open>What a call of the supervisor does: to its own descriptors and, for \<open>AddFD\<close>, to the job's.\<close>

fun perform :: "act \<Rightarrow> world \<Rightarrow> world" where
  "perform (SysSocket kind (Some fd)) w = w\<lparr>w_own := (w_own w)(fd := Some (Raw kind))\<rparr>"
| "perform (SysConnect fd addr True) w =
     (case w_own w fd of Some (Raw kind) \<Rightarrow> w\<lparr>w_own := (w_own w)(fd := Some (Relayed kind))\<rparr> | _ \<Rightarrow> w)"
| "perform (SysDup fd (Some d)) w = w\<lparr>w_own := (w_own w)(d := w_own w fd)\<rparr>"
| "perform (SysClose fd) w = w\<lparr>w_own := (w_own w)(fd := None)\<rparr>"
| "perform (AddFD rid src tgt cx (Some fd)) w = w\<lparr>w_fds := (w_fds w)(word_of_int fd := w_own w src)\<rparr>"
| "perform _ w = w"

definition continues :: "act list \<Rightarrow> bool" where
  "continues acts \<longleftrightarrow> (\<exists>a \<in> set acts. case a of Respond _ e v fl \<Rightarrow> fl = notifFlagContinue | _ \<Rightarrow> False)"

definition req_of :: "jcall \<Rightarrow> notifReq" where
  "req_of j = \<lparr>rq_id = 1, rq_nr = j_nr j, rq_arg0 = j_arg0 j, rq_arg1 = j_arg1 j\<rparr>"

definition filter_verdict :: "u32 \<Rightarrow> sysnums \<Rightarrow> jcall \<Rightarrow> u32 option" where
  "filter_verdict a sn j =
     bpf_run (allowlistProgram a sn) \<lparr>sd_nr = j_nr j, sd_arch = a, sd_args = [j_arg0 j, j_arg1 j]\<rparr>"

text \<open>One call of the job: the filter, then the kernel or the supervisor, then the kernel again if the supervisor lets it.\<close>

definition world_step :: "u32 \<Rightarrow> jcall \<Rightarrow> world \<Rightarrow> world" where
  "world_step a j w =
     (let sn = sv_sn (w_sup w)
      in if filter_verdict a sn j = Some retAllow then w\<lparr>w_fds := native sn j (w_fds w)\<rparr>
         else if filter_verdict a sn j = Some retUserNotif then
           (case handle (j_kernel j) (req_of j) (w_sup w) of (s', acts) \<Rightarrow>
              let w' = (fold perform acts w)\<lparr>w_sup := s'\<rparr>
              in if continues acts then w'\<lparr>w_fds := native sn j (w_fds w')\<rparr> else w')
         else w)"

subsection \<open>What the kernel guarantees, and what a tame job does\<close>

text \<open>
  Descriptors the kernel returns are small and new: those of the supervisor not among its own, those it installs in the job without
  naming a target not among the job's, the copies different from each other; a target is honoured.
\<close>

definition kernel_ok :: "jcall \<Rightarrow> world \<Rightarrow> bool" where
  "kernel_ok j w \<longleftrightarrow> (let k = j_kernel j; sn = sv_sn (w_sup w) in
     (\<forall>fd. k_socket k = Some fd \<longrightarrow> 0 \<le> fd \<and> w_own w fd = None) \<and>
     (\<forall>fd. k_dup1 k = Some fd \<longrightarrow> 0 \<le> fd \<and> w_own w fd = None) \<and>
     (\<forall>fd. k_dup2 k = Some fd \<longrightarrow> 0 \<le> fd \<and> w_own w fd = None) \<and>
     (\<forall>fd. k_addfd k = Some fd \<longrightarrow>
        (if j_nr j = sn_connect sn then word_of_int fd = (ucast (j_arg0 j) :: u32)
         else if j_nr j = sn_dup2 sn \<or> j_nr j = sn_dup3 sn then word_of_int fd = (ucast (j_arg1 j) :: u32)
         else w_fds w (word_of_int fd) = None)) \<and>
     (\<forall>fd. j_new j = Some fd \<longrightarrow>
        (if j_nr j = sn_dup2 sn \<or> j_nr j = sn_dup3 sn then fd = ucast (j_arg1 j) else w_fds w fd = None)))"

definition fence_socket :: "sock option \<Rightarrow> bool" where
  "fence_socket x \<longleftrightarrow> (\<exists>k. x = Some (Raw k) \<or> x = Some (Relayed k))"

text \<open>
  A tame job does not duplicate an INET socket before connecting it, by any call, does not duplicate anything onto an INET
  socket, and keeps its INET sockets off the descriptor the filter lets send. Nothing in the fence makes a job tame.
\<close>

definition is_raw :: "sock option \<Rightarrow> bool" where
  "is_raw x \<longleftrightarrow> (\<exists>k. x = Some (Raw k))"

definition tame :: "jcall \<Rightarrow> world \<Rightarrow> bool" where
  "tame j w \<longleftrightarrow> (let sn = sv_sn (w_sup w); fd = (ucast (j_arg0 j) :: u32) in
     (j_nr j \<in> {sn_dup sn, sn_dup2 sn, sn_dup3 sn, sn_fcntl sn} \<longrightarrow> \<not> is_raw (w_fds w fd)) \<and>
     (j_nr j \<in> {sn_dup2 sn, sn_dup3 sn} \<longrightarrow> \<not> fence_socket (w_fds w (ucast (j_arg1 j)))) \<and>
     (j_nr j = sn_socket sn \<longrightarrow> (\<forall>n. k_addfd (j_kernel j) = Some n \<longrightarrow> word_of_int n \<noteq> handoffFD)) \<and>
     (\<forall>x. j_copy j = Some x \<longrightarrow> \<not> is_raw (w_fds w x)))"

definition sysnums_ok :: "sysnums \<Rightarrow> bool" where
  "sysnums_ok sn \<longleftrightarrow> distinct [sn_socket sn, sn_connect sn, sn_sendto sn, sn_sendmsg sn, sn_sendmmsg sn, sn_closeS sn,
     sn_dup sn, sn_dup2 sn, sn_dup3 sn, sn_fcntl sn]"

text \<open>
  The invariant, over the table, the job's descriptors and the supervisor's: an unconnected INET socket of the job is in the
  table as unconnected, the sockets the table names are relayed, and no stream socket has escaped.
\<close>

definition conf :: "(u32 \<rightharpoonup> entry) \<Rightarrow> (u32 \<Rightarrow> sock option) \<Rightarrow> (int \<Rightarrow> sock option) \<Rightarrow> bool" where
  "conf tbl fds own \<longleftrightarrow>
     (\<forall>fd. is_raw (fds fd) \<longrightarrow> fd \<noteq> handoffFD \<and> (\<exists>e. tbl fd = Some e \<and> e_fd e < 0)) \<and>
     (\<forall>fd e. tbl fd = Some e \<and> 0 \<le> e_fd e \<longrightarrow> (\<exists>k. own (e_fd e) = Some (Relayed k))) \<and>
     (\<forall>fd. fds fd \<noteq> Some (Escaped SOCK_STREAM))"

definition confined :: "world \<Rightarrow> bool" where
  "confined w \<longleftrightarrow> sysnums_ok (sv_sn (w_sup w)) \<and> conf (map_of (sv_table (w_sup w))) (w_fds w) (w_own w)"

subsection \<open>The steps keep the invariant\<close>

lemma is_raw_simps [simp]:
  "is_raw (Some (Raw k))" "\<not> is_raw None" "\<not> is_raw (Some Plain)" "\<not> is_raw (Some (Relayed k))" "\<not> is_raw (Some (Escaped k))"
  by (simp_all add: is_raw_def)

lemma conf_own: "conf tbl fds own \<Longrightarrow> own f = None \<Longrightarrow> conf tbl fds (own(f := x))"
  by (fastforce simp: conf_def)

lemma conf_fds: "conf tbl fds own \<Longrightarrow> \<not> is_raw x \<Longrightarrow> x \<noteq> Some (Escaped SOCK_STREAM) \<Longrightarrow> conf tbl (fds(fd := x)) own"
  by (auto simp: conf_def)

lemma conf_gone: "conf tbl fds own \<Longrightarrow> conf tbl (\<lambda>x. if x \<in> A then None else fds x) own"
  by (auto simp: conf_def split: if_splits)

lemma conf_raw:
  "conf tbl fds own \<Longrightarrow> fd \<noteq> handoffFD \<Longrightarrow> e_fd e < 0 \<Longrightarrow> conf (tbl(fd \<mapsto> e)) (fds(fd := Some (Raw k))) own"
  by (auto simp: conf_def)

lemma conf_relayed:
  "conf tbl fds own \<Longrightarrow> (0 \<le> e_fd e \<Longrightarrow> \<exists>k. own (e_fd e) = Some (Relayed k)) \<Longrightarrow>
     conf (tbl(fd \<mapsto> e)) (fds(fd := Some (Relayed k))) own"
  by (auto simp: conf_def)

lemma conf_close: "conf tbl fds own \<Longrightarrow> conf (tbl(fd := None)) (fds(fd := None)) own"
  by (auto simp: conf_def)

lemma conf_drop: "conf tbl fds own \<Longrightarrow> \<not> is_raw (fds fd) \<Longrightarrow> conf (tbl(fd := None)) fds own"
  by (auto simp: conf_def)

lemma escape_tame: "\<not> is_raw x \<Longrightarrow> x \<noteq> Some (Escaped SOCK_STREAM) \<Longrightarrow>
    \<not> is_raw (map_option escape x) \<and> map_option escape x \<noteq> Some (Escaped SOCK_STREAM)"
  by (cases x) (auto simp: escape_def SOCK_STREAM_def SOCK_DGRAM_def is_raw_def split: sock.splits)

lemma conf_escape: "conf tbl fds own \<Longrightarrow> \<not> is_raw (fds fd) \<Longrightarrow> conf tbl (fds(fd := map_option escape (fds fd))) own"
  using escape_tame [of "fds fd"] by (intro conf_fds) (auto simp: conf_def)

lemma conf_copy: "conf tbl fds own \<Longrightarrow> \<not> is_raw (fds fd) \<Longrightarrow> conf tbl (new_fd n (fds fd) fds) own"
  by (auto simp: new_fd_def conf_def split: option.splits)

text \<open>A call the kernel carries out, when it does not touch an unconnected INET socket.\<close>

definition touching :: "sysnums \<Rightarrow> u32 set" where
  "touching sn = {sn_connect sn, sn_sendto sn, sn_sendmsg sn, sn_sendmmsg sn, sn_dup sn, sn_dup2 sn, sn_dup3 sn, sn_fcntl sn}"

lemma native_conf:
  assumes "conf tbl fds own" and "j_nr j \<in> touching sn \<Longrightarrow> \<not> is_raw (fds (ucast (j_arg0 j)))"
    and "\<forall>x. j_copy j = Some x \<longrightarrow> \<not> is_raw (fds x)"
  shows "conf tbl (native sn j fds) own"
proof -
  have "conf tbl (new_fd (j_new j) (case j_copy j of None \<Rightarrow> Some Plain | Some x \<Rightarrow> fds x)
      (\<lambda>x. if x \<in> set (j_gone j) then None else fds x)) own"
    using conf_gone [OF assms(1), of "set (j_gone j)"] assms(1,3)
    by (auto simp: new_fd_def conf_def split: option.splits if_splits)
  moreover have "conf tbl (fds(ucast (j_arg0 j) := None)) own" using assms(1) by (rule conf_fds) auto
  ultimately show ?thesis
    using assms(1,2) by (simp add: native_def Let_def touching_def conf_escape conf_copy)
qed

text \<open>What one notification does to the world, before the kernel carries the call out or not.\<close>

definition after :: "jcall \<Rightarrow> world \<Rightarrow> world" where
  "after j w = (case handle (j_kernel j) (req_of j) (w_sup w) of (s', acts) \<Rightarrow> (fold perform acts w)\<lparr>w_sup := s'\<rparr>)"

definition lets_go :: "jcall \<Rightarrow> world \<Rightarrow> bool" where
  "lets_go j w \<longleftrightarrow> continues (snd (handle (j_kernel j) (req_of j) (w_sup w)))"

definition world_conf :: "world \<Rightarrow> bool" where
  "world_conf w \<longleftrightarrow> conf (map_of (sv_table (w_sup w))) (w_fds w) (w_own w)"

lemma continues_simps:
  "continues [] = False" "continues (a # acts) \<longleftrightarrow> (case a of Respond _ e v fl \<Rightarrow> fl = notifFlagContinue | _ \<Rightarrow> False) \<or> continues acts"
  by (simp_all add: continues_def)

lemmas handler_simps = after_def lets_go_def world_conf_def req_of_def cont_def deny_def addfd_def Let_def
  continues_simps notifFlagContinue_def econnrefused_def

lemma onSocket_conf:
  assumes w: "world_conf w" "kernel_ok j w" "tame j w" and nr: "j_nr j = sn_socket (sv_sn (w_sup w))"
    and sn: "sysnums_ok (sv_sn (w_sup w))"
  shows "world_conf (after j w) \<and> sv_sn (w_sup (after j w)) = sv_sn (w_sup w) \<and> \<not> lets_go j w"
proof -
  let ?k = "j_kernel j"
  have fresh: "w_own w fd = None" if "k_socket ?k = Some fd" for fd using that w(2) by (simp add: kernel_ok_def Let_def)
  have ho: "word_of_int fd \<noteq> handoffFD" if "k_addfd ?k = Some fd" for fd using that w(3) nr by (simp add: tame_def Let_def)
  have "conf (map_of (sv_table (w_sup w))) (w_fds w) ((w_own w)(fd := None))" if "k_socket ?k = Some fd" for fd
    using w(1) fresh [OF that] by (simp add: world_conf_def conf_own)
  then show ?thesis
    using w(1) conf_raw ho fresh nr
    by (auto simp: handler_simps handle_def onSocket_def AList.update_conv' fun_upd_idem split: option.split)
qed

lemma kernel_okD:
  assumes "kernel_ok j w"
  shows "k_socket (j_kernel j) = Some fd \<Longrightarrow> 0 \<le> fd \<and> w_own w fd = None"
    and "k_dup1 (j_kernel j) = Some fd \<Longrightarrow> 0 \<le> fd \<and> w_own w fd = None"
    and "k_dup2 (j_kernel j) = Some fd \<Longrightarrow> 0 \<le> fd \<and> w_own w fd = None"
    and "k_addfd (j_kernel j) = Some fd \<Longrightarrow> j_nr j = sn_connect (sv_sn (w_sup w)) \<Longrightarrow>
      word_of_int fd = (ucast (j_arg0 j) :: u32)"
  using assms by (simp_all add: kernel_ok_def Let_def)

text \<open>The tests the handler makes, for each call.\<close>

lemma handle_eqs:
  assumes "sysnums_ok (sv_sn s)"
  shows "rq_nr req = sn_socket (sv_sn s) \<Longrightarrow> handle k req s = onSocket k req s"
    and "rq_nr req = sn_closeS (sv_sn s) \<Longrightarrow>
      handle k req s = (s\<lparr>sv_table := AList.delete (ucast (rq_arg0 req)) (sv_table s)\<rparr>, cont req)"
    and "rq_nr req = sn_connect (sv_sn s) \<Longrightarrow> handle k req s = onConnect k req s"
    and "rq_nr req \<in> {sn_dup (sv_sn s), sn_dup2 (sv_sn s), sn_dup3 (sv_sn s), sn_fcntl (sv_sn s)} \<Longrightarrow>
      handle k req s = onDup k req (rq_nr req) s"
    and "rq_nr req \<in> {sn_sendto (sv_sn s), sn_sendmsg (sv_sn s), sn_sendmmsg (sv_sn s)} \<Longrightarrow>
      handle k req s = (case map_of (sv_table s) (ucast (rq_arg0 req)) of
         None \<Rightarrow> (s, cont req) | Some e \<Rightarrow> if e_fd e < 0 then deny req [] s else (s, cont req))"
  using assms unfolding sysnums_ok_def handle_def Let_def distinct.simps list.set by (elim conjE, force)+

lemma close_conf:
  assumes "world_conf w" and "j_nr j = sn_closeS (sv_sn (w_sup w))" and "sysnums_ok (sv_sn (w_sup w))"
  shows "world_conf (world_step a j w) \<and> sv_sn (w_sup (world_step a j w)) = sv_sn (w_sup w)"
proof -
  have "filter_verdict a (sv_sn (w_sup w)) j = Some retUserNotif"
    using assms(2,3) by (auto simp: filter_verdict_def bpf_allowlist allow_spec_def verdict_words sysnums_ok_def)
  moreover have "handle (j_kernel j) (req_of j) (w_sup w) =
      ((w_sup w)\<lparr>sv_table := AList.delete (ucast (j_arg0 j)) (sv_table (w_sup w))\<rparr>, cont (req_of j))"
    using handle_eqs(2) [OF assms(3)] assms(2) by (simp add: req_of_def)
  moreover have "native (sv_sn (w_sup w)) j fds = fds(ucast (j_arg0 j) := None)" for fds
    using assms(2) by (simp add: native_def Let_def)
  moreover have "retUserNotif \<noteq> retAllow" by (simp add: retUserNotif_def retAllow_def)
  ultimately show ?thesis
    using assms(1) by (simp add: world_step_def Let_def cont_def continues_simps world_conf_def AList.delete_conv' conf_close)
qed

lemma onConnect_conf:
  assumes w: "world_conf w" "kernel_ok j w" and nr: "j_nr j = sn_connect (sv_sn (w_sup w))"
    and sn: "sysnums_ok (sv_sn (w_sup w))"
  shows "world_conf (after j w) \<and> sv_sn (w_sup (after j w)) = sv_sn (w_sup w) \<and>
    (lets_go j w \<longrightarrow> w_fds (after j w) = w_fds w \<and> \<not> is_raw (w_fds w (ucast (j_arg0 j))))"
proof -
  let ?k = "j_kernel j" and ?fd = "ucast (j_arg0 j) :: u32"
  have h: "handle ?k (req_of j) (w_sup w) = onConnect ?k (req_of j) (w_sup w)"
    using handle_eqs(3) [OF sn] nr by (simp add: req_of_def)
  have own: "conf (map_of (sv_table (w_sup w))) (w_fds w) ((w_own w)(fd := x))" if "k_socket ?k = Some fd" for fd x
    using w(1) kernel_okD(1) [OF w(2) that] by (simp add: world_conf_def conf_own)
  have rel: "conf ((map_of (sv_table (w_sup w)))(?fd \<mapsto> \<lparr>e_kind = n, e_fd = fd\<rparr>)) ((w_fds w)(?fd := Some (Relayed n)))
      ((w_own w)(fd := Some (Relayed n)))" if "k_socket ?k = Some fd" for fd n
    by (rule conf_relayed [OF own [OF that]]) simp
  show ?thesis
  proof (cases "map_of (sv_table (w_sup w)) ?fd")
    case None
    then have "\<not> is_raw (w_fds w ?fd)" using w(1) by (auto simp: world_conf_def conf_def)
    then show ?thesis using None h w(1) by (simp add: handler_simps onConnect_def)
  next
    case (Some e)
    then show ?thesis
      using h w(1) own rel kernel_okD(4) [OF w(2) _ nr]
      by (auto simp: handler_simps onConnect_def dial_def AList.update_conv' split: option.split)
  qed
qed

lemma send_conf:
  assumes w: "world_conf w"
    and nr: "j_nr j \<in> {sn_sendto (sv_sn (w_sup w)), sn_sendmsg (sv_sn (w_sup w)), sn_sendmmsg (sv_sn (w_sup w))}"
    and sn: "sysnums_ok (sv_sn (w_sup w))"
  shows "world_conf (after j w) \<and> sv_sn (w_sup (after j w)) = sv_sn (w_sup w) \<and>
    (lets_go j w \<longrightarrow> w_fds (after j w) = w_fds w \<and> \<not> is_raw (w_fds w (ucast (j_arg0 j))))"
proof -
  have h: "handle (j_kernel j) (req_of j) (w_sup w) =
      (case map_of (sv_table (w_sup w)) (ucast (j_arg0 j)) of
         None \<Rightarrow> (w_sup w, cont (req_of j))
       | Some e \<Rightarrow> if e_fd e < 0 then deny (req_of j) [] (w_sup w) else (w_sup w, cont (req_of j)))"
    using handle_eqs(5) [OF sn, of "req_of j"] nr by (auto simp: req_of_def)
  have "is_raw (w_fds w (ucast (j_arg0 j))) \<Longrightarrow> \<exists>e. map_of (sv_table (w_sup w)) (ucast (j_arg0 j)) = Some e \<and> e_fd e < 0"
    using w by (simp add: world_conf_def conf_def)
  then show ?thesis using h w by (auto simp: handler_simps split: option.split)
qed

lemma onDup_conf:
  assumes w: "world_conf w" "kernel_ok j w" "tame j w"
    and nr: "j_nr j \<in> {sn_dup (sv_sn (w_sup w)), sn_dup2 (sv_sn (w_sup w)), sn_dup3 (sv_sn (w_sup w)), sn_fcntl (sv_sn (w_sup w))}"
    and sn: "sysnums_ok (sv_sn (w_sup w))"
  shows "world_conf (after j w) \<and> sv_sn (w_sup (after j w)) = sv_sn (w_sup w) \<and> (lets_go j w \<longrightarrow> w_fds (after j w) = w_fds w)"
proof -
  let ?k = "j_kernel j" and ?tbl = "map_of (sv_table (w_sup w))" and ?fd = "ucast (j_arg0 j) :: u32"
  have h: "handle ?k (req_of j) (w_sup w) = onDup ?k (req_of j) (j_nr j) (w_sup w)"
    using handle_eqs(4) [OF sn, of "req_of j"] nr by (simp add: req_of_def)
  have drop: "conf (?tbl(ucast (j_arg1 j) := None)) (w_fds w) (w_own w)"
    if "j_nr j = sn_dup2 (sv_sn (w_sup w)) \<or> j_nr j = sn_dup3 (sv_sn (w_sup w))"
    using w(1,3) that unfolding world_conf_def by (intro conf_drop) (auto simp: tame_def Let_def fence_socket_def is_raw_def)
  show ?thesis
  proof (cases "\<exists>e. ?tbl ?fd = Some e \<and> j_nr j \<noteq> sn_fcntl (sv_sn (w_sup w)) \<and> \<not> e_fd e < 0")
    case False
    note ev = handler_simps onDup_def
    show ?thesis
    proof (cases "j_nr j = sn_fcntl (sv_sn (w_sup w))")
      case True
      then show ?thesis using h w(1) by (simp add: ev)
    next
      case nf: False
      show ?thesis
      proof (cases "?tbl ?fd")
        case None
        then show ?thesis using h nf w(1) drop by (simp add: ev AList.delete_conv')
      next
        case (Some e)
        then have "e_fd e < 0" using False nf by auto
        then show ?thesis using h nf Some w(1) by (simp add: ev)
      qed
    qed
  next
    case True
    then obtain e where e: "?tbl ?fd = Some e" "j_nr j \<noteq> sn_fcntl (sv_sn (w_sup w))" "\<not> e_fd e < 0" by auto
    then obtain n where n: "w_own w (e_fd e) = Some (Relayed n)" using w(1) by (fastforce simp: world_conf_def conf_def)
    have own: "conf ?tbl (w_fds w) ((w_own w)(d := None))" if "k_dup1 ?k = Some d" for d
      using w(1) kernel_okD(2) [OF w(2) that] by (simp add: world_conf_def conf_own)
    have ne: "d \<noteq> e_fd e" "((w_own w)(d := x)) (e_fd e) = Some (Relayed n)" if "k_dup1 ?k = Some d" for d x
      using kernel_okD(2) [OF w(2) that] n by auto
    have rel: "conf (?tbl(fd \<mapsto> \<lparr>e_kind = m, e_fd = (case k_dup2 ?k of Some d' \<Rightarrow> d' | None \<Rightarrow> - 1)\<rparr>))
        ((w_fds w)(fd := Some (Relayed n)))
        (case k_dup2 ?k of Some d' \<Rightarrow> (w_own w)(d := None, d' := Some (Relayed n)) | None \<Rightarrow> (w_own w)(d := None))"
      if "k_dup1 ?k = Some d" for d fd m
    proof (cases "k_dup2 ?k")
      case None
      then show ?thesis using conf_relayed [OF own [OF that], of "\<lparr>e_kind = m, e_fd = - 1\<rparr>" fd n] by simp
    next
      case (Some d')
      have "conf ?tbl (w_fds w) ((w_own w)(d := None, d' := Some (Relayed n)))"
        using conf_own [OF own [OF that], of d' "Some (Relayed n)"] kernel_okD(3) [OF w(2) Some] by auto
      then show ?thesis using Some by (simp add: conf_relayed)
    qed
    note ev = handler_simps onDup_def e
    consider "\<not> k_valid ?k" | "k_valid ?k" "k_dup1 ?k = None" | d where "k_valid ?k" "k_dup1 ?k = Some d" by auto
    then show ?thesis
    proof cases
      case (3 d)
      show ?thesis
      proof (cases "k_addfd ?k")
        case None
        then show ?thesis using h 3 own [OF 3(2)] by (simp add: ev)
      next
        case (Some fd)
        have "w_own w (e_fd e) \<noteq> None" using n by simp
        then show ?thesis using h 3 Some rel [OF 3(2), of "word_of_int fd" "e_kind e"] ne(1) [OF 3(2)] n
          by (cases "k_dup2 ?k") (simp_all add: ev AList.update_conv')
      qed
    qed (use h w(1) in \<open>simp_all add: ev\<close>)
  qed
qed

lemma world_step_eq:
  "world_step a j w =
     (let sn = sv_sn (w_sup w); v = allow_spec a sn a (j_nr j) (ucast (j_arg0 j))
      in if v = Allow then w\<lparr>w_fds := native sn j (w_fds w)\<rparr>
         else if v = Notify
         then (if lets_go j w then (after j w)\<lparr>w_fds := native sn j (w_fds (after j w))\<rparr> else after j w)
         else w)"
  by (cases "allow_spec a (sv_sn (w_sup w)) a (j_nr j) (ucast (j_arg0 j))")
    (auto simp: world_step_def Let_def filter_verdict_def bpf_allowlist verdict_word_def retAllow_def retUserNotif_def
      after_def lets_go_def case_prod_beta)

lemma after_conf:
  assumes w: "world_conf w" "kernel_ok j w" "tame j w" and sn: "sysnums_ok (sv_sn (w_sup w))"
    and nr: "j_nr j \<in> insert (sn_socket (sv_sn (w_sup w))) (touching (sv_sn (w_sup w)))"
  shows "world_conf (after j w) \<and> sv_sn (w_sup (after j w)) = sv_sn (w_sup w) \<and>
    (lets_go j w \<longrightarrow> w_fds (after j w) = w_fds w \<and> (j_nr j \<in> touching (sv_sn (w_sup w)) \<longrightarrow> \<not> is_raw (w_fds w (ucast (j_arg0 j)))))"
proof -
  let ?sn = "sv_sn (w_sup w)"
  consider "j_nr j = sn_socket ?sn" | "j_nr j = sn_connect ?sn"
    | "j_nr j \<in> {sn_sendto ?sn, sn_sendmsg ?sn, sn_sendmmsg ?sn}"
    | "j_nr j \<in> {sn_dup ?sn, sn_dup2 ?sn, sn_dup3 ?sn, sn_fcntl ?sn}"
    using nr by (auto simp: touching_def)
  then show ?thesis
  proof cases
    case 1 then show ?thesis using onSocket_conf [OF w 1 sn] by blast
  next
    case 2 then show ?thesis using onConnect_conf [OF w(1,2) 2 sn] by blast
  next
    case 3 then show ?thesis using send_conf [OF w(1) 3 sn] by blast
  next
    case 4
    then have "\<not> is_raw (w_fds w (ucast (j_arg0 j)))" using w(3) unfolding tame_def Let_def by blast
    then show ?thesis using onDup_conf [OF w 4 sn] by blast
  qed
qed

lemma world_step_confined:
  assumes "confined w" and "kernel_ok j w \<and> tame j w"
  shows "confined (world_step a j w)"
proof -
  let ?sn = "sv_sn (w_sup w)" and ?v = "allow_spec a (sv_sn (w_sup w)) a (j_nr j) (ucast (j_arg0 j))"
  have w: "world_conf w" "sysnums_ok ?sn" "kernel_ok j w" "tame j w" using assms by (auto simp: confined_def world_conf_def)
  have copy: "\<forall>x. j_copy j = Some x \<longrightarrow> \<not> is_raw (w_fds w x)" using w(4) by (simp add: tame_def Let_def)
  consider "j_nr j = sn_closeS ?sn" | "?v = Allow" | "?v = Notify" "j_nr j \<noteq> sn_closeS ?sn" | "?v = Kill \<or> ?v = Eperm"
    by (cases ?v) auto
  then show ?thesis
  proof cases
    case 1
    then show ?thesis using close_conf [OF w(1) 1 w(2)] w(2) by (simp add: confined_def world_conf_def)
  next
    case 2
    have "j_nr j \<in> touching ?sn \<Longrightarrow> \<not> is_raw (w_fds w (ucast (j_arg0 j)))"
      using 2 w(1) by (auto simp: allow_spec_def touching_def world_conf_def conf_def split: if_splits)
    from native_conf [OF w(1) [unfolded world_conf_def] this copy] show ?thesis
      using 2 w(2) by (simp add: world_step_eq Let_def confined_def)
  next
    case 3
    have nr: "j_nr j \<in> insert (sn_socket ?sn) (touching ?sn)"
      using 3 by (auto simp: allow_spec_def touching_def split: if_splits)
    note ac = after_conf [OF w(1,3,4,2) nr]
    have "conf (map_of (sv_table (w_sup (after j w)))) (native ?sn j (w_fds (after j w))) (w_own (after j w))" if "lets_go j w"
      by (rule native_conf) (use ac that copy in \<open>auto simp: world_conf_def\<close>)
    then show ?thesis using 3 ac w(2) by (simp add: world_step_eq Let_def confined_def world_conf_def)
  next
    case 4
    then show ?thesis using assms(1) by (auto simp: world_step_eq Let_def)
  qed
qed

interpretation fence: invariant_system "world_step a" "\<lambda>j w. kernel_ok j w \<and> tame j w" confined
  by unfold_locales (rule world_step_confined)

end
