(* ===== verification/Fence_Properties.thy ===== *)
theory Fence_Properties
  imports Fence_World
begin

text \<open>
  What the fence keeps a job from, and what it does not. The positive result is about stream sockets of a tame job; the runs at the
  end are jobs that are not tame, each reaching a socket that talks to an address of its own choosing.
\<close>

subsection \<open>A machine and the calls of a job\<close>

definition demo_sup :: Supervisor where
  "demo_sup = \<lparr>sv_proxy = (''127.0.0.1'', 1), sv_dns = (''127.0.0.1'', 2), sv_sn = snd (the (arch ''amd64'')),
     sv_table = [], sv_Injected = 0, sv_Refused = 0\<rparr>"

definition demo_world :: world where
  "demo_world = \<lparr>w_sup = demo_sup, w_fds = (\<lambda>fd. if fd < 3 then Some Plain else None), w_own = (\<lambda>_. None)\<rparr>"

definition demo_kernel :: "int \<Rightarrow> int \<Rightarrow> kernel" where
  "demo_kernel sock fd = \<lparr>k_socket = Some sock, k_connect = True, k_valid = True, k_addfd = Some fd, k_dup1 = None, k_dup2 = None\<rparr>"

definition demo_call :: "u32 \<Rightarrow> 64 word \<Rightarrow> 64 word \<Rightarrow> kernel \<Rightarrow> u32 option \<Rightarrow> jcall" where
  "demo_call nr x y k new = \<lparr>j_nr = nr, j_arg0 = x, j_arg1 = y, j_kernel = k, j_new = new, j_copy = None, j_gone = []\<rparr>"

text \<open>On amd64: \<open>socket(AF_INET, kind)\<close> giving descriptor 3, \<open>connect(fd)\<close>, and the rest.\<close>

definition do_socket :: "64 word \<Rightarrow> jcall" where "do_socket kind = demo_call 41 2 kind (demo_kernel 7 3) None"
definition do_connect :: "64 word \<Rightarrow> jcall" where "do_connect fd = demo_call 42 fd 0 (demo_kernel 8 3) None"
definition do_sendto :: "64 word \<Rightarrow> jcall" where "do_sendto fd = demo_call 44 fd 0 (demo_kernel 8 3) None"
definition do_close :: "64 word \<Rightarrow> jcall" where "do_close fd = demo_call 3 fd 0 (demo_kernel 8 3) None"
definition do_dup :: "64 word \<Rightarrow> jcall" where "do_dup fd = demo_call 32 fd 0 (demo_kernel 8 3) (Some 4)"
definition do_dup2_bad :: "64 word \<Rightarrow> jcall" where "do_dup2_bad fd = demo_call 33 99 fd (demo_kernel 8 3) None"
definition do_fcntl_dup :: "64 word \<Rightarrow> jcall" where "do_fcntl_dup fd = demo_call 72 fd 0x100000000 (demo_kernel 8 3) (Some 4)"

lemmas demo_calls = do_socket_def do_connect_def do_sendto_def do_close_def do_dup_def do_dup2_bad_def do_fcntl_dup_def
  demo_call_def demo_kernel_def

lemma demo_sn: "sv_sn demo_sup = \<lparr>sn_socket = 41, sn_connect = 42, sn_sendto = 44, sn_sendmsg = 46, sn_sendmmsg = 307, sn_closeS = 3,
           sn_dup = 32, sn_dup2 = 33, sn_dup3 = 292, sn_fcntl = 72\<rparr>"
  by (simp add: demo_sup_def arch_def)

lemmas world_eval = world_step_eq Let_def allow_spec_def filter_consts after_def lets_go_def req_of_def handle_def onSocket_def onConnect_def
  onDup_def dial_def cont_def deny_def addfd_def continues_simps notifFlagContinue_def native_def new_fd_def escape_def
  SOCK_STREAM_def SOCK_DGRAM_def sockTypeMask_def sockCloexec_def fDupFD_def fDupFDCloexec_def demo_calls

lemma demo_world_eq: "demo_world = \<lparr>w_sup = \<lparr>sv_proxy = (''127.0.0.1'', 1), sv_dns = (''127.0.0.1'', 2), sv_sn = 
    \<lparr>sn_socket = 41, sn_connect = 42, sn_sendto = 44, sn_sendmsg = 46, sn_sendmmsg = 307, sn_closeS = 3,
           sn_dup = 32, sn_dup2 = 33, sn_dup3 = 292, sn_fcntl = 72\<rparr>,
     sv_table = [], sv_Injected = 0, sv_Refused = 0\<rparr>, w_fds = (\<lambda>fd. if fd < 3 then Some Plain else None), w_own = (\<lambda>_. None)\<rparr>"
  by (simp add: demo_world_def demo_sup_def arch_def)

subsection \<open>What is kept\<close>

lemma arch_distinct: "arch g = Some (a, sn) \<Longrightarrow> sysnums_ok sn"
  by (auto simp: arch_def sysnums_ok_def split: if_splits)



text \<open>
  A connect on a socket of the fence is never carried out as the job asked: the supervisor connects, if anything, a socket of its own to
  the proxy for a stream and to the stub for a datagram socket, puts it in the place of the job's descriptor, and never lets the
  job's call continue.
\<close>

theorem connect_is_redirected:
  assumes "sysnums_ok (sv_sn s)" and "rq_nr req = sn_connect (sv_sn s)" and "map_of (sv_table s) (ucast (rq_arg0 req)) = Some e"
    and "handle k req s = (s', acts)"
  shows "\<not> continues acts \<and>
    (\<forall>f addr b. SysConnect f addr b \<in> set acts \<longrightarrow> addr = (if e_kind e = SOCK_DGRAM then sv_dns s else sv_proxy s)) \<and>
    (\<forall>i src tgt cx r. AddFD i src tgt cx r \<in> set acts \<longrightarrow> tgt = Some (ucast (rq_arg0 req)) \<and>
       SysConnect src (if e_kind e = SOCK_DGRAM then sv_dns s else sv_proxy s) True \<in> set acts)"
proof -
  have h: "onConnect k req s = (s', acts)" using handle_eqs(3) [OF assms(1,2)] assms(4) by simp
  show ?thesis
  proof (cases "k_socket k")
    case None
    then show ?thesis using h assms(3) by (auto simp: onConnect_def dial_def Let_def continues_simps notifFlagContinue_def)
  next
    case (Some sock)
    then show ?thesis using h assms(3)
      by (cases "k_connect k"; cases "k_valid k"; cases "k_addfd k")
        (auto simp: onConnect_def dial_def Let_def continues_simps notifFlagContinue_def addfd_def deny_def)
  qed
qed

theorem connect_is_redirected_witness:
  "\<not> continues (snd (handle (demo_kernel 8 3) (req_of (do_connect 3)) (demo_sup\<lparr>sv_table := [(3, \<lparr>e_kind = 1, e_fd = - 1\<rparr>)]\<rparr>)))"
  using connect_is_redirected [of "demo_sup\<lparr>sv_table := [(3, \<lparr>e_kind = 1, e_fd = - 1\<rparr>)]\<rparr>" "req_of (do_connect 3)" "\<lparr>e_kind = 1, e_fd = - 1\<rparr>"
      "demo_kernel 8 3"]
  by (cases "handle (demo_kernel 8 3) (req_of (do_connect 3)) (demo_sup\<lparr>sv_table := [(3, \<lparr>e_kind = 1, e_fd = - 1\<rparr>)]\<rparr>)")
    (simp add: req_of_def demo_calls demo_sn sysnums_ok_def)

subsection \<open>What is not\<close>

text \<open>
  A job that is not tame gets out. Each run ends with a descriptor that talks to an address the job chose: by duplicating a socket before
  connecting it; by a duplication onto the socket that fails after the supervisor forgot it; by asking \<^verbatim>\<open>fcntl\<close> for a copy with a
  command word the supervisor reads with 64 bits and the kernel with 32.
\<close>

theorem untame_jobs_escape:
  "w_fds (run_ops (world_step auditArchX86_64) [do_socket 1, do_dup 3, do_connect 4] demo_world) 4 = Some (Escaped SOCK_STREAM) \<and>
   w_fds (run_ops (world_step auditArchX86_64) [do_socket 1, do_dup2_bad 3, do_connect 3] demo_world) 3 = Some (Escaped SOCK_STREAM) \<and>
   w_fds (run_ops (world_step auditArchX86_64) [do_socket 1, do_fcntl_dup 3, do_connect 4] demo_world) 4 = Some (Escaped SOCK_STREAM)"
  by (simp add: demo_world_eq world_eval)

text \<open>
  A datagram socket the supervisor connected to the stub still sends anywhere: the supervisor lets a send on it continue, and Linux lets
  a send on a connected datagram socket name another address.
\<close>

theorem datagrams_escape:
  "w_fds (run_ops (world_step auditArchX86_64) [do_socket 2, do_connect 3, do_sendto 3] demo_world) 3 = Some (Escaped SOCK_DGRAM)"
  by (simp add: demo_world_eq world_eval)

text \<open>
  Closing a connected socket makes the supervisor forget it, but not close its own end: after socket, connect and close the table is empty
  and the supervisor still holds the connection to the proxy.
\<close>

theorem close_leaks_the_relay:
  "sv_table (w_sup (run_ops (world_step auditArchX86_64) [do_socket 1, do_connect 3, do_close 3] demo_world)) = [] \<and>
   w_own (run_ops (world_step auditArchX86_64) [do_socket 1, do_connect 3, do_close 3] demo_world) 8 = Some (Relayed SOCK_STREAM)"
  by (simp add: demo_world_eq world_eval)

end
