(* ===== verification/Fence_Proxy.thy ===== *)
theory Fence_Proxy
  imports Go_Strings
begin

text \<open>
  The proxy half of \<^verbatim>\<open>internal/fence\<close> (\<^verbatim>\<open>proxy.go\<close>): the allowlist, the parsers for the name a job sends, the decision on a
  connection, the DNS stub; and the small helpers at the end of \<^verbatim>\<open>supervisor_linux.go\<close>. A \<^verbatim>\<open>[]byte\<close> is a string of bytes.
  Reading a connection is a list of read results, dialling an answer; what the proxy does is the list of its effects.
  Locks, deadlines and the copying goroutines are left out.
\<close>

subsection \<open>The allowlist\<close>

record Allowlist =
  al_names :: "string list"

definition clean_name :: "(string \<Rightarrow> string) \<Rightarrow> string \<Rightarrow> string" where
  "clean_name uni n = TrimPrefix (ToLower uni (TrimSuffix (TrimSpace n) ''.'')) ''*.''"

definition Set :: "(string \<Rightarrow> string) \<Rightarrow> string list \<Rightarrow> Allowlist \<Rightarrow> Allowlist" where
  "Set uni names a = a\<lparr>al_names := filter (\<lambda>n. n \<noteq> []) (map (clean_name uni) names)\<rparr>"

definition NewAllowlist :: "(string \<Rightarrow> string) \<Rightarrow> string list \<Rightarrow> Allowlist" where
  "NewAllowlist uni names = Set uni names \<lparr>al_names = []\<rparr>"

definition Allows :: "(string \<Rightarrow> string) \<Rightarrow> string \<Rightarrow> Allowlist \<Rightarrow> bool" where
  "Allows uni host a =
     (let h = ToLower uni (TrimSuffix host ''.'')
      in h \<noteq> [] \<and> list_ex (\<lambda>n. n = ''*'' \<or> h = n \<or> HasSuffix h (''.'' @ n)) (al_names a))"

subsection \<open>The name in a TLS ClientHello\<close>

definition be16 :: "string \<Rightarrow> nat \<Rightarrow> nat" where
  "be16 b i = 256 * byte (b ! i) + byte (b ! (i + 1))"

definition slice :: "string \<Rightarrow> nat \<Rightarrow> nat \<Rightarrow> string" where
  "slice b i j = take (j - i) (drop i b)"

text \<open>The closure \<^verbatim>\<open>get\<close>: the next \<open>n\<close> bytes as a big-endian number, if they are there.\<close>

definition sni_get :: "string \<Rightarrow> nat \<Rightarrow> nat \<Rightarrow> nat option" where
  "sni_get body pos n =
     (if pos + n > length body then None
      else Some (foldl (\<lambda>v c. 256 * v + byte c) 0 (slice body pos (pos + n))))"

text \<open>The loop over the names of a server name extension; \<open>None\<close> when it runs out of names.\<close>

function sni_names :: "string \<Rightarrow> nat \<Rightarrow> string option" where
  "sni_names chunk c =
     (if c + 3 \<le> length chunk
      then let n = be16 chunk (c + 1)
           in if byte (chunk ! c) = 0 \<and> c + 3 + n \<le> length chunk
              then let name = slice chunk (c + 3) (c + 3 + n)
                   in Some (if list_ex (\<lambda>r. byte r > 127) name then [] else name)
              else sni_names chunk (c + 3 + n)
      else None)"
  by auto
termination by (relation "measure (\<lambda>(chunk, c). length chunk - c)") auto

function sni_extensions :: "string \<Rightarrow> nat \<Rightarrow> string" where
  "sni_extensions body pos =
     (if pos + 4 \<le> length body
      then let kind = be16 body pos; size = be16 body (pos + 2); start = pos + 4; pos' = start + size
           in if kind \<noteq> 0 \<or> pos' > length body then sni_extensions body pos'
              else case sni_names (slice body start pos') 2 of
                  Some name \<Rightarrow> name
                | None \<Rightarrow> sni_extensions body pos'
      else [])"
  by auto
termination by (relation "measure (\<lambda>(body, pos). length body - pos)") (auto simp: Let_def)

declare sni_names.simps [simp del] sni_extensions.simps [simp del]

definition SNI :: "string \<Rightarrow> string" where
  "SNI b =
     (if length b < 5 \<or> byte (b ! 0) \<noteq> 22 then []
      else let body = take (min (5 + be16 b 3) (length b)) b; pos = 5 + 4 + 2 + 32
           in case sni_get body pos 1 of
               None \<Rightarrow> []
             | Some l1 \<Rightarrow>
                 (let pos1 = pos + (1 + l1)
                  in case sni_get body pos1 2 of
                      None \<Rightarrow> []
                    | Some l2 \<Rightarrow>
                        (let pos2 = pos1 + (2 + l2)
                         in case sni_get body pos2 1 of
                             None \<Rightarrow> []
                           | Some l3 \<Rightarrow> sni_extensions body (pos2 + (1 + l3) + 2))))"

subsection \<open>The name in an HTTP request\<close>

definition crlf :: string where "crlf = bytes [13, 10]"

definition HostHeader :: "string \<Rightarrow> string \<times> int" where
  "HostHeader b =
     (let head = fst (Cut b (crlf @ crlf));
          ls = tl (Split head crlf)
      in case find (\<lambda>l. length l > 5 \<and> lower_ascii (take 5 l) = ''host:'') ls of
          None \<Rightarrow> ([], 80)
        | Some l \<Rightarrow>
            let v = TrimSpace (drop 5 l); (name, port, found) = Cut v '':''
            in case Atoi port of
                Some p \<Rightarrow> if found then (name, p) else (name, 80)
              | None \<Rightarrow> (name, 80))"

subsection \<open>A connection\<close>

text \<open>
  \<^verbatim>\<open>readHead\<close> over what the reads of the connection return, bytes and whether there was an error; past the end of the list the
  connection is closed.
\<close>

definition head_done :: "string \<Rightarrow> bool" where
  "head_done buf \<longleftrightarrow>
     (if length buf \<ge> 5 \<and> byte (buf ! 0) = 22 then length buf \<ge> 5 + be16 buf 3 else Contains buf (crlf @ crlf))"

fun readHead :: "string \<Rightarrow> (string \<times> bool) list \<Rightarrow> string \<times> bool" where
  "readHead buf [] = (buf, length buf < 16384)"
| "readHead buf ((chunk, err) # reads) =
     (if length buf \<ge> 16384 then (buf, False)
      else let buf' = buf @ chunk
           in if head_done buf' then (buf', False) else if err then (buf', True) else readHead buf' reads)"

record Proxy =
  px_Allow :: Allowlist
  px_Refused :: "string list"
  px_Relayed :: "string list"

datatype effect = Answer string | DialUp string | RelayWith string

definition JoinHostPort :: "string \<Rightarrow> string \<Rightarrow> string" where
  "JoinHostPort host port = (if CHR '':'' \<in> set host then ''['' @ host @ '']:'' @ port else host @ '':'' @ port)"

definition http_400 :: string where
  "http_400 = ''HTTP/1.1 400 Bad Request'' @ crlf @ ''Content-Length: 0'' @ crlf @ crlf"

definition http_403 :: "string \<Rightarrow> string" where
  "http_403 name = (let body = ''blocked by gmux egress policy: '' @ name
     in ''HTTP/1.1 403 Forbidden'' @ crlf @ ''Content-Length: '' @ Itoa (int (length body)) @ crlf @ crlf @ body)"

definition http_502 :: string where
  "http_502 = ''HTTP/1.1 502 Bad Gateway'' @ crlf @ ''Content-Length: 0'' @ crlf @ crlf"

definition proxy_handle :: "(string \<Rightarrow> string) \<Rightarrow> (string \<times> bool) list \<Rightarrow> bool \<Rightarrow> Proxy \<Rightarrow> Proxy \<times> effect list" where
  "proxy_handle uni reads dialok p =
     (let head = fst (readHead [] reads)
      in if head = [] then (p, [])
         else let isHTTP = (byte (head ! 0) \<noteq> 22);
                  (name, port) = (if isHTTP then HostHeader head else (SNI head, 443))
              in if isHTTP \<and> name = [] then (p, [Answer http_400])
                 else if \<not> Allows uni name (px_Allow p)
                 then (p\<lparr>px_Refused := px_Refused p @ [name]\<rparr>, if isHTTP then [Answer (http_403 name)] else [])
                 else let addr = JoinHostPort name (Itoa port)
                      in if \<not> dialok then (p, DialUp addr # (if isHTTP then [Answer http_502] else []))
                         else (p\<lparr>px_Relayed := px_Relayed p @ [name]\<rparr>, [DialUp addr, RelayWith head]))"

subsection \<open>The DNS stub\<close>

definition StubAddress :: string where "StubAddress = bytes [127, 0, 0, 2]"

definition enc16 :: "nat \<Rightarrow> string" where
  "enc16 v = bytes [v div 256 mod 256, v mod 256]"

definition enc32 :: "nat \<Rightarrow> string" where
  "enc32 v = enc16 (v div 65536) @ enc16 (v mod 65536)"

function dns_end :: "string \<Rightarrow> nat \<Rightarrow> nat" where
  "dns_end q e = (if e < length q \<and> byte (q ! e) \<noteq> 0 then dns_end q (e + (1 + byte (q ! e))) else e)"
  by auto
termination by (relation "measure (\<lambda>(q, e). length q - e)") auto

declare dns_end.simps [simp del]

definition DNSAnswer :: "string \<Rightarrow> string option" where
  "DNSAnswer q =
     (if length q < 12 then None
      else let e = dns_end q 12
           in if e + 5 > length q then None
              else let question = slice q 12 (e + 5);
                       qtype = be16 q (e + 1);
                       answers = (if qtype = 1 then 1 else 0)
                   in Some (take 2 q @ concat (map enc16 [0x8180, 1, answers, 0, 0]) @ question @
                        (if answers = 1
                         then bytes [0xc0, 0x0c] @ concat (map enc16 [1, 1]) @ enc32 60 @ enc16 4 @ StubAddress
                         else [])))"

subsection \<open>Helpers of the supervisor\<close>

text \<open>The loop of \<^verbatim>\<open>splitList\<close>: pieces between colons, empty ones dropped; \<open>cur\<close> is the piece being read.\<close>

fun split_list :: "string \<Rightarrow> string \<Rightarrow> string list" where
  "split_list cur [] = (if cur \<noteq> [] then [cur] else [])"
| "split_list cur (c # s) =
     (if c = CHR '':'' then (if cur \<noteq> [] then [cur] else []) @ split_list [] s else split_list (cur @ [c]) s)"

definition splitList :: "string \<Rightarrow> string list" where
  "splitList s = split_list [] s"

definition default_path :: string where
  "default_path = ''/usr/local/sbin:/usr/local/bin:/usr/sbin:/usr/bin:/sbin:/bin''"

text \<open>\<open>exec p\<close> says that \<open>p\<close> exists, is no directory and has an execute bit.\<close>

definition lookPath :: "(string \<Rightarrow> bool) \<Rightarrow> string \<Rightarrow> string list \<Rightarrow> string option" where
  "lookPath exec name env =
     (if name \<noteq> [] \<and> (hd name = CHR ''/'' \<or> hd name = CHR ''.'') then Some name
      else let path = fold (\<lambda>kv p. if length kv > 5 \<and> take 5 kv = ''PATH='' then drop 5 kv else p) env [];
               path' = (if path = [] then default_path else path)
           in find exec (map (\<lambda>dir. dir @ ''/'' @ name) (splitList path')))"

end
