(* ===== verification/Fence_Wire.thy ===== *)
theory Fence_Wire
  imports Fence_Proxy
begin

text \<open>
  The two wire formats the proxy of \<^verbatim>\<open>internal/fence\<close> reads, written out from their specifications (RFC 8446 and RFC 6066 for the
  ClientHello, RFC 1035 for a DNS query) as encoders, and the round trips: the parsers find what the encoders put in.
\<close>

subsection \<open>Bytes at an offset\<close>

lemma byte_char_of [simp]: "byte (char_of n) = n mod 256"
  by (simp add: byte_def)

lemma bytes_simps [simp]: "length (bytes ns) = length ns" "bytes (n # ns) = char_of n # bytes ns" "bytes [] = []"
  by (simp_all add: bytes_def)

lemma enc16_length [simp]: "length (enc16 v) = 2"
  by (simp add: enc16_def)

lemma be16_at: "length p = i \<Longrightarrow> v < 65536 \<Longrightarrow> be16 (p @ enc16 v @ s) i = v"
  by (auto simp: be16_def enc16_def nth_append)

lemma slice_at: "length p = i \<Longrightarrow> length m = j - i \<Longrightarrow> slice (p @ m @ s) i j = m"
  by (simp add: slice_def)

lemma sni_get1: "length p = i \<Longrightarrow> n < 256 \<Longrightarrow> sni_get (p @ char_of n # s) i 1 = Some n"
  by (simp add: sni_get_def slice_def)

lemma sni_get2: "length p = i \<Longrightarrow> v < 65536 \<Longrightarrow> sni_get (p @ enc16 v @ s) i 2 = Some v"
  by (auto simp: sni_get_def slice_def enc16_def)

subsection \<open>A ClientHello\<close>

definition enc_ext :: "nat \<times> string \<Rightarrow> string" where
  "enc_ext e = enc16 (fst e) @ enc16 (length (snd e)) @ snd e"

definition server_name :: "string \<Rightarrow> string" where
  "server_name name = enc16 (length name + 3) @ bytes [0] @ enc16 (length name) @ name"

text \<open>
  \<open>hs\<close> is the handshake header, the version and the random bytes (38 bytes), \<open>exts\<close> the extensions before the server name, \<open>post\<close> what
  follows it in the record, and \<open>rest\<close> what follows the record.
\<close>

definition hello_body :: "string \<Rightarrow> string \<Rightarrow> string \<Rightarrow> string \<Rightarrow> string \<Rightarrow> (nat \<times> string) list \<Rightarrow> string \<Rightarrow> string \<Rightarrow> string" where
  "hello_body hs sid suites comps extlen exts name post =
     hs @ bytes [length sid] @ sid @ enc16 (length suites) @ suites @ bytes [length comps] @ comps @ extlen @
     concat (map enc_ext exts) @ enc_ext (0, server_name name) @ post"

definition hello_record :: "string \<Rightarrow> string \<Rightarrow> string \<Rightarrow> string" where
  "hello_record version body rest = bytes [22] @ version @ enc16 (length body) @ body @ rest"

lemma sni_names_name:
  assumes "length name < 65536" and "is_ascii name"
  shows "sni_names (server_name name) 2 = Some name"
proof -
  have n: "be16 (server_name name) 3 = length name"
    using be16_at [of "enc16 (length name + 3) @ bytes [0]" 3 "length name" name] assms(1) by (simp add: server_name_def)
  have "slice (server_name name) 5 (5 + length name) = name"
    using slice_at [of "enc16 (length name + 3) @ bytes [0] @ enc16 (length name)" 5 name "5 + length name" "[]"]
    by (simp add: server_name_def)
  moreover have "server_name name ! 2 = char_of (0 :: nat)" by (simp add: server_name_def nth_append)
  moreover have "\<not> list_ex (\<lambda>r. byte r > 127) name" using assms(2) by (auto simp: is_ascii_def list_ex_iff list_all_iff)
  ultimately show ?thesis
    by (subst sni_names.simps) (simp add: n [simplified numeral_3_eq_3] server_name_def [THEN arg_cong [of _ _ length]] n Let_def)
qed

lemma sni_extensions_find:
  assumes "\<forall>e \<in> set exts. fst e \<noteq> 0 \<and> fst e < 65536 \<and> length (snd e) < 65536"
    and "length name < 65531" and "is_ascii name"
  shows "sni_extensions (p @ concat (map enc_ext exts) @ enc_ext (0, server_name name) @ post) (length p) = name"
  using assms(1)
proof (induction exts arbitrary: p)
  case Nil
  let ?b = "p @ enc_ext (0, server_name name) @ post"
  have l: "length (server_name name) = length name + 5" by (simp add: server_name_def)
  have k: "be16 ?b (length p) = 0"
    using be16_at [of p "length p" 0 "enc16 (length (server_name name)) @ server_name name @ post"] by (simp add: enc_ext_def)
  have s: "be16 ?b (length p + 2) = length (server_name name)"
    using be16_at [of "p @ enc16 0" "length p + 2" "length (server_name name)" "server_name name @ post"] assms(2) l by (simp add: enc_ext_def)
  have "slice ?b (length p + 4) (length p + 4 + length (server_name name)) = server_name name"
    using slice_at [of "p @ enc16 0 @ enc16 (length (server_name name))" "length p + 4" "server_name name"
        "length p + 4 + length (server_name name)" post] by (simp add: enc_ext_def)
  then show ?case
    using k s sni_names_name [of name] assms(2,3)
    by (subst sni_extensions.simps) (simp add: Let_def enc_ext_def)
next
  case (Cons e exts)
  let ?rest = "concat (map enc_ext exts) @ enc_ext (0, server_name name) @ post"
  let ?b = "p @ enc_ext e @ ?rest"
  have e: "fst e \<noteq> 0" "fst e < 65536" "length (snd e) < 65536" using Cons.prems by auto
  have k: "be16 ?b (length p) = fst e"
    using be16_at [of p "length p" "fst e" "enc16 (length (snd e)) @ snd e @ ?rest"] e by (simp add: enc_ext_def)
  have s: "be16 ?b (length p + 2) = length (snd e)"
    using be16_at [of "p @ enc16 (fst e)" "length p + 2" "length (snd e)" "snd e @ ?rest"] e by (simp add: enc_ext_def)
  have l: "length (p @ enc_ext e) = length p + 4 + length (snd e)" by (simp add: enc_ext_def)
  have "sni_extensions ?b (length p) = sni_extensions ?b (length p + 4 + length (snd e))"
    using k s e l by (subst sni_extensions.simps) (simp add: Let_def enc_ext_def)
  also have "\<dots> = name" using Cons.IH [of "p @ enc_ext e"] Cons.prems l by (simp add: add.assoc)
  finally show ?case by simp
qed

text \<open>
  C37: the server name of a well-formed ClientHello is what \<^verbatim>\<open>SNI\<close> returns, whatever session id, cipher suites, compression methods and
  other extensions come before it and whatever bytes follow, in the record or after it.
\<close>

theorem SNI_finds_server_name:
  assumes "length version = 2" and "length hs = 38" and "length extlen = 2"
    and "length sid < 256" and "length suites < 65536" and "length comps < 256"
    and "\<forall>e \<in> set exts. fst e \<noteq> 0 \<and> fst e < 65536 \<and> length (snd e) < 65536"
    and "length name < 65531" and "is_ascii name"
    and "length (hello_body hs sid suites comps extlen exts name post) < 65536"
  shows "SNI (hello_record version (hello_body hs sid suites comps extlen exts name post) rest) = name"
proof -
  let ?body = "hello_body hs sid suites comps extlen exts name post"
  let ?b = "hello_record version ?body rest"
  let ?exts = "concat (map enc_ext exts) @ enc_ext (0, server_name name) @ post"
  define h where "h = bytes [22] @ version @ enc16 (length ?body)"
  have h: "length h = 5" "?b = h @ ?body @ rest" using assms(1) by (simp_all add: h_def hello_record_def)
  have "be16 ?b 3 = length ?body"
    using be16_at [of "bytes [22] @ version" 3 "length ?body" "?body @ rest"] assms(1,10) by (simp add: hello_record_def)
  then have take: "take (min (5 + be16 ?b 3) (length ?b)) ?b = h @ ?body" using h by simp
  have t: "5 \<le> length ?b" "byte (?b ! 0) = 22" using h(1) by (simp_all add: h(2)) (simp add: h_def)
  define p1 p2 p3 where "p1 = h @ hs" and "p2 = p1 @ bytes [length sid] @ sid" and "p3 = p2 @ enc16 (length suites) @ suites"
  define p4 where "p4 = p3 @ bytes [length comps] @ comps @ extlen"
  have g1: "sni_get (h @ ?body) 43 1 = Some (length sid)"
    using sni_get1 [of p1 43 "length sid" "sid @ enc16 (length suites) @ suites @ bytes [length comps] @ comps @ extlen @ ?exts"] assms(2,4) h(1)
    by (simp add: p1_def hello_body_def)
  have l2: "length p2 = 43 + (1 + length sid)" using h(1) assms(2) by (simp add: p2_def p1_def)
  have g2: "sni_get (h @ ?body) (43 + (1 + length sid)) 2 = Some (length suites)"
    using sni_get2 [of p2 "43 + (1 + length sid)" "length suites" "suites @ bytes [length comps] @ comps @ extlen @ ?exts"] l2 assms(5)
    by (simp add: p2_def p1_def hello_body_def)
  have l3: "length p3 = 43 + (1 + length sid) + (2 + length suites)" using l2 by (simp add: p3_def)
  have g3: "sni_get (h @ ?body) (43 + (1 + length sid) + (2 + length suites)) 1 = Some (length comps)"
    using sni_get1 [of p3 "43 + (1 + length sid) + (2 + length suites)" "length comps" "comps @ extlen @ ?exts"] l3 assms(6)
    by (simp add: p3_def p2_def p1_def hello_body_def)
  have l4: "length p4 = 43 + (1 + length sid) + (2 + length suites) + (1 + length comps) + 2" using l3 assms(3) by (simp add: p4_def)
  have "h @ ?body = p4 @ ?exts" by (simp add: p4_def p3_def p2_def p1_def hello_body_def)
  then have "sni_extensions (h @ ?body) (length p4) = name" using sni_extensions_find [OF assms(7-9), of p4 post] by simp
  then show ?thesis
    using t g1 g2 g3 l4 unfolding SNI_def take Let_def by simp
qed

theorem SNI_finds_server_name_witness:
  "SNI (hello_record (bytes [3, 1]) (hello_body (replicate 38 CHR ''x'') [] (bytes [19, 1]) (bytes [0]) (bytes [0, 0]) [(10, ''ab'')] ''h.io'' []) ''tail'') = ''h.io''"
  by (rule SNI_finds_server_name)
    (simp_all add: is_ascii_def byte_def hello_body_def server_name_def enc_ext_def)

subsection \<open>A DNS query\<close>

definition dns_name :: "string list \<Rightarrow> string" where
  "dns_name ls = concat (map (\<lambda>l. bytes [length l] @ l) ls) @ bytes [0]"

definition dns_query :: "string \<Rightarrow> string \<Rightarrow> string list \<Rightarrow> nat \<Rightarrow> nat \<Rightarrow> string \<Rightarrow> string" where
  "dns_query qid hdr ls qtype qclass rest = qid @ hdr @ dns_name ls @ enc16 qtype @ enc16 qclass @ rest"

text \<open>The answer record for the stub address: a pointer to the question, type A, class IN, 60 seconds, four bytes.\<close>

definition stub_record :: string where
  "stub_record = bytes [0xc0, 0x0c, 0, 1, 0, 1, 0, 0, 0, 60, 0, 4, 127, 0, 0, 2]"

lemma dns_end_name:
  assumes "\<forall>l \<in> set ls. 0 < length l \<and> length l < 256"
  shows "dns_end (p @ dns_name ls @ s) (length p) = length p + length (dns_name ls) - 1"
  using assms
proof (induction ls arbitrary: p)
  case Nil
  then show ?case by (subst dns_end.simps) (simp add: dns_name_def nth_append)
next
  case (Cons l ls)
  let ?q = "(p @ bytes [length l] @ l) @ dns_name ls @ s"
  have q: "p @ dns_name (l # ls) @ s = ?q" by (simp add: dns_name_def)
  have "byte (?q ! length p) = length l" "length p < length ?q" using Cons.prems by (auto simp: nth_append)
  then have "dns_end ?q (length p) = dns_end ?q (length (p @ bytes [length l] @ l))"
    using Cons.prems by (subst dns_end.simps) simp
  also have "\<dots> = length (p @ bytes [length l] @ l) + length (dns_name ls) - 1"
    by (rule Cons.IH) (use Cons.prems in simp)
  finally show ?case unfolding q by (simp add: dns_name_def)
qed

text \<open>
  The stub answers every well-formed query with its id and question repeated, as a response without error: exactly one address record
  with the stub address when the question is for an A record, and none for any other type.
\<close>

theorem DNSAnswer_answers:
  assumes "length qid = 2" and "length hdr = 10" and "\<forall>l \<in> set ls. 0 < length l \<and> length l < 256" and "qtype < 65536"
  shows "DNSAnswer (dns_query qid hdr ls qtype qclass rest) =
    Some (qid @ bytes [0x81, 0x80, 0, 1, 0, if qtype = 1 then 1 else 0, 0, 0, 0, 0] @
      (dns_name ls @ enc16 qtype @ enc16 qclass) @ (if qtype = 1 then stub_record else []))"
proof -
  let ?q = "dns_query qid hdr ls qtype qclass rest" and ?e = "11 + length (dns_name ls)"
  have nz: "0 < length (dns_name ls)" by (simp add: dns_name_def)
  have e: "dns_end ?q 12 = ?e"
    using dns_end_name [OF assms(3), of "qid @ hdr" "enc16 qtype @ enc16 qclass @ rest"] assms(1,2) nz by (simp add: dns_query_def)
  have l: "12 \<le> length ?q" "?e + 5 \<le> length ?q" using assms(1,2) nz by (simp_all add: dns_query_def)
  have ty: "be16 ?q (?e + 1) = qtype"
    using be16_at [of "qid @ hdr @ dns_name ls" "?e + 1" qtype "enc16 qclass @ rest"] assms(1,2,4) by (simp add: dns_query_def)
  have sl: "slice ?q 12 (?e + 5) = dns_name ls @ enc16 qtype @ enc16 qclass"
    using slice_at [of "qid @ hdr" 12 "dns_name ls @ enc16 qtype @ enc16 qclass" "?e + 5" rest] assms(1,2) by (simp add: dns_query_def)
  have tk: "take 2 ?q = qid" using assms(1) by (simp add: dns_query_def)
  show ?thesis
    using l unfolding DNSAnswer_def e ty sl tk Let_def
    by (simp add: stub_record_def enc16_def enc32_def StubAddress_def)
qed

theorem DNSAnswer_answers_witness:
  "DNSAnswer (dns_query (bytes [7, 9]) (bytes [1, 0, 0, 1, 0, 0, 0, 0, 0, 0]) [''h'', ''io''] 1 1 []) =
    Some (bytes [7, 9] @ bytes [0x81, 0x80, 0, 1, 0, 1, 0, 0, 0, 0] @ (dns_name [''h'', ''io''] @ enc16 1 @ enc16 1) @ stub_record)"
  using DNSAnswer_answers [of "bytes [7, 9]" "bytes [1, 0, 0, 1, 0, 0, 0, 0, 0, 0]" "[''h'', ''io'']" 1 1 "[]"] by simp

end
