(* ===== verification/Fence_Serve.thy ===== *)
theory Fence_Serve
  imports Fence_Properties Fence_Proxy_Properties "HOL-Library.Sublist"
begin

text \<open>
  The loops of the fence: \<^verbatim>\<open>Supervisor.Serve\<close> over the notifications the kernel delivers, the proxy's \<^verbatim>\<open>serveTCP\<close> over the connections it accepts, and
  \<^verbatim>\<open>serveDNS\<close> over the datagrams it reads, each as a function of what those calls return, in order; a list that ends stands for a call that has not returned yet.
  Then the numbers of the ioctls, as the kernel's header computes them. Shown: the supervisor answers every notification it receives exactly once, in order, except those
  the kernel says are void, and stops exactly at a failing receive; the proxy dials allowed names only, over all its connections.
\<close>

subsection \<open>The numbers of the ioctls\<close>

definition ioc :: "64 word \<Rightarrow> 64 word \<Rightarrow> 64 word \<Rightarrow> 64 word" where
  "ioc dir sz nr = or (or (or (push_bit 30 dir) (push_bit 16 sz)) (push_bit 8 0x21)) nr"

definition notifRecv :: "64 word" where "notifRecv = ioc 3 80 0"
definition notifSend :: "64 word" where "notifSend = ioc 3 24 1"
definition notifValid :: "64 word" where "notifValid = ioc 1 8 2"
definition notifAddFD :: "64 word" where "notifAddFD = ioc 1 24 3"

text \<open>
  The sizes are those of the structures (\<^verbatim>\<open>seccomp_notif\<close>: id, pid, flags and \<^verbatim>\<open>seccomp_data\<close> with its call number, architecture, instruction pointer and six arguments), and the numbers are the
  kernel's \<^verbatim>\<open>SECCOMP_IOCTL_NOTIF_RECV\<close>, \<^verbatim>\<open>_SEND\<close>, \<^verbatim>\<open>_ID_VALID\<close> and \<^verbatim>\<open>_ADDFD\<close>.
\<close>

lemma ioctl_numbers: "notifRecv = 0xC0502100 \<and> notifSend = 0xC0182101 \<and> notifValid = 0x40082102 \<and> notifAddFD = 0x40182103"
  by (simp add: notifRecv_def notifSend_def notifValid_def notifAddFD_def ioc_def push_bit_eq_mult)

subsection \<open>The supervisor's loop\<close>

definition EINTR :: int where "EINTR = 4"
definition EAGAIN :: int where "EAGAIN = 11"

text \<open>What one receive returns: a request, with the answers the kernel will give while it is handled, or an error number.\<close>

datatype recv = Got notifReq kernel | RecvErr int

text \<open>The state the loop leaves, the calls it made, and whether it has returned.\<close>

fun Serve :: "recv list \<Rightarrow> Supervisor \<Rightarrow> Supervisor \<times> act list \<times> bool" where
  "Serve [] s = (s, [], False)"
| "Serve (RecvErr e # rs) s = (if e = EINTR \<or> e = EAGAIN then Serve rs s else (s, [], True))"
| "Serve (Got req k # rs) s =
     (case handle k req s of (s1, acts1) \<Rightarrow> case Serve rs s1 of (s2, acts2, ended) \<Rightarrow> (s2, acts1 @ acts2, ended))"

text \<open>The requests received before the loop ends, with the kernel's answers.\<close>

fun received :: "recv list \<Rightarrow> (notifReq \<times> kernel) list" where
  "received [] = []"
| "received (RecvErr e # rs) = (if e = EINTR \<or> e = EAGAIN then received rs else [])"
| "received (Got req k # rs) = (req, k) # received rs"

definition answered :: "act list \<Rightarrow> 64 word list" where
  "answered acts = List.map_filter (\<lambda>a. case a of Respond rid _ _ _ \<Rightarrow> Some rid | _ \<Rightarrow> None) acts"

lemma answered_simps [simp]:
  "answered [] = []" "answered (xs @ ys) = answered xs @ answered ys" "answered (Respond i e v f # xs) = i # answered xs"
  "answered (SysSocket a b # xs) = answered xs" "answered (SysConnect c d f' # xs) = answered xs" "answered (SysDup g h # xs) = answered xs"
  "answered (SysClose c # xs) = answered xs" "answered (NotifValid i v' # xs) = answered xs" "answered (AddFD i n o' cl r # xs) = answered xs"
  by (simp_all add: answered_def List.map_filter_def)

text \<open>One notification is answered once, or, when the kernel says it is void, possibly not at all.\<close>

lemma dial_answers: "answered (snd (dial k kind s)) = []"
  by (simp add: dial_def Let_def split: option.split)

lemma onConnect_answers: "answered (snd (onConnect k req s)) = [rq_id req] \<or> \<not> k_valid k \<and> answered (snd (onConnect k req s)) = []"
proof (cases "map_of (sv_table s) (ucast (rq_arg0 req))")
  case (Some e)
  obtain r acts where d: "dial k (e_kind e) s = (r, acts)" by fastforce
  then have "answered acts = []" using dial_answers [of k "e_kind e" s] by simp
  then show ?thesis using Some d by (simp add: onConnect_def addfd_def deny_def Let_def split: option.split)
qed (simp add: onConnect_def cont_def)

lemma onSocket_answers: "answered (snd (onSocket k req s)) = [rq_id req] \<or> \<not> k_valid k \<and> answered (snd (onSocket k req s)) = []"
  by (simp add: onSocket_def deny_def addfd_def Let_def split: option.split)

lemma onDup_answers: "answered (snd (onDup k req nr s)) = [rq_id req] \<or> \<not> k_valid k \<and> answered (snd (onDup k req nr s)) = []"
proof (cases "map_of (sv_table s) (ucast (rq_arg0 req))")
  case (Some e)
  then show ?thesis by (simp add: onDup_def deny_def cont_def addfd_def Let_def split: option.split)
qed (simp add: onDup_def cont_def Let_def)

lemma handle_answers: "answered (snd (handle k req s)) = [rq_id req] \<or> \<not> k_valid k \<and> answered (snd (handle k req s)) = []"
  using onSocket_answers [of k req s] onConnect_answers [of k req s] onDup_answers [of k req "rq_nr req" s]
  by (simp add: handle_def cont_def deny_def Let_def split: option.split)

text \<open>
  C20: the supervisor answers every call of the job it is told of, in the order it is told, and each one once; the only ones it may leave out are those the kernel says are void (the caller is gone).
  It stops exactly when receiving fails with something other than an interruption.
\<close>

theorem Serve_answers_every_call:
  assumes "Serve rs s = (s', acts, ended)"
  shows "subseq (answered acts) (map (rq_id \<circ> fst) (received rs)) \<and>
    subseq (map (rq_id \<circ> fst) (filter (k_valid \<circ> snd) (received rs))) (answered acts) \<and>
    (ended \<longleftrightarrow> (\<exists>e. RecvErr e \<in> set rs \<and> e \<noteq> EINTR \<and> e \<noteq> EAGAIN))"
  using assms
proof (induction rs arbitrary: s acts)
  case (Cons r rs)
  show ?case
  proof (cases r)
    case (Got req k)
    obtain s1 acts1 where h: "handle k req s = (s1, acts1)" by fastforce
    obtain s2 acts2 b where t: "Serve rs s1 = (s2, acts2, b)" by (metis prod_cases3)
    have a: "answered acts1 = [rq_id req] \<or> \<not> k_valid k \<and> answered acts1 = []" using handle_answers [of k req s] h by simp
    have "acts = acts1 @ acts2" "b = ended" "s2 = s'" using Cons.prems Got h t by auto
    then show ?thesis using Cons.IH [of s1 acts2] t a Got by auto
  next
    case (RecvErr e)
    show ?thesis using Cons.IH [of s acts] Cons.prems RecvErr by (cases "e = EINTR \<or> e = EAGAIN") auto
  qed
qed simp

definition demo_recv :: "recv list" where
  "demo_recv = [RecvErr 4, Got (req_of (do_socket 1)) (demo_kernel 7 3), Got ((req_of (do_connect 3))\<lparr>rq_id := 2\<rparr>) ((demo_kernel 8 3)\<lparr>k_valid := False\<rparr>), RecvErr 2]"

theorem Serve_answers_every_call_witness:
  "\<exists>s' acts. Serve demo_recv demo_sup = (s', acts, True) \<and> subseq (answered acts) [1, 2] \<and> subseq [1] (answered acts)"
proof -
  obtain s' acts e where "Serve demo_recv demo_sup = (s', acts, e)" by (metis prod_cases3)
  then show ?thesis using Serve_answers_every_call [of demo_recv demo_sup s' acts e]
    by (auto simp: demo_recv_def EINTR_def EAGAIN_def demo_kernel_def do_socket_def do_connect_def demo_call_def req_of_def comp_def)
qed


subsection \<open>The proxy's listeners and loops\<close>

text \<open>\<^verbatim>\<open>Listen\<close> and \<^verbatim>\<open>Close\<close>: which of the two sockets the proxy holds, whether each listen succeeds, and the sockets closed.\<close>

datatype listener = TCP | UDP

definition Listen :: "bool \<Rightarrow> bool \<Rightarrow> (listener list \<times> listener list) \<times> bool" where
  "Listen tcpok udpok = (if \<not> tcpok then (([], []), False) else if \<not> udpok then (([TCP], [TCP]), False) else (([TCP, UDP], []), True))"

definition Close_proxy :: "listener list \<Rightarrow> listener list" where
  "Close_proxy held = filter (\<lambda>l. l \<in> set held) [TCP, UDP]"

lemma Listen_leaves_nothing: "Listen a b = ((held, shut), False) \<Longrightarrow> set held = set shut"
  by (auto simp: Listen_def split: if_splits)

text \<open>
  \<^verbatim>\<open>serveTCP\<close> over what \<^verbatim>\<open>Accept\<close> returns: a connection, as what its reads return and whether dialling out works, or an error, which ends the loop. The connections are handled side by side; they share only
  the two lists of names, behind a lock, so their order here is the order in which they reach it.
\<close>

fun serveTCP :: "(string \<Rightarrow> string) \<Rightarrow> ((string \<times> bool) list \<times> bool) option list \<Rightarrow> Proxy \<Rightarrow> Proxy \<times> effect list list \<times> bool" where
  "serveTCP uni [] p = (p, [], False)"
| "serveTCP uni (None # cs) p = (p, [], True)"
| "serveTCP uni (Some (reads, dialok) # cs) p =
     (case proxy_handle uni reads dialok p of (p1, effs) \<Rightarrow> case serveTCP uni cs p1 of (p2, rest, ended) \<Rightarrow> (p2, effs # rest, ended))"

text \<open>What a connection does depends on the allowlist alone: the names it adds to the lists, and its effects.\<close>

definition outcome :: "(string \<Rightarrow> string) \<Rightarrow> Allowlist \<Rightarrow> (string \<times> bool) list \<times> bool \<Rightarrow> string list \<times> string list \<times> effect list" where
  "outcome uni al c =
     (case proxy_handle uni (fst c) (snd c) \<lparr>px_Allow = al, px_Refused = [], px_Relayed = []\<rparr> of (p, effs) \<Rightarrow> (px_Refused p, px_Relayed p, effs))"

lemma handle_outcome:
  "proxy_handle uni reads dialok p =
     (case outcome uni (px_Allow p) (reads, dialok) of (bad, good, effs) \<Rightarrow> (p\<lparr>px_Refused := px_Refused p @ bad, px_Relayed := px_Relayed p @ good\<rparr>, effs))"
  by (simp add: outcome_def proxy_handle_def Let_def split: prod.split)

lemma outcome_allowed:
  assumes "outcome uni al c = (bad, good, effs)"
  shows "list_all (\<lambda>n. \<not> Allows uni n al) bad" and "list_all (\<lambda>n. Allows uni n al) good"
    and "DialUp addr \<in> set effs \<Longrightarrow> \<exists>name port. addr = JoinHostPort name (Itoa port) \<and> Allows uni name al"
  using assms by (auto simp: outcome_def proxy_handle_def Let_def split: if_splits prod.splits) blast+

lemma serveTCP_outcomes:
  "None \<notin> set cs \<Longrightarrow> serveTCP uni cs p =
     (p\<lparr>px_Refused := px_Refused p @ concat (map (fst \<circ> outcome uni (px_Allow p) \<circ> the) cs),
        px_Relayed := px_Relayed p @ concat (map (fst \<circ> snd \<circ> outcome uni (px_Allow p) \<circ> the) cs)\<rparr>,
      map (snd \<circ> snd \<circ> outcome uni (px_Allow p) \<circ> the) cs, False)"
proof (induction cs arbitrary: p)
  case (Cons c cs)
  then obtain reads ok where c: "c = Some (reads, ok)" by (cases c) auto
  show ?case using Cons by (simp add: c handle_outcome [of uni reads ok p] split: prod.split)
qed simp

lemma serveTCP_ended: "serveTCP uni (cs @ None # ds) p = (case serveTCP uni cs p of (q, effss, ended) \<Rightarrow> (q, effss, True))"
  by (induction uni cs p rule: serveTCP.induct) (auto split: prod.splits)

text \<open>
  C12: over all the connections it accepts, and however they interleave, the proxy dials out only to names the allowlist allows; every name it records as relayed is allowed and every name it records as
  refused is not. The connections do not disturb each other: in another order they have the same effects and leave the same names, up to order.
\<close>

theorem proxy_confines_all_connections:
  assumes "None \<notin> set cs" and "serveTCP uni cs p = (p', effss, ended)"
  shows "(\<forall>effs \<in> set effss. \<forall>addr. DialUp addr \<in> set effs \<longrightarrow> (\<exists>name port. addr = JoinHostPort name (Itoa port) \<and> Allows uni name (px_Allow p))) \<and>
    (\<exists>bad good. px_Refused p' = px_Refused p @ bad \<and> px_Relayed p' = px_Relayed p @ good \<and>
       list_all (\<lambda>n. \<not> Allows uni n (px_Allow p)) bad \<and> list_all (\<lambda>n. Allows uni n (px_Allow p)) good) \<and>
    (\<forall>cs'. mset cs' = mset cs \<longrightarrow>
      (case serveTCP uni cs' p of (q, effss', _) \<Rightarrow> mset effss' = mset effss \<and> mset (px_Refused q) = mset (px_Refused p') \<and> mset (px_Relayed q) = mset (px_Relayed p')))"
proof (intro conjI)
  let ?o = "outcome uni (px_Allow p)"
  have e: "p' = p\<lparr>px_Refused := px_Refused p @ concat (map (fst \<circ> ?o \<circ> the) cs), px_Relayed := px_Relayed p @ concat (map (fst \<circ> snd \<circ> ?o \<circ> the) cs)\<rparr>"
    "effss = map (snd \<circ> snd \<circ> ?o \<circ> the) cs" using serveTCP_outcomes [OF assms(1), of uni p] assms(2) by simp_all
  have o: "?o c = (fst (?o c), fst (snd (?o c)), snd (snd (?o c)))" for c by simp
  note al = outcome_allowed [OF o]
  show "\<forall>effs \<in> set effss. \<forall>addr. DialUp addr \<in> set effs \<longrightarrow> (\<exists>name port. addr = JoinHostPort name (Itoa port) \<and> Allows uni name (px_Allow p))"
    unfolding e(2) using al(3) by auto
  show "\<exists>bad good. px_Refused p' = px_Refused p @ bad \<and> px_Relayed p' = px_Relayed p @ good \<and>
      list_all (\<lambda>n. \<not> Allows uni n (px_Allow p)) bad \<and> list_all (\<lambda>n. Allows uni n (px_Allow p)) good"
    unfolding e(1) using al(1,2) by (auto simp: list_all_iff)
  have "case serveTCP uni cs' p of (q, effss', _) \<Rightarrow> mset effss' = mset effss \<and> mset (px_Refused q) = mset (px_Refused p') \<and> mset (px_Relayed q) = mset (px_Relayed p')"
    if m: "mset cs' = mset cs" for cs'
  proof -
    have "mset (map f cs') = mset (map f cs)" for f :: "_ \<Rightarrow> effect list" using m by simp
    moreover have "mset (concat (map f cs')) = mset (concat (map f cs))" for f :: "_ \<Rightarrow> string list" using m by (simp only: mset_concat map_map) (metis sum_mset_sum_list mset_map)
    moreover have "None \<notin> set cs'" using assms(1) m by (metis mset_eq_setD)
    ultimately show ?thesis unfolding e by (simp add: serveTCP_outcomes del: mset_map)
  qed
  then show "\<forall>cs'. mset cs' = mset cs \<longrightarrow>
      (case serveTCP uni cs' p of (q, effss', _) \<Rightarrow> mset effss' = mset effss \<and> mset (px_Refused q) = mset (px_Refused p') \<and> mset (px_Relayed q) = mset (px_Relayed p'))"
    by blast
qed

theorem proxy_confines_all_connections_witness:
  "\<exists>p' effss. serveTCP (\<lambda>s. s) [Some ([], True), Some ([(demo_request, False)], True)] demo_proxy = (p', effss, False) \<and>
     [DialUp ''a:80'', RelayWith demo_request] \<in> set effss \<and> (\<exists>name port. ''a:80'' = JoinHostPort name (Itoa port) \<and> Allows (\<lambda>s. s) name (px_Allow demo_proxy))"
proof -
  let ?cs = "[Some ([], True), Some ([(demo_request, False)], True)]"
  have h: "proxy_handle (\<lambda>s. s) [] True demo_proxy = (demo_proxy, [])" by (simp add: proxy_handle_def)
  have r: "serveTCP (\<lambda>s. s) ?cs demo_proxy = (demo_proxy\<lparr>px_Relayed := [''a'']\<rparr>, [[], [DialUp ''a:80'', RelayWith demo_request]], False)"
    using demo_proxy_run h by simp
  show ?thesis using r proxy_confines_all_connections [OF _ r] by simp
qed

text \<open>\<^verbatim>\<open>serveDNS\<close> over what \<^verbatim>\<open>ReadFrom\<close> returns: a datagram (at most the buffer's 4096 bytes of it) and its sender, or an error.\<close>

fun serveDNS :: "(string \<times> sockaddr) option list \<Rightarrow> (string \<times> sockaddr) list \<times> bool" where
  "serveDNS [] = ([], False)"
| "serveDNS (None # ds) = ([], True)"
| "serveDNS (Some (q, peer) # ds) =
     (case serveDNS ds of (sent, ended) \<Rightarrow> ((case DNSAnswer (take 4096 q) of None \<Rightarrow> sent | Some a \<Rightarrow> (a, peer) # sent), ended))"

lemma serveDNS_answers: "None \<notin> set ds \<Longrightarrow> serveDNS ds = (List.map_filter (\<lambda>(q, peer). map_option (\<lambda>a. (a, peer)) (DNSAnswer (take 4096 q))) (map the ds), False)"
  by (induction ds rule: serveDNS.induct) (auto simp: List.map_filter_def split: option.splits)

end
