(* ===== verification/Go_Paths.thy ===== *)
theory Go_Paths
  imports Go_Strings "HOL-Library.List_Lexorder" "HOL-Library.Char_ord"
begin

text \<open>
  What gmux uses of \<^verbatim>\<open>path/filepath\<close> on Unix, and of the functions that search a string for one byte. Strings are ordered byte by byte, as
  Go orders them (the library's lexicographic order on lists of characters), so \<open>sort\<close> is \<^verbatim>\<open>sort.Strings\<close>. The lemmas relate a path to its elements:
  a path without dot-dots that is joined to a directory stays in it.
\<close>

subsection \<open>Paths\<close>

text \<open>\<^verbatim>\<open>filepath.Clean\<close> and \<^verbatim>\<open>filepath.Join\<close> on Unix: the elements of a path, without empty ones and dots, dot-dots resolved.\<close>

fun clean_elems :: "bool \<Rightarrow> string list \<Rightarrow> string list \<Rightarrow> string list" where
  "clean_elems rooted out [] = rev out"
| "clean_elems rooted out (e # es) =
     (if e = [] \<or> e = ''.'' then clean_elems rooted out es
      else if e = ''..'' then
        (case out of
           x # xs \<Rightarrow> if x = ''..'' then clean_elems rooted (''..'' # out) es else clean_elems rooted xs es
         | [] \<Rightarrow> clean_elems rooted (if rooted then [] else [''..'']) es)
      else clean_elems rooted (e # out) es)"

fun join_slash :: "string list \<Rightarrow> string" where
  "join_slash [] = []"
| "join_slash [x] = x"
| "join_slash (x # y # ys) = x @ ''/'' @ join_slash (y # ys)"

definition Clean :: "string \<Rightarrow> string" where
  "Clean p =
     (if p = [] then ''.''
      else let rooted = HasPrefix p ''/''; out = join_slash (clean_elems rooted [] (Split p ''/''))
           in if rooted then ''/'' @ out else if out = [] then ''.'' else out)"

definition Join :: "string list \<Rightarrow> string" where
  "Join elems = (let es = filter (\<lambda>e. e \<noteq> []) elems in if es = [] then [] else Clean (join_slash es))"

subsection \<open>Searching for one byte\<close>

lemma index_from_byte:
  "index_from k s [c] = (if c \<in> set s then int (k + length (takeWhile (\<lambda>x. x \<noteq> c) s)) else - 1)"
  by (induction k s "[c]" rule: index_from.induct) auto

lemma Cut_byte:
  "Cut s [c] = (if c \<in> set s then (takeWhile (\<lambda>x. x \<noteq> c) s, drop (Suc (length (takeWhile (\<lambda>x. x \<noteq> c) s))) s, True) else (s, [], False))"
  by (auto simp: Cut_def Index_def index_from_byte Let_def takeWhile_eq_take [symmetric])

definition IndexByte :: "string \<Rightarrow> char \<Rightarrow> int" where
  "IndexByte s c = Index s [c]"

text \<open>\<^verbatim>\<open>strings.LastIndex\<close> for one byte.\<close>

definition LastIndexByte :: "string \<Rightarrow> char \<Rightarrow> int" where
  "LastIndexByte s c = (if c \<in> set s then int (length s) - 1 - int (length (takeWhile (\<lambda>x. x \<noteq> c) (rev s))) else - 1)"

subsection \<open>The pieces between a byte\<close>

fun parts :: "char \<Rightarrow> string \<Rightarrow> string list" where
  "parts c [] = [[]]"
| "parts c (x # xs) = (if x = c then [] # parts c xs else (x # hd (parts c xs)) # tl (parts c xs))"

lemma parts_nonempty [simp]: "parts c s \<noteq> []"
  by (cases s) auto

lemma parts_cut: "parts c s = (if c \<in> set s
    then takeWhile (\<lambda>x. x \<noteq> c) s # parts c (drop (Suc (length (takeWhile (\<lambda>x. x \<noteq> c) s))) s) else [s])"
  by (induction s) auto

lemma Split_parts: "Split s [c] = parts c s"
proof -
  have "length s \<le> n \<Longrightarrow> split_on [c] n s = parts c s" for n
  proof (induction n arbitrary: s)
    case (Suc n)
    show ?case
    proof (cases "c \<in> set s")
      case True
      let ?r = "drop (Suc (length (takeWhile (\<lambda>x. x \<noteq> c) s))) s"
      have "length ?r \<le> n" using Suc.prems by simp
      then show ?thesis using True Suc.IH [of ?r] by (simp add: Cut_byte parts_cut [of c s])
    next
      case False
      then show ?thesis by (simp add: Cut_byte parts_cut [of c s])
    qed
  qed simp
  then show ?thesis by (simp add: Split_def)
qed

lemma parts_byte_free: "e \<in> set (parts c s) \<Longrightarrow> c \<notin> set e"
proof (induction s arbitrary: e)
  case (Cons x s)
  have "hd (parts c s) \<in> set (parts c s)" "set (tl (parts c s)) \<subseteq> set (parts c s)" by (auto intro: list.set_sel(2))
  then show ?case using Cons by (auto split: if_splits)
qed simp

lemma parts_append: "parts c (a @ c # b) = parts c a @ parts c b"
proof (induction a)
  case (Cons x a)
  then show ?case by (cases "parts c a") auto
qed simp

lemma parts_whole: "c \<notin> set e \<Longrightarrow> parts c e = [e]"
  by (simp add: parts_cut)

lemma parts_join: "es \<noteq> [] \<Longrightarrow> \<forall>e \<in> set es. CHR ''/'' \<notin> set e \<Longrightarrow> parts (CHR ''/'') (join_slash es) = es"
proof (induction es rule: join_slash.induct)
  case (3 x y ys)
  then show ?case using parts_append [of "CHR ''/''" x "join_slash (y # ys)"] by (simp add: parts_whole)
qed (auto simp: parts_whole)

subsection \<open>Clean paths\<close>

text \<open>An element of a clean path.\<close>

definition plain :: "string \<Rightarrow> bool" where
  "plain e \<longleftrightarrow> e \<noteq> [] \<and> e \<noteq> ''.'' \<and> e \<noteq> ''..'' \<and> CHR ''/'' \<notin> set e"

definition elems :: "string \<Rightarrow> string list" where
  "elems p = filter (\<lambda>e. e \<noteq> [] \<and> e \<noteq> ''.'') (parts (CHR ''/'') p)"

lemma clean_elems_plain: "''..'' \<notin> set es \<Longrightarrow> clean_elems r out es = rev out @ filter (\<lambda>e. e \<noteq> [] \<and> e \<noteq> ''.'') es"
  by (induction r out es rule: clean_elems.induct) auto

lemma Clean_elems:
  assumes "''..'' \<notin> set (parts (CHR ''/'') p)"
  shows "Clean p = (if HasPrefix p ''/'' then ''/'' @ join_slash (elems p) else if elems p = [] then ''.'' else join_slash (elems p))"
proof -
  have "join_slash es = [] \<longleftrightarrow> es = []" if "\<forall>e \<in> set es. e \<noteq> []" for es
    using that by (cases es rule: join_slash.cases) auto
  then have "join_slash (elems p) = [] \<longleftrightarrow> elems p = []" by (simp add: elems_def)
  moreover have "elems [] = []" by (simp add: elems_def)
  ultimately show ?thesis using assms
    by (auto simp: Clean_def Split_parts clean_elems_plain elems_def [symmetric] HasPrefix_def Let_def)
qed

lemma elems_append: "elems (a @ ''/'' @ b) = elems a @ elems b"
  by (simp add: elems_def parts_append)

lemma elems_join: "\<forall>e \<in> set es. plain e \<Longrightarrow> elems (join_slash es) = es"
  by (cases "es = []") (auto simp: elems_def plain_def parts_join filter_id_conv)

lemma join_slash_append: "a \<noteq> [] \<Longrightarrow> b \<noteq> [] \<Longrightarrow> join_slash (a @ b) = join_slash a @ ''/'' @ join_slash b"
  by (induction a rule: join_slash.induct) (auto simp: neq_Nil_conv)

subsection \<open>Absolute paths\<close>

definition abs_path :: "string list \<Rightarrow> string" where
  "abs_path es = ''/'' @ join_slash es"

lemma parts_sublist: "e \<in> set (parts c s) \<Longrightarrow> sublist e s"
proof (induction s arbitrary: e)
  case (Cons x s)
  have hd: "prefix (hd (parts c s)) s" by (induction s) auto
  have tl: "sublist e s" if "e \<in> set (tl (parts c s))" by (rule Cons.IH [OF list.set_sel(2) [OF parts_nonempty that]])
  show ?case
  proof (cases "x = c")
    case True
    then show ?thesis using Cons by (auto simp: sublist_Cons_right)
  next
    case False
    then have "e = x # hd (parts c s) \<or> e \<in> set (tl (parts c s))" using Cons.prems by auto
    then show ?thesis
    proof
      assume "e = x # hd (parts c s)"
      then have "prefix e (x # s)" using hd by simp
      then show ?thesis by (rule prefix_imp_sublist)
    qed (use tl in \<open>auto simp: sublist_Cons_right\<close>)
  qed
qed simp

lemma no_dotdot: "\<not> Contains p ''..'' \<Longrightarrow> ''..'' \<notin> set (parts (CHR ''/'') p)"
  using parts_sublist by (auto simp: Contains_def)

lemma parts_abs: "\<forall>e \<in> set es. plain e \<Longrightarrow> parts (CHR ''/'') (abs_path es) = [] # (if es = [] then [[]] else es)"
  by (auto simp: abs_path_def parts_join plain_def)

lemma elems_abs: "\<forall>e \<in> set es. plain e \<Longrightarrow> elems (abs_path es) = es"
  by (auto simp: elems_def parts_abs plain_def filter_id_conv)

lemma plain_not_dotdot: "\<forall>e \<in> set es. plain e \<Longrightarrow> ''..'' \<notin> set es"
  by (auto simp: plain_def)

lemma Clean_abs:
  assumes "\<forall>e \<in> set es. plain e" and "''..'' \<notin> set (parts (CHR ''/'') p)"
  shows "Clean (abs_path es @ ''/'' @ p) = abs_path (es @ elems p)"
proof -
  let ?q = "abs_path es @ ''/'' @ p"
  have "parts (CHR ''/'') ?q = parts (CHR ''/'') (abs_path es) @ parts (CHR ''/'') p"
    using parts_append [of "CHR ''/''" "abs_path es" p] by simp
  then have "''..'' \<notin> set (parts (CHR ''/'') ?q)" using assms plain_not_dotdot [OF assms(1)] by (auto simp: parts_abs)
  moreover have "elems ?q = es @ elems p" using elems_append [of "abs_path es" p] elems_abs [OF assms(1)] by simp
  moreover have "HasPrefix ?q ''/''" by (simp add: HasPrefix_def abs_path_def)
  ultimately show ?thesis by (simp add: Clean_elems abs_path_def)
qed

lemma Join_abs:
  assumes "\<forall>e \<in> set es. plain e" and "p \<noteq> []" and "''..'' \<notin> set (parts (CHR ''/'') p)"
  shows "Join [abs_path es, p] = abs_path (es @ elems p)"
  using Clean_abs [OF assms(1,3)] assms(2) by (simp add: Join_def abs_path_def Let_def)

lemma Join_abs_elems:
  assumes "\<forall>e \<in> set es. plain e" and "\<forall>e \<in> set fs. plain e" and "fs \<noteq> []"
  shows "Join (abs_path es # fs) = abs_path (es @ fs)"
proof -
  have ne: "filter (\<lambda>e. e \<noteq> []) (abs_path es # fs) = abs_path es # fs" using assms(2) by (auto simp: plain_def abs_path_def filter_id_conv)
  have p: "parts (CHR ''/'') (join_slash fs) = fs" using assms(2,3) by (intro parts_join) (auto simp: plain_def)
  have "Clean (abs_path es @ ''/'' @ join_slash fs) = abs_path (es @ elems (join_slash fs))"
    using assms p plain_not_dotdot [OF assms(2)] by (intro Clean_abs) auto
  moreover have "join_slash (abs_path es # fs) = abs_path es @ ''/'' @ join_slash fs" using assms(3) by (cases fs) auto
  ultimately show ?thesis using ne elems_join [OF assms(2)] by (simp add: Join_def)
qed

text \<open>One path is in the directory of another.\<close>

definition inside :: "string \<Rightarrow> string \<Rightarrow> bool" where
  "inside dir p \<longleftrightarrow> prefix (dir @ ''/'') p"

lemma abs_inside: "es \<noteq> [] \<Longrightarrow> fs \<noteq> [] \<Longrightarrow> inside (abs_path es) (abs_path (es @ fs))"
  by (auto simp: inside_def abs_path_def join_slash_append)

end
