(* ===== verification/Gpu.thy ===== *)
theory Gpu
  imports Go_Paths Share "HOL-Library.Word"
begin

unbundle bit_operations_syntax

text \<open>
  Package \<^verbatim>\<open>internal/gpu\<close>: the devices, what each vendor's backend tells a job's process about its share
  (\<^verbatim>\<open>JobEnv\<close>, a Go map, here an association list with distinct keys), the compute unit masks of the AMD backend, and the
  readers of the vendors' tools. Running those tools, sending signals and reading sysfs are left out; JSON is.
  Seat ids are natural numbers (the scheduler's are never negative); a \<^verbatim>\<open>big.Int\<close> is an \<open>int\<close>.
\<close>

subsection \<open>Devices\<close>

record Device =
  dv_Index :: int
  dv_UUID :: string
  dv_Name :: string
  dv_Vendor :: string
  dv_MemMiB :: int
  dv_Units :: int
  dv_Chiplets :: int
  dv_Engines :: int

record Caps =
  cp_Concurrent :: bool
  cp_ComputeCap :: bool
  cp_MemoryCap :: bool
  cp_Checkpoint :: bool

record gpu_Slot =
  gs_Seats :: int
  gs_SeatsPerCard :: int
  gs_MemMiB :: int
  gs_ComputePercent :: int
  gs_SeatIDs :: "nat list"

type_synonym env = "(string \<times> string) list"

definition share_of :: "gpu_Slot \<Rightarrow> string" where
  "share_of s = Itoa (gs_Seats s) @ ''/'' @ Itoa (gs_SeatsPerCard s)"

subsection \<open>NVIDIA, Intel, and the pretended cards\<close>

definition mpsDirs :: "string \<Rightarrow> int \<Rightarrow> string \<times> string" where
  "mpsDirs stateDir idx = (let base = Join [stateDir, ''mps'', Itoa idx] in (Join [base, ''pipe''], Join [base, ''log'']))"

definition nvidia_JobEnv :: "Device \<Rightarrow> gpu_Slot \<Rightarrow> string \<Rightarrow> env" where
  "nvidia_JobEnv dev s stateDir = (case mpsDirs stateDir (dv_Index dev) of (pipe, logd) \<Rightarrow>
     [(''CUDA_VISIBLE_DEVICES'', Itoa (dv_Index dev)),
      (''CUDA_MPS_PIPE_DIRECTORY'', pipe),
      (''CUDA_MPS_LOG_DIRECTORY'', logd),
      (''CUDA_MPS_ACTIVE_THREAD_PERCENTAGE'', Itoa (gs_ComputePercent s)),
      (''CUDA_MPS_PINNED_DEVICE_MEM_LIMIT'', ''0='' @ Itoa (gs_MemMiB s) @ ''M''),
      (''GMUX_SHARE'', share_of s)])"

definition intel_JobEnv :: "Device \<Rightarrow> gpu_Slot \<Rightarrow> string \<Rightarrow> env" where
  "intel_JobEnv dev s stateDir = [(''ZE_AFFINITY_MASK'', Itoa (dv_Index dev)), (''GMUX_SHARE'', share_of s)]"

definition fake_JobEnv :: "Device \<Rightarrow> gpu_Slot \<Rightarrow> string \<Rightarrow> env" where
  "fake_JobEnv dev s stateDir =
     [(''GMUX_FAKE_GPU'', Itoa (dv_Index dev)),
      (''GMUX_COMPUTE_PERCENT'', Itoa (gs_ComputePercent s)),
      (''GMUX_MEM_LIMIT_MIB'', Itoa (gs_MemMiB s)),
      (''GMUX_SHARE'', share_of s)]"

text \<open>\<open>look\<close> says whether the tool \<^verbatim>\<open>cuda-checkpoint\<close> is there.\<close>

definition nvidia_Caps :: "bool \<Rightarrow> Caps" where
  "nvidia_Caps look = \<lparr>cp_Concurrent = True, cp_ComputeCap = True, cp_MemoryCap = True, cp_Checkpoint = look\<rparr>"

definition intel_Caps :: Caps where
  "intel_Caps = \<lparr>cp_Concurrent = True, cp_ComputeCap = False, cp_MemoryCap = False, cp_Checkpoint = False\<rparr>"

definition fake_Caps :: Caps where
  "fake_Caps = \<lparr>cp_Concurrent = True, cp_ComputeCap = True, cp_MemoryCap = True, cp_Checkpoint = True\<rparr>"

text \<open>\<^verbatim>\<open>parseNvidiaSMI\<close>: \<open>None\<close> is the error for a line it cannot read.\<close>

definition nvidia_line :: "string \<Rightarrow> Device option" where
  "nvidia_line line =
     (let f = Split line '',''
      in if length f < 4 then None
         else case (Atoi (TrimSpace (f ! 0)), Atoi (TrimSpace (f ! 3))) of
             (Some idx, Some m) \<Rightarrow>
               Some \<lparr>dv_Index = idx, dv_UUID = TrimSpace (f ! 1), dv_Name = TrimSpace (f ! 2), dv_Vendor = ''nvidia'',
                 dv_MemMiB = m, dv_Units = 0, dv_Chiplets = 0, dv_Engines = 0\<rparr>
           | _ \<Rightarrow> None)"

fun nvidia_lines :: "string list \<Rightarrow> Device list \<Rightarrow> Device list option" where
  "nvidia_lines [] devs = Some devs"
| "nvidia_lines (l # ls) devs =
     (if TrimSpace l = [] then nvidia_lines ls devs
      else case nvidia_line l of None \<Rightarrow> None | Some d \<Rightarrow> nvidia_lines ls (devs @ [d]))"

definition parseNvidiaSMI :: "string \<Rightarrow> Device list option" where
  "parseNvidiaSMI out = nvidia_lines (Split (TrimSpace out) (bytes [10])) []"

text \<open>\<^verbatim>\<open>NewFake\<close>; \<open>None\<close> is an error. \<open>uni\<close> is for \<^verbatim>\<open>share.ParseMem\<close>.\<close>

definition fake_dev :: "string \<Rightarrow> int \<Rightarrow> nat \<Rightarrow> Device" where
  "fake_dev name m i = \<lparr>dv_Index = int i, dv_UUID = ''FAKE-'' @ Itoa (int i), dv_Name = name, dv_Vendor = ''fake'',
     dv_MemMiB = m, dv_Units = 0, dv_Chiplets = 0, dv_Engines = 0\<rparr>"

definition fake_count :: "string \<Rightarrow> int \<times> string" where
  "fake_count part =
     (let i = Index part ''x''
      in if i > 0
         then (case Atoi (take (nat i) part) of Some n \<Rightarrow> (n, drop (nat i + 1) part) | None \<Rightarrow> (1, part))
         else (1, part))"

fun fake_parts :: "(string \<Rightarrow> string) \<Rightarrow> string list \<Rightarrow> Device list \<Rightarrow> Device list option" where
  "fake_parts uni [] devs = Some devs"
| "fake_parts uni (p # ps) devs =
     (let part = TrimSpace p
      in if part = [] then fake_parts uni ps devs
         else case fake_count part of (count, rest) \<Rightarrow>
           (case Cut rest '':'' of (name, memStr, ok) \<Rightarrow>
              if \<not> ok then None
              else case ParseMem uni memStr of
                  Inl _ \<Rightarrow> None
                | Inr m \<Rightarrow> fake_parts uni ps (devs @ map (\<lambda>k. fake_dev name m (length devs + k)) [0..<nat count])))"

definition NewFake :: "(string \<Rightarrow> string) \<Rightarrow> string \<Rightarrow> Device list option" where
  "NewFake uni spec =
     (case fake_parts uni (Split spec '','') [] of None \<Rightarrow> None | Some devs \<Rightarrow> if devs = [] then None else Some devs)"

subsection \<open>AMD\<close>

definition amd_Caps :: "Device list \<Rightarrow> string \<Rightarrow> Caps" where
  "amd_Caps devs shim =
     \<lparr>cp_Concurrent = True, cp_ComputeCap = (devs \<noteq> [] \<and> list_all (\<lambda>d. dv_Units d \<noteq> 0) devs), cp_MemoryCap = (shim \<noteq> []),
      cp_Checkpoint = False\<rparr>"

text \<open>\<^verbatim>\<open>parseRocminfoUnits\<close>: the loop over the lines, with the flag \<^verbatim>\<open>isGPU\<close>.\<close>

fun rocm_units :: "bool \<Rightarrow> string list \<Rightarrow> int list" where
  "rocm_units isGPU [] = []"
| "rocm_units isGPU (line # ls) =
     (let l = TrimSpace line
      in if HasPrefix l ''Device Type:'' then rocm_units (Contains l ''GPU'') ls
         else if isGPU \<and> HasPrefix l ''Compute Unit:'' then
           (case Atoi (TrimSpace (TrimPrefix l ''Compute Unit:'')) of Some n \<Rightarrow> [n] | None \<Rightarrow> []) @ rocm_units False ls
         else rocm_units isGPU ls)"

definition parseRocminfoUnits :: "string \<Rightarrow> int list" where
  "parseRocminfoUnits out = rocm_units False (Split out (bytes [10]))"

definition first_key :: "env \<Rightarrow> string list \<Rightarrow> string" where
  "first_key m keys =
     (case find (\<lambda>v. v \<noteq> []) (map (\<lambda>k. TrimSpace (case map_of m k of Some v \<Rightarrow> v | None \<Rightarrow> [])) keys) of
        Some v \<Rightarrow> v | None \<Rightarrow> [])"

text \<open>Setting bits of a \<^verbatim>\<open>big.Int\<close>, and printing it in hexadecimal.\<close>

definition set_bits_at :: "nat list \<Rightarrow> int \<Rightarrow> int" where
  "set_bits_at us m = fold (\<lambda>u x. set_bit u x) us m"

definition hex_char :: "nat \<Rightarrow> char" where
  "hex_char d = (if d < 10 then char_of (48 + d) else char_of (87 + d))"

fun hex_nat :: "nat \<Rightarrow> string" where
  "hex_nat n = (if n < 16 then [hex_char n] else hex_nat (n div 16) @ [hex_char (n mod 16)])"

declare hex_nat.simps [simp del]

text \<open>The rounds of its engine a job uses that holds the seats \<open>offs\<close> of the \<open>g\<close> seats of the engine.\<close>

definition engine_rounds :: "nat \<Rightarrow> nat \<Rightarrow> nat list \<Rightarrow> nat list" where
  "engine_rounds rounds g offs =
     (if length offs = g then [0..<rounds]
      else concat (map (\<lambda>ofs. filter (\<lambda>r. r mod g = ofs mod g \<and> ofs \<le> r) [0..<(rounds div g) * g]) offs))"

definition engine_mask :: "nat list \<Rightarrow> nat \<Rightarrow> nat \<Rightarrow> nat \<Rightarrow> nat \<Rightarrow> int" where
  "engine_mask seatIDs seats X E units =
     (let rounds = units div X div E; g = seats div E
      in fold (\<lambda>e m. let offs = map (\<lambda>s. s mod g) (filter (\<lambda>s. s div g = e) seatIDs)
                     in fold (\<lambda>r m. set_bits_at (map (\<lambda>x. (r * E + e) * X + x) [0..<X]) m) (engine_rounds rounds g offs) m)
           (remdups (map (\<lambda>s. s div g) seatIDs)) 0)"

definition block_mask :: "nat list \<Rightarrow> nat \<Rightarrow> nat \<Rightarrow> int" where
  "block_mask seatIDs seats units =
     fold (\<lambda>i m. set_bits_at [i * units div seats..<(i + 1) * units div seats] m) seatIDs 0"

definition seat_mask :: "nat list \<Rightarrow> int \<Rightarrow> Device \<Rightarrow> int \<Rightarrow> int" where
  "seat_mask seatIDs seats dev n =
     (let units = dv_Units dev; X = dv_Chiplets dev; E = dv_Engines dev
      in if X > 0 \<and> E > 0 \<and> units mod X = 0 \<and> seatIDs \<noteq> [] \<and> seats \<ge> E \<and> seats mod E = 0
         then engine_mask seatIDs (nat seats) (nat X) (nat E) (nat units)
         else if seatIDs \<noteq> [] \<and> seats > 0 then block_mask seatIDs (nat seats) (nat units)
         else push_bit (nat (if n < 1 then 1 else n)) 1 - 1)"

definition seatCUMask :: "nat list \<Rightarrow> int \<Rightarrow> Device \<Rightarrow> int \<Rightarrow> string" where
  "seatCUMask seatIDs seats dev n =
     (if dv_Units dev \<le> 0 \<or> n \<ge> dv_Units dev then []
      else if int (length seatIDs) \<ge> seats \<and> seats > 0 then []
      else let m = seat_mask seatIDs seats dev n in if m = 0 then [] else ''0x'' @ hex_nat (nat m))"

text \<open>\<open>uni\<close> is \<^verbatim>\<open>strings.ToLower\<close> on a UUID that is not ASCII.\<close>

definition amd_JobEnv :: "(string \<Rightarrow> string) \<Rightarrow> string \<Rightarrow> Device \<Rightarrow> gpu_Slot \<Rightarrow> string \<Rightarrow> env" where
  "amd_JobEnv uni shim dev s stateDir =
     (let u = TrimPrefix (ToLower uni (dv_UUID dev)) ''0x'';
          sel = (if u \<noteq> [] then ''GPU-'' @ u else Itoa (dv_Index dev));
          n = f64_to_int (f64_ceil (f64_div (f64_mul (f64_of_int (dv_Units dev)) (f64_of_int (gs_ComputePercent s))) (Fin 100)));
          m = seatCUMask (gs_SeatIDs s) (gs_SeatsPerCard s) dev n
      in [(''ROCR_VISIBLE_DEVICES'', sel),
          (''HIP_VISIBLE_DEVICES'', ''0''),
          (''GMUX_MEM_LIMIT_MIB'', Itoa (gs_MemMiB s)),
          (''GMUX_SHARE'', share_of s)]
         @ (if dv_Units dev > 0 \<and> gs_ComputePercent s < 100 \<and> m \<noteq> [] then [(''HSA_CU_MASK'', ''0:'' @ m)] else [])
         @ (if shim \<noteq> [] then [(''LD_PRELOAD'', shim)] else []))"

end
