(* ===== verification/Gpu_Properties.thy ===== *)
theory Gpu_Properties
  imports Gpu
begin

text \<open>
  The compute unit masks of \<^verbatim>\<open>amd.go\<close>. Two jobs with different seats of a card get masks without a common unit, and no mask names a
  unit the card does not have. \<open>mask_val\<close> reads a printed mask back.
\<close>

subsection \<open>Reading a mask back\<close>

definition hex_val :: "char \<Rightarrow> nat" where
  "hex_val c = (if is_digit c then digit c else byte c - 87)"

definition mask_val :: "string \<Rightarrow> nat" where
  "mask_val s = foldl (\<lambda>v c. 16 * v + hex_val c) 0 (drop 2 s)"

lemma hex_val_char: "d < 16 \<Longrightarrow> hex_val (hex_char d) = d"
  by (auto simp: hex_val_def hex_char_def is_digit_def digit_def byte_def)

lemma hex_nat_val: "foldl (\<lambda>v c. 16 * v + hex_val c) 0 (hex_nat n) = n"
proof (induction n rule: hex_nat.induct)
  case (1 n)
  show ?case
  proof (cases "n < 16")
    case True
    then show ?thesis by (subst hex_nat.simps) (simp add: hex_val_char)
  next
    case False
    with 1 show ?thesis by (subst hex_nat.simps) (simp add: hex_val_char)
  qed
qed

subsection \<open>Which units a mask has\<close>

lemma bit_set_bits_at: "bit (set_bits_at us m) i \<longleftrightarrow> i \<in> set us \<or> bit m i"
  unfolding set_bits_at_def
  by (induction us arbitrary: m) (auto simp: bit_set_bit_iff)

lemma bit_fold_set:
  "bit (fold (\<lambda>r m. set_bits_at (f r) m) rs m) i \<longleftrightarrow> (\<exists>r \<in> set rs. i \<in> set (f r)) \<or> bit m i"
  by (induction rs arbitrary: m) (auto simp: bit_set_bits_at)

lemma bit_block_mask:
  "bit (block_mask ids seats units) u \<longleftrightarrow> (\<exists>i \<in> set ids. i * units div seats \<le> u \<and> u < (i + 1) * units div seats)"
  unfolding block_mask_def by (auto simp: bit_fold_set)

definition engine_seats :: "nat list \<Rightarrow> nat \<Rightarrow> nat \<Rightarrow> nat list" where
  "engine_seats ids g e = map (\<lambda>s. s mod g) (filter (\<lambda>s. s div g = e) ids)"

lemma bit_engine_fold:
  "bit (fold (\<lambda>e m. fold (\<lambda>r m. set_bits_at (f e r) m) (rs e) m) es m) i \<longleftrightarrow>
     (\<exists>e \<in> set es. \<exists>r \<in> set (rs e). i \<in> set (f e r)) \<or> bit m i"
  by (induction es arbitrary: m) (auto simp: bit_fold_set)

lemma round_units: "i \<in> set (map (\<lambda>x. k + x) [0..<X]) \<longleftrightarrow> (\<exists>x < X. i = k + x)" for k i X :: nat
  by (auto simp: le_iff_add)

lemma bit_engine_mask:
  "bit (engine_mask ids seats X E units) i \<longleftrightarrow>
     (\<exists>s \<in> set ids. \<exists>r \<in> set (engine_rounds (units div X div E) (seats div E) (engine_seats ids (seats div E) (s div (seats div E)))).
        \<exists>x < X. i = (r * E + s div (seats div E)) * X + x)"
  unfolding engine_mask_def Let_def bit_engine_fold engine_seats_def [symmetric] round_units by auto

lemma engine_rounds_in:
  "r \<in> set (engine_rounds rounds g offs) \<Longrightarrow> 0 < g \<Longrightarrow>
     r < rounds \<and> (length offs = g \<or> (\<exists>ofs \<in> set offs. r mod g = ofs mod g))"
  by (auto simp: engine_rounds_def split: if_splits) (meson div_times_less_eq_dividend order_less_le_trans)

text \<open>Seats of different jobs share no round of an engine.\<close>

lemma engine_seats_mem:
  "ofs \<in> set (engine_seats ids g e) \<longleftrightarrow> (\<exists>s \<in> set ids. s div g = e \<and> ofs = s mod g)"
  by (auto simp: engine_seats_def)

lemma engine_seats_full:
  assumes "distinct ids" and "0 < g" and "length (engine_seats ids g e) = g" and "o' < g"
  shows "e * g + o' \<in> set ids"
proof -
  have "inj_on (\<lambda>s. s mod g) (set (filter (\<lambda>s. s div g = e) ids))"
    by (rule inj_onI) (auto, metis div_mult_mod_eq)
  then have "distinct (engine_seats ids g e)" using assms(1) by (simp add: engine_seats_def distinct_map)
  then have "card (set (engine_seats ids g e)) = g" using assms(3) by (simp add: distinct_card)
  moreover have "set (engine_seats ids g e) \<subseteq> {..<g}" using assms(2) by (auto simp: engine_seats_mem)
  ultimately have "set (engine_seats ids g e) = {..<g}" by (intro card_subset_eq) auto
  then have "o' \<in> set (engine_seats ids g e)" using assms(4) by simp
  then obtain s where "s \<in> set ids" "s div g = e" "o' = s mod g" by (auto simp: engine_seats_mem)
  then show ?thesis by (metis div_mult_mod_eq mult.commute)
qed

lemma engine_disjoint:
  assumes d: "distinct A" "distinct B" "set A \<inter> set B = {}" and g: "0 < g"
    and a: "s \<in> set A" "r \<in> set (engine_rounds rounds g (engine_seats A g (s div g)))"
    and b: "t \<in> set B" "r \<in> set (engine_rounds rounds g (engine_seats B g (t div g)))"
    and e: "s div g = t div g"
  shows False
proof -
  have own: "\<not> length (engine_seats C g (t div g)) = g" if "distinct C" "u \<in> set D" "u div g = t div g" "set C \<inter> set D = {}" for C D u
  proof
    assume "length (engine_seats C g (t div g)) = g"
    from engine_seats_full [OF that(1) g this, of "u mod g"] g have "(t div g) * g + u mod g \<in> set C" by simp
    then have "u \<in> set C" using that(3) by (metis div_mult_mod_eq)
    then show False using that(2,4) by auto
  qed
  have "\<not> length (engine_seats A g (t div g)) = g" using own [OF d(1) b(1)] d(3) by simp
  then obtain s' where s': "s' \<in> set A" "s' div g = t div g" "r mod g = s' mod g"
    using engine_rounds_in [OF a(2) g] e g by (auto simp: engine_seats_mem)
  have "\<not> length (engine_seats B g (t div g)) = g" using own [OF d(2) a(1)] e d(3) by (auto simp: Int_commute)
  then obtain t' where t': "t' \<in> set B" "t' div g = t div g" "r mod g = t' mod g"
    using engine_rounds_in [OF b(2) g] g by (auto simp: engine_seats_mem)
  have "s' = t'" using s' t' by (metis div_mult_mod_eq)
  then show False using s' t' d(3) by auto
qed

text \<open>A unit belongs to one engine, one round and one chiplet.\<close>

lemma unit_unique:
  fixes r e x :: nat
  assumes "(r * E + e) * X + x = (r' * E + e') * X + x'" and "x < X" "x' < X" "e < E" "e' < E"
  shows "r = r' \<and> e = e'"
proof -
  have "r * E + e = ((r * E + e) * X + x) div X" using assms(2) by simp
  also have "\<dots> = r' * E + e'" using assms(1,3) by simp
  finally have eq: "r * E + e = r' * E + e'" .
  have "r = (r * E + e) div E" using assms(4) by simp
  also have "\<dots> = r'" using eq assms(5) by simp
  finally show ?thesis using eq by simp
qed

lemma engine_lt:
  fixes s seats E :: nat
  assumes "s < seats" and "seats mod E = 0"
  shows "s div (seats div E) < E"
proof (rule less_mult_imp_div_less)
  show "s < E * (seats div E)" using assms by (metis dvd_imp_mod_0 dvd_mult_div_cancel mod_0_imp_dvd)
qed

lemma engine_masks_disjoint:
  assumes d: "distinct A" "distinct B" "set A \<inter> set B = {}" "set A \<union> set B \<subseteq> {..<seats}"
    and E: "0 < E" "E \<le> seats" "seats mod E = 0"
  shows "\<not> (bit (engine_mask A seats X E units) i \<and> bit (engine_mask B seats X E units) i)"
proof
  let ?g = "seats div E"
  have g: "0 < ?g" using E by (simp add: div_greater_zero_iff)
  assume "bit (engine_mask A seats X E units) i \<and> bit (engine_mask B seats X E units) i"
  then obtain s r x t r' x' where
      a: "s \<in> set A" "r \<in> set (engine_rounds (units div X div E) ?g (engine_seats A ?g (s div ?g)))" "x < X" "i = (r * E + s div ?g) * X + x"
    and b: "t \<in> set B" "r' \<in> set (engine_rounds (units div X div E) ?g (engine_seats B ?g (t div ?g)))" "x' < X" "i = (r' * E + t div ?g) * X + x'"
    unfolding bit_engine_mask by blast
  have "s < seats" "t < seats" using d(4) a(1) b(1) by auto
  then have "r = r' \<and> s div ?g = t div ?g"
    using unit_unique [of r E "s div ?g" X x r' "t div ?g" x'] a b E engine_lt [of s seats E] engine_lt [of t seats E] by simp
  then show False using engine_disjoint [OF d(1-3) g a(1,2) b(1)] b(2) by auto
qed

lemma block_masks_disjoint:
  assumes "set A \<inter> set B = {}"
  shows "\<not> (bit (block_mask A seats units) u \<and> bit (block_mask B seats units) u)"
proof
  have mono: "(i + 1) * units div seats \<le> j * units div seats" if "i < j" for i j
    using that by (intro div_le_mono mult_le_mono1) simp
  assume "bit (block_mask A seats units) u \<and> bit (block_mask B seats units) u"
  then obtain i j where "i \<in> set A" "i * units div seats \<le> u" "u < (i + 1) * units div seats"
      "j \<in> set B" "j * units div seats \<le> u" "u < (j + 1) * units div seats"
    unfolding bit_block_mask by blast
  moreover from this assms have "i < j \<or> j < i" by (metis disjoint_iff linorder_neqE_nat)
  ultimately show False using mono [of i j] mono [of j i] by linarith
qed

lemma engine_mask_bound:
  assumes "set A \<subseteq> {..<seats}" and "0 < E" "E \<le> seats" "seats mod E = 0" and "bit (engine_mask A seats X E units) i"
  shows "i < units"
proof -
  let ?g = "seats div E" and ?R = "units div X div E"
  have g: "0 < ?g" using assms by (simp add: div_greater_zero_iff)
  from assms(5) obtain s r x where a: "s \<in> set A" "r \<in> set (engine_rounds ?R ?g (engine_seats A ?g (s div ?g)))" "x < X"
      "i = (r * E + s div ?g) * X + x" unfolding bit_engine_mask by blast
  have "s div ?g < E" using engine_lt [of s seats E] assms a(1) by auto
  moreover have "r < ?R" using engine_rounds_in [OF a(2) g] by simp
  ultimately have "r * E + s div ?g < ?R * E"
    using mult_le_mono1 [of "Suc r" ?R E] by simp
  then have "(r * E + s div ?g + 1) * X \<le> ?R * E * X" by (intro mult_le_mono1) simp
  also have "\<dots> \<le> units div X * X" by (simp add: mult_le_mono1)
  also have "\<dots> \<le> units" by simp
  finally show ?thesis using a(3,4) by simp
qed

lemma block_mask_bound:
  assumes "set A \<subseteq> {..<seats}" and "bit (block_mask A seats units) u"
  shows "u < units"
proof -
  obtain i where i: "i \<in> set A" "u < (i + 1) * units div seats" using assms(2) unfolding bit_block_mask by blast
  then have "i + 1 \<le> seats" "0 < seats" using assms(1) by auto
  then have "(i + 1) * units div seats \<le> seats * units div seats" by (intro div_le_mono mult_le_mono1)
  then show ?thesis using i(2) \<open>0 < seats\<close> by simp
qed

subsection \<open>The printed masks\<close>

lemma set_bits_at_nonneg: "0 \<le> m \<Longrightarrow> 0 \<le> set_bits_at us m"
  unfolding set_bits_at_def by (induction us arbitrary: m) auto

lemma fold_nonneg: "(\<And>x m. 0 \<le> m \<Longrightarrow> 0 \<le> f x m) \<Longrightarrow> 0 \<le> m \<Longrightarrow> (0 :: int) \<le> fold f xs m"
  by (induction xs arbitrary: m) auto

lemma masks_nonneg: "0 \<le> engine_mask ids seats X E units" "0 \<le> block_mask ids seats units"
  unfolding engine_mask_def block_mask_def Let_def by (intro fold_nonneg set_bits_at_nonneg; simp)+

definition seats_of :: "nat list \<Rightarrow> int \<Rightarrow> bool" where
  "seats_of ids seats \<longleftrightarrow> ids \<noteq> [] \<and> distinct ids \<and> set ids \<subseteq> {..<nat seats}"

lemma seat_mask_bits:
  assumes "seats_of ids seats"
  shows "0 \<le> seat_mask ids seats dev n" and "bit (seat_mask ids seats dev n) i \<Longrightarrow> i < nat (dv_Units dev)"
proof -
  have s: "0 < seats" using assms by (cases ids) (auto simp: seats_of_def)
  show "0 \<le> seat_mask ids seats dev n"
    using s assms masks_nonneg by (auto simp: seat_mask_def Let_def seats_of_def)
  show "i < nat (dv_Units dev)" if "bit (seat_mask ids seats dev n) i"
    using that s assms engine_mask_bound [of ids "nat seats" "nat (dv_Engines dev)" "nat (dv_Chiplets dev)" "nat (dv_Units dev)" i]
      block_mask_bound [of ids "nat seats" "nat (dv_Units dev)" i]
    by (auto simp: seat_mask_def Let_def seats_of_def nat_mod_distrib [symmetric] split: if_splits)
qed

lemma seat_masks_disjoint:
  assumes "seats_of A seats" and "seats_of B seats" and "set A \<inter> set B = {}"
  shows "\<not> (bit (seat_mask A seats dev n) i \<and> bit (seat_mask B seats dev n') i)"
proof -
  have s: "0 < seats" using assms(1) by (cases A) (auto simp: seats_of_def)
  show ?thesis
    using s assms engine_masks_disjoint [of A B "nat seats" "nat (dv_Engines dev)" "nat (dv_Chiplets dev)" "nat (dv_Units dev)" i]
      block_masks_disjoint [of A B "nat seats" "nat (dv_Units dev)" i]
    by (auto simp: seat_mask_def Let_def seats_of_def nat_mod_distrib [symmetric])
qed

lemma seatCUMask_val:
  "seatCUMask ids seats dev n \<noteq> [] \<Longrightarrow> mask_val (seatCUMask ids seats dev n) = nat (seat_mask ids seats dev n)"
  by (auto simp: seatCUMask_def mask_val_def Let_def hex_nat_val split: if_splits)

text \<open>
  C26: two jobs that hold different seats of an AMD card and are both masked get masks with no compute unit in common, on cards whose engines
  the seats divide and on all others; and no mask names a unit the card does not have.
\<close>

theorem CU_masks_disjoint:
  assumes "seats_of A seats" and "seats_of B seats" and "set A \<inter> set B = {}"
    and "seatCUMask A seats dev n \<noteq> []" and "seatCUMask B seats dev n' \<noteq> []"
  shows "mask_val (seatCUMask A seats dev n) AND mask_val (seatCUMask B seats dev n') = 0 \<and>
    mask_val (seatCUMask A seats dev n) < 2 ^ nat (dv_Units dev)"
proof -
  let ?a = "nat (seat_mask A seats dev n)" and ?b = "nat (seat_mask B seats dev n')"
  have "?a AND ?b = 0"
    using seat_masks_disjoint [OF assms(1-3)] by (intro bit_eqI) (auto simp: bit_and_iff bit_nat_iff)
  moreover have "take_bit (nat (dv_Units dev)) ?a = ?a"
    using seat_mask_bits(2) [OF assms(1)] by (intro bit_eqI) (auto simp: bit_take_bit_iff bit_nat_iff)
  then have "?a < 2 ^ nat (dv_Units dev)" by (metis take_bit_nat_less_exp)
  ultimately show ?thesis by (simp add: seatCUMask_val [OF assms(4)] seatCUMask_val [OF assms(5)])
qed

definition demo_dev :: "int \<Rightarrow> int \<Rightarrow> int \<Rightarrow> Device" where
  "demo_dev units X E = \<lparr>dv_Index = 0, dv_UUID = [], dv_Name = [], dv_Vendor = ''amd'', dv_MemMiB = 0,
     dv_Units = units, dv_Chiplets = X, dv_Engines = E\<rparr>"

theorem CU_masks_disjoint_witness:
  "seatCUMask [0] 2 (demo_dev 4 1 1) 2 = ''0x5'' \<and>
   mask_val (seatCUMask [0] 2 (demo_dev 4 1 1) 2) AND mask_val (seatCUMask [1] 2 (demo_dev 4 1 1) 2) = 0"
proof -
  have "seatCUMask [0] 2 (demo_dev 4 1 1) 2 = ''0x5''" "seatCUMask [1] 2 (demo_dev 4 1 1) 2 = ''0xa''" by code_simp+
  then show ?thesis using CU_masks_disjoint [of "[0]" 2 "[1]" "demo_dev 4 1 1" 2 2] by (simp add: seats_of_def)
qed

text \<open>
  A job whose seats come out as no compute unit at all is not masked: \<^verbatim>\<open>seatCUMask\<close> returns the empty string, which its caller
  reads as the whole card. It happens on a card with fewer units than seats, and on one whose engines have fewer rounds than seats.
\<close>

theorem empty_mask_is_no_mask:
  "seatCUMask [0] 8 (demo_dev 3 0 0) 1 = [] \<and> seatCUMask [0] 8 (demo_dev 6 1 2) 1 = []"
  by code_simp

end
