(* ===== verification/Accounting.thy ===== *)
theory Accounting
  imports Gmux_Prelude Go_Strings
begin

text \<open>
  Package \<^verbatim>\<open>internal/accounting\<close>: the ledger of who held which share of which card, and when. A time is a number of nanoseconds.
  The file is the list of its lines, each the interval it encodes (\<open>None\<close> for a line that is not one), so the encoding as JSON and back is
  not modelled, and lines are taken to be shorter than the reader's limit of 1 MiB (a longer one makes every later report fail); whether the file can be opened for writing is a parameter of \<^verbatim>\<open>End\<close>. Sums are in Go's \<^verbatim>\<open>float64\<close>.
\<close>

record Interval =
  iv_Job :: string
  iv_Name :: string
  iv_Owner :: string
  iv_Vendor :: string
  iv_Card :: int
  iv_CardName :: string
  iv_Share :: float64
  iv_MemMiB :: int
  iv_Start :: int
  iv_End :: int

record Ledger =
  lg_open :: "(string, Interval list) gomap"
  lg_file :: "Interval option list"

definition Open_ledger :: "Interval option list \<Rightarrow> Ledger" where
  "Open_ledger lines = \<lparr>lg_open = [], lg_file = lines\<rparr>"

definition open_of :: "Ledger \<Rightarrow> string \<Rightarrow> Interval list" where
  "open_of l job = (case map_of (lg_open l) job of Some ivs \<Rightarrow> ivs | None \<Rightarrow> [])"

definition Begin_one :: "Interval \<Rightarrow> Ledger \<Rightarrow> Ledger" where
  "Begin_one iv l = l\<lparr>lg_open := AList.update (iv_Job iv) (open_of l (iv_Job iv) @ [iv]) (lg_open l)\<rparr>"

definition Begin :: "Interval list \<Rightarrow> Ledger \<Rightarrow> Ledger" where
  "Begin ivs l = fold Begin_one ivs l"

definition close_at :: "int \<Rightarrow> Interval \<Rightarrow> Interval" where
  "close_at t iv = iv\<lparr>iv_End := if t < iv_Start iv then iv_Start iv else t\<rparr>"

text \<open>\<open>writable\<close> is whether the file could be opened; the result is whether there was no error.\<close>

definition End :: "string \<Rightarrow> int \<Rightarrow> bool \<Rightarrow> Ledger \<Rightarrow> Ledger \<times> bool" where
  "End job t writable l =
     (let ivs = open_of l job; l' = l\<lparr>lg_open := AList.delete job (lg_open l)\<rparr>
      in if ivs = [] then (l', True)
         else if \<not> writable then (l', False)
         else (l'\<lparr>lg_file := lg_file l' @ map (\<lambda>iv. Some (close_at t iv)) ivs\<rparr>, True))"

subsection \<open>Reports\<close>

record Row =
  rw_Key :: string
  rw_Seconds :: float64
  rw_ShareSeconds :: float64
  rw_GPUHours :: float64
  rw_MemGiBHours :: float64

text \<open>\<open>None\<close> is the error for a grouping there is not.\<close>

definition keyOf :: "Interval \<Rightarrow> string \<Rightarrow> string option" where
  "keyOf iv by_key =
     (if by_key = [] \<or> by_key = ''job'' then Some (if iv_Name iv \<noteq> [] then iv_Name iv else iv_Job iv)
      else if by_key = ''owner'' then Some (if iv_Owner iv = [] then ''(none)'' else iv_Owner iv)
      else if by_key = ''card'' then Some (iv_Vendor iv @ '' '' @ Itoa (iv_Card iv) @ '' '' @ iv_CardName iv)
      else if by_key = ''vendor'' then Some (iv_Vendor iv)
      else None)"

definition read_ledger :: "Ledger \<Rightarrow> Interval list" where
  "read_ledger l = List.map_filter (\<lambda>x. x) (lg_file l)"

text \<open>\<^verbatim>\<open>Duration.Seconds\<close>: whole seconds and the rest, each as a \<^verbatim>\<open>float64\<close>.\<close>

definition seconds :: "int \<Rightarrow> float64" where
  "seconds d = f64_add (f64_of_int (d div 10 ^ 9)) (f64_div (f64_of_int (d mod 10 ^ 9)) (Fin (10 ^ 9)))"

text \<open>The part of an interval inside the window, if there is any.\<close>

definition clip :: "int \<Rightarrow> int \<Rightarrow> Interval \<Rightarrow> int option" where
  "clip since until iv =
     (let s = (if iv_Start iv < since then since else iv_Start iv); e = (if iv_End iv > until then until else iv_End iv)
      in if e > s then Some (e - s) else None)"

definition add_to_row :: "int \<Rightarrow> Interval \<Rightarrow> Row \<Rightarrow> Row" where
  "add_to_row d iv r =
     (let sec = seconds d
      in r\<lparr>rw_Seconds := f64_add (rw_Seconds r) sec,
           rw_ShareSeconds := f64_add (rw_ShareSeconds r) (f64_mul sec (iv_Share iv)),
           rw_GPUHours := f64_add (rw_GPUHours r) (f64_div (f64_mul sec (iv_Share iv)) (Fin 3600)),
           rw_MemGiBHours := f64_add (rw_MemGiBHours r)
             (f64_div (f64_div (f64_mul sec (f64_of_int (iv_MemMiB iv))) (Fin 1024)) (Fin 3600))\<rparr>)"

definition new_row :: "string \<Rightarrow> Row" where
  "new_row k = \<lparr>rw_Key = k, rw_Seconds = Fin 0, rw_ShareSeconds = Fin 0, rw_GPUHours = Fin 0, rw_MemGiBHours = Fin 0\<rparr>"

text \<open>The loop of \<^verbatim>\<open>Usage\<close> over the intervals; the rows are a map from keys.\<close>

fun usage_rows :: "int \<Rightarrow> int \<Rightarrow> string \<Rightarrow> Interval list \<Rightarrow> (string, Row) gomap \<Rightarrow> (string, Row) gomap option" where
  "usage_rows since until by_key [] rows = Some rows"
| "usage_rows since until by_key (iv # ivs) rows =
     (case clip since until iv of
        None \<Rightarrow> usage_rows since until by_key ivs rows
      | Some d \<Rightarrow>
          (case keyOf iv by_key of
             None \<Rightarrow> None
           | Some k \<Rightarrow>
               let r = (case map_of rows k of Some r \<Rightarrow> r | None \<Rightarrow> new_row k)
               in usage_rows since until by_key ivs (AList.update k (add_to_row d iv r) rows)))"

definition open_intervals :: "int \<Rightarrow> Ledger \<Rightarrow> Interval list" where
  "open_intervals until l = concat (map (\<lambda>e. map (\<lambda>iv. iv\<lparr>iv_End := until\<rparr>) (snd e)) (lg_open l))"

text \<open>The sort: a row goes before those with fewer share seconds (\<open>sort.Slice\<close>, here insertion).\<close>

fun insert_row :: "Row \<Rightarrow> Row list \<Rightarrow> Row list" where
  "insert_row r [] = [r]"
| "insert_row r (x # xs) = (if f64_lt (rw_ShareSeconds x) (rw_ShareSeconds r) then r # x # xs else x # insert_row r xs)"

definition blank :: Interval where
  "blank = \<lparr>iv_Job = [], iv_Name = [], iv_Owner = [], iv_Vendor = [], iv_Card = 0, iv_CardName = [], iv_Share = Fin 0,
     iv_MemMiB = 0, iv_Start = 0, iv_End = 0\<rparr>"

definition Usage :: "int \<Rightarrow> int \<Rightarrow> string \<Rightarrow> Ledger \<Rightarrow> Row list option" where
  "Usage since until by_key l =
     (if keyOf blank by_key = None then None
      else case usage_rows since until by_key (read_ledger l @ open_intervals until l) [] of
          None \<Rightarrow> None
        | Some rows \<Rightarrow> Some (foldr insert_row (map snd rows) []))"

subsection \<open>Nothing is lost, nothing is counted twice\<close>

text \<open>What an interval is, apart from its end.\<close>

definition stretch :: "Interval \<Rightarrow> Interval" where
  "stretch iv = iv\<lparr>iv_End := 0\<rparr>"

definition recorded :: "Ledger \<Rightarrow> Interval multiset" where
  "recorded l = mset (map stretch (read_ledger l)) + mset (map stretch (concat (map snd (lg_open l))))"

definition ledger_ok :: "Ledger \<Rightarrow> bool" where
  "ledger_ok l \<longleftrightarrow> distinct (map fst (lg_open l)) \<and>
     (\<forall>e \<in> set (lg_open l). \<forall>iv \<in> set (snd e). iv_Job iv = fst e) \<and>
     (\<forall>iv. Some iv \<in> set (lg_file l) \<longrightarrow> iv_Start iv \<le> iv_End iv)"

lemma concat_update:
  assumes "distinct (map fst al)"
  shows "mset (concat (map snd (AList.update k v al))) = mset v + mset (concat (map snd (AList.delete k al)))"
proof -
  have "mset (concat (map snd (AList.update k v al))) = (\<Sum>e \<in># mset (AList.update k v al). mset (snd e))"
    by (simp add: mset_concat sum_mset_sum_list [symmetric] image_mset.compositionality comp_def)
  also have "\<dots> = mset v + (\<Sum>e \<in># mset (AList.delete k al). mset (snd e))"
    by (simp add: mset_AList_update [OF assms])
  also have "(\<Sum>e \<in># mset (AList.delete k al). mset (snd e)) = mset (concat (map snd (AList.delete k al)))"
    by (simp add: mset_concat sum_mset_sum_list [symmetric] image_mset.compositionality comp_def)
  finally show ?thesis .
qed

lemma concat_delete:
  assumes "distinct (map fst (lg_open l))"
  shows "mset (concat (map snd (lg_open l))) = mset (open_of l k) + mset (concat (map snd (AList.delete k (lg_open l))))"
  using assms unfolding open_of_def
proof (induction "lg_open l" arbitrary: l)
  case (Cons e al)
  let ?l = "l\<lparr>lg_open := al\<rparr>"
  have al: "lg_open l = e # al" using Cons(2) by simp
  have IH: "mset (concat (map snd al)) = mset (case map_of al k of Some ivs \<Rightarrow> ivs | None \<Rightarrow> []) + mset (concat (map snd (AList.delete k al)))"
    using Cons(1) [of ?l] Cons(3) al by simp
  show ?case
  proof (cases "fst e = k")
    case True
    then have "k \<notin> fst ` set al" using Cons(3) al by auto
    then have "AList.delete k al = al" by (auto simp: delete_filter filter_id_conv image_iff)
    then show ?thesis using True al by (cases e) (simp add: delete_filter)
  next
    case False
    then show ?thesis using IH al by (cases e) (simp add: delete_filter ac_simps)
  qed
qed simp

lemma Begin_one_keeps:
  assumes "ledger_ok l"
  shows "ledger_ok (Begin_one iv l) \<and> recorded (Begin_one iv l) = add_mset (stretch iv) (recorded l)"
proof -
  have d: "distinct (map fst (lg_open l))" using assms by (simp add: ledger_ok_def)
  let ?k = "iv_Job iv"
  have own: "\<forall>x \<in> set (open_of l ?k). iv_Job x = ?k"
    using assms by (auto simp: ledger_ok_def open_of_def split: option.splits dest!: map_of_SomeD)
  have "ledger_ok (Begin_one iv l)"
    using assms d own by (auto simp: ledger_ok_def Begin_one_def in_update update_keys)
  moreover have "recorded (Begin_one iv l) = add_mset (stretch iv) (recorded l)"
    using concat_update [OF d, of ?k "open_of l ?k @ [iv]"] concat_delete [OF d, of ?k]
    by (simp add: recorded_def Begin_one_def read_ledger_def)
  ultimately show ?thesis by blast
qed

lemma Begin_keeps:
  "ledger_ok l \<Longrightarrow> ledger_ok (Begin ivs l) \<and> recorded (Begin ivs l) = mset (map stretch ivs) + recorded l"
  unfolding Begin_def
  by (induction ivs arbitrary: l) (auto simp: Begin_one_keeps)

lemma close_at_simps [simp]: "stretch (close_at t iv) = stretch iv" "iv_Start (close_at t iv) \<le> iv_End (close_at t iv)"
  by (simp_all add: stretch_def close_at_def)

lemma map_filter_id_append: "List.map_filter (\<lambda>x. x) (xs @ map Some ys) = List.map_filter (\<lambda>x. x) xs @ ys"
  by (induction xs) (auto simp: map_filter_simps split: option.splits, induction ys, auto simp: map_filter_simps)

lemma End_keeps:
  assumes "ledger_ok l"
  shows "ledger_ok (fst (End job t True l)) \<and> recorded (fst (End job t True l)) = recorded l \<and> open_of (fst (End job t True l)) job = []"
proof -
  have d: "distinct (map fst (lg_open l))" using assms by (simp add: ledger_ok_def)
  let ?ivs = "open_of l job"
  have rd: "read_ledger (l\<lparr>lg_open := x, lg_file := lg_file l @ map (\<lambda>iv. Some (close_at t iv)) ?ivs\<rparr>) = read_ledger l @ map (close_at t) ?ivs" for x
    using map_filter_id_append [of "lg_file l" "map (close_at t) ?ivs"] by (simp add: read_ledger_def comp_def)
  have "recorded (fst (End job t True l)) = recorded l"
    using concat_delete [OF d, of job] rd [of "AList.delete job (lg_open l)"]
    by (auto simp: End_def Let_def recorded_def comp_def) (simp add: read_ledger_def image_mset.compositionality comp_def)
  moreover have "ledger_ok (fst (End job t True l))"
    using assms d by (auto simp: End_def Let_def ledger_ok_def delete_filter distinct_keys_filter)
  moreover have "open_of (fst (End job t True l)) job = []" by (simp add: End_def Let_def open_of_def AList.delete_conv')
  ultimately show ?thesis by blast
qed

subsection \<open>The ledger over a run of the daemon\<close>

datatype ledger_op = DoBegin "Interval list" | DoEnd string int

fun ledger_step :: "ledger_op \<Rightarrow> Ledger \<Rightarrow> Ledger" where
  "ledger_step (DoBegin ivs) l = Begin ivs l"
| "ledger_step (DoEnd job t) l = fst (End job t True l)"

fun begun :: "ledger_op \<Rightarrow> Interval list" where
  "begun (DoBegin ivs) = ivs"
| "begun (DoEnd job t) = []"

interpretation ledger: invariant_system ledger_step "\<lambda>_ _. True" ledger_ok
proof
  fix l op
  assume "ledger_ok l"
  then show "ledger_ok (ledger_step op l)" by (cases op) (simp_all add: Begin_keeps End_keeps)
qed

lemma run_recorded:
  "ledger_ok l \<Longrightarrow> recorded (run_ops ledger_step ops l) = recorded l + mset (map stretch (concat (map begun ops)))"
proof (induction ops arbitrary: l)
  case (Cons op ops)
  have "ledger_ok (ledger_step op l)" using Cons.prems by (rule ledger.step_inv) simp
  moreover have "recorded (ledger_step op l) = recorded l + mset (map stretch (begun op))"
    using Cons.prems by (cases op) (simp_all add: Begin_keeps End_keeps)
  ultimately show ?case using Cons.IH by simp
qed simp

text \<open>
  C23: over any sequence of stretches begun and jobs ended on a ledger whose file can be written, every stretch is on record exactly once, in
  the file or as open, unchanged but for its end; nothing that was in the file is lost; and no line that is written ends before it starts.
\<close>

theorem ledger_keeps_every_stretch:
  assumes "\<forall>iv. Some iv \<in> set lines \<longrightarrow> iv_Start iv \<le> iv_End iv"
  shows "recorded (run_ops ledger_step ops (Open_ledger lines)) =
      mset (map stretch (read_ledger (Open_ledger lines))) + mset (map stretch (concat (map begun ops))) \<and>
    (\<forall>iv. Some iv \<in> set (lg_file (run_ops ledger_step ops (Open_ledger lines))) \<longrightarrow> iv_Start iv \<le> iv_End iv)"
proof -
  have ok: "ledger_ok (Open_ledger lines)" using assms by (simp add: ledger_ok_def Open_ledger_def)
  have "guarded_ops ledger_step (\<lambda>_ _. True) ops l" for l by (induction ops arbitrary: l) auto
  from ledger.run_inv [OF ok this] have "ledger_ok (run_ops ledger_step ops (Open_ledger lines))" .
  then show ?thesis using run_recorded [OF ok, of ops] by (simp add: ledger_ok_def recorded_def Open_ledger_def read_ledger_def)
qed

theorem ledger_keeps_every_stretch_witness:
  "recorded (run_ops ledger_step [DoBegin [blank], DoEnd [] 5] (Open_ledger [None])) = {#stretch blank#}"
  using ledger_keeps_every_stretch [of "[None]" "[DoBegin [blank], DoEnd [] 5]"]
  by (simp add: read_ledger_def Open_ledger_def map_filter_simps)

text \<open>
  When the file cannot be opened, \<^verbatim>\<open>End\<close> reports the error but has already forgotten the open stretches of the job: they are on record
  nowhere.
\<close>

theorem End_error_loses_stretches:
  assumes "ledger_ok l" and "open_of l job \<noteq> []"
  shows "snd (End job t False l) = False \<and>
    recorded l = recorded (fst (End job t False l)) + mset (map stretch (open_of l job))"
proof -
  have d: "distinct (map fst (lg_open l))" using assms(1) by (simp add: ledger_ok_def)
  show ?thesis using assms(2) concat_delete [OF d, of job] by (simp add: End_def Let_def recorded_def read_ledger_def)
qed

theorem End_error_loses_stretches_witness:
  "recorded (fst (End [] 5 False (Begin [blank] (Open_ledger [])))) = {#}"
proof -
  let ?l = "Begin [blank] (Open_ledger [])"
  have ok: "ledger_ok ?l" using Begin_keeps [of "Open_ledger []" "[blank]"] by (simp add: ledger_ok_def Open_ledger_def)
  have "open_of ?l [] \<noteq> []" by (simp add: Begin_def Begin_one_def open_of_def Open_ledger_def blank_def)
  from End_error_loses_stretches [OF ok this, of 5]
  show ?thesis by (simp add: End_def Let_def recorded_def read_ledger_def Begin_def Begin_one_def open_of_def Open_ledger_def blank_def map_filter_simps)
qed

subsection \<open>A report\<close>

lemma clip_range:
  "clip since until iv = Some d \<longleftrightarrow>
     d = min until (iv_End iv) - max since (iv_Start iv) \<and> max since (iv_Start iv) < min until (iv_End iv)"
  by (auto simp: clip_def Let_def)

text \<open>The intervals that count for a key, with the time they count for.\<close>

definition counted :: "int \<Rightarrow> int \<Rightarrow> string \<Rightarrow> string \<Rightarrow> Interval list \<Rightarrow> (int \<times> Interval) list" where
  "counted since until by_key k ivs =
     List.map_filter (\<lambda>iv. case clip since until iv of Some d \<Rightarrow> if keyOf iv by_key = Some k then Some (d, iv) else None | None \<Rightarrow> None) ivs"

lemma keyOf_by: "keyOf iv by_key = None \<longleftrightarrow> keyOf blank by_key = None"
  by (simp add: keyOf_def)

lemma counted_Cons:
  "counted since until by_key k (iv # ivs) =
     (case clip since until iv of Some d \<Rightarrow> if keyOf iv by_key = Some k then [(d, iv)] else [] | None \<Rightarrow> [])
     @ counted since until by_key k ivs"
  by (simp add: counted_def map_filter_simps split: option.split)

lemma usage_rows_spec:
  assumes "keyOf blank by_key \<noteq> None"
  shows "\<exists>rows'. usage_rows since until by_key ivs rows = Some rows' \<and>
    (\<forall>k. map_of rows' k =
       (if counted since until by_key k ivs = [] then map_of rows k
        else Some (foldl (\<lambda>r (d, iv). add_to_row d iv r) (case map_of rows k of Some r \<Rightarrow> r | None \<Rightarrow> new_row k)
               (counted since until by_key k ivs))))"
proof (induction ivs arbitrary: rows)
  case Nil
  then show ?case by (simp add: counted_def map_filter_simps)
next
  case (Cons iv ivs)
  show ?case
  proof (cases "clip since until iv")
    case None
    then show ?thesis using Cons.IH [of rows] by (auto simp: counted_Cons)
  next
    case (Some d)
    obtain k where k: "keyOf iv by_key = Some k" using assms keyOf_by [of iv by_key] by auto
    let ?r = "case map_of rows k of Some r \<Rightarrow> r | None \<Rightarrow> new_row k"
    obtain rows' where IH: "usage_rows since until by_key ivs (AList.update k (add_to_row d iv ?r) rows) = Some rows'"
        "\<forall>x. map_of rows' x =
          (if counted since until by_key x ivs = [] then map_of (AList.update k (add_to_row d iv ?r) rows) x
           else Some (foldl (\<lambda>r (d, iv). add_to_row d iv r)
             (case map_of (AList.update k (add_to_row d iv ?r) rows) x of Some r \<Rightarrow> r | None \<Rightarrow> new_row x)
             (counted since until by_key x ivs)))"
      using Cons.IH by blast
    show ?thesis
      using IH Some k by (intro exI [of _ rows']) (auto simp: counted_Cons AList.update_conv')
  qed
qed

lemma mset_insert_row: "mset (insert_row r rs) = add_mset r (mset rs)"
  by (induction rs) auto

lemma usage_rows_keys:
  "usage_rows since until by_key ivs rows = Some rows' \<Longrightarrow> distinct (map fst rows) \<Longrightarrow> distinct (map fst rows')"
  by (induction since until by_key ivs rows rule: usage_rows.induct)
    (auto simp: Let_def update_keys split: option.splits)


end
