(* ===== verification/Daemon.thy ===== *)
theory Daemon
  imports Scheduler_Queue Accounting Gpu
begin

text \<open>
  Package \<^verbatim>\<open>internal/daemon\<close>: the jobs, and what submitting, ending, stopping and resizing one does to the scheduler, the ledger and the
  processes. Every operation holds the daemon's lock for its whole body (\<^verbatim>\<open>SubmitStreaming\<close> takes it three times, and is three steps
  here), so operations are functions of the state. What they get from outside is an argument: the new job's id, the time, whether
  the ledger's file can be written, and for a job that is started the process it became (\<open>None\<close> when the launcher failed).
  What they do to processes is the list of effects they return. A process is a number; so is a client's output stream.
\<close>

subsection \<open>Types\<close>

record SubmitRequest =
  sr_Command :: "string list"
  sr_Name :: string
  sr_Owner :: string
  sr_Share :: float64
  sr_MemMiB :: int
  sr_GPUs :: int
  sr_Priority :: int
  sr_Preemptible :: bool
  sr_Burst :: bool
  sr_Wait :: bool
  sr_Allow :: "string list"
  sr_DenyNet :: bool
  sr_Dir :: string

record Job =
  jb_ID :: string
  jb_Name :: string
  jb_Owner :: string
  jb_Command :: "string list"
  jb_Share :: float64
  jb_Priority :: int
  jb_State :: string
  jb_ExitCode :: "int option"
  jb_Placement :: "Placement option"
  jb_Started :: int
  jb_req :: Request
  jb_submit :: SubmitRequest
  jb_proc :: "nat option"
  jb_out :: "nat option"
  jb_done :: "nat option"

record cardRef =
  cr_vendor :: string
  cr_dev :: Device

record backend =
  be_JobEnv :: "Device \<Rightarrow> gpu_Slot \<Rightarrow> string \<Rightarrow> env"
  be_Caps :: Caps

record Daemon =
  dm_sched :: Scheduler
  dm_backends :: "(string \<times> backend) list"
  dm_byCard :: "(int \<times> cardRef) list"
  dm_ledger :: Ledger
  dm_jobs :: "(string, Job) gomap"
  dm_stateDir :: string
  dm_seats :: int
  dm_hook :: "nat option"

datatype deffect =
    Launch string "string list" env
  | Suspend nat
  | Deliver nat int
  | Terminate nat

datatype derror = NoCommand | SchedError sched_error | LaunchFailed | NoJob string | NotRunningJob string

subsection \<open>Starting and pausing\<close>

definition zero_dev :: Device where
  "zero_dev = \<lparr>dv_Index = 0, dv_UUID = [], dv_Name = [], dv_Vendor = [], dv_MemMiB = 0, dv_Units = 0, dv_Chiplets = 0, dv_Engines = 0\<rparr>"

definition card_ref :: "Daemon \<Rightarrow> int \<Rightarrow> cardRef" where
  "card_ref d idx = (case map_of (dm_byCard d) idx of Some r \<Rightarrow> r | None \<Rightarrow> \<lparr>cr_vendor = [], cr_dev = zero_dev\<rparr>)"

text \<open>The environment of one slot (a card without a backend does not occur: \<^verbatim>\<open>New\<close> fills both maps).\<close>

definition slot_env :: "Daemon \<Rightarrow> Slot \<Rightarrow> env" where
  "slot_env d sl = (let ref = card_ref d (sl_Card sl) in
     case map_of (dm_backends d) (cr_vendor ref) of
       None \<Rightarrow> []
     | Some b \<Rightarrow> be_JobEnv b (cr_dev ref)
         \<lparr>gs_Seats = sl_Seats sl, gs_SeatsPerCard = dm_seats d, gs_MemMiB = sl_MemMiB sl,
          gs_ComputePercent = sl_ComputePercent sl, gs_SeatIDs = map nat (sl_SeatIDs sl)\<rparr> (dm_stateDir d))"

definition merge_env :: "env \<Rightarrow> env \<Rightarrow> env" where
  "merge_env extra e = fold (\<lambda>(k, v) m. AList.update k v m) extra e"

definition job_env :: "Daemon \<Rightarrow> Slot list \<Rightarrow> env" where
  "job_env d slots = fold (\<lambda>sl e. merge_env (slot_env d sl) e) slots []"

definition interval :: "Daemon \<Rightarrow> Job \<Rightarrow> int \<Rightarrow> Slot \<Rightarrow> Interval" where
  "interval d job now sl = (let ref = card_ref d (sl_Card sl) in
     \<lparr>iv_Job = jb_ID job, iv_Name = jb_Name job, iv_Owner = jb_Owner job, iv_Vendor = cr_vendor ref, iv_Card = sl_Card sl,
      iv_CardName = dv_Name (cr_dev ref), iv_Share = sl_GrantedShare sl, iv_MemMiB = sl_MemMiB sl, iv_Start = now, iv_End = 0\<rparr>)"

text \<open>\<^verbatim>\<open>startLocked\<close>: \<open>lo\<close> is the process and its start time; the result is the state, whether it started, and the launch.\<close>

definition startLocked :: "Job \<Rightarrow> Placement \<Rightarrow> (nat \<times> int) option \<Rightarrow> int \<Rightarrow> Daemon \<Rightarrow> Daemon \<times> bool \<times> deffect list" where
  "startLocked job pl lo now d =
     (let eff = [Launch (jb_ID job) (jb_Command job) (job_env d (pl_Slots pl))]
      in case lo of
          None \<Rightarrow> (d, False, eff)
        | Some (proc, started) \<Rightarrow>
            (d\<lparr>dm_jobs := AList.update (jb_ID job)
                 (job\<lparr>jb_proc := Some proc, jb_State := ''running'', jb_Placement := Some pl, jb_Started := started\<rparr>) (dm_jobs d),
               dm_ledger := Begin (map (interval d job now) (pl_Slots pl)) (dm_ledger d)\<rparr>, True, eff))"

definition pauseLocked :: "Job \<Rightarrow> int \<Rightarrow> bool \<Rightarrow> Daemon \<Rightarrow> Daemon \<times> deffect list" where
  "pauseLocked job now writable d =
     (case jb_proc job of
        None \<Rightarrow> (d, [])
      | Some proc \<Rightarrow>
          (d\<lparr>dm_ledger := fst (End (jb_ID job) now writable (dm_ledger d))\<rparr>,
           if (case jb_Placement job of Some pl \<Rightarrow> pl_Slots pl | None \<Rightarrow> []) = [] then [] else [Suspend proc]))"

text \<open>The loop of \<^verbatim>\<open>Submit\<close> over the jobs to push off.\<close>

definition preempt_one :: "int \<Rightarrow> bool \<Rightarrow> string \<Rightarrow> Daemon \<times> deffect list \<Rightarrow> Daemon \<times> deffect list" where
  "preempt_one now writable victim acc =
     (case acc of (d, effs) \<Rightarrow>
        case map_of (dm_jobs d) victim of
          None \<Rightarrow> (d, effs)
        | Some v \<Rightarrow>
            if jb_proc v = None then (d, effs)
            else case pauseLocked v now writable d of (d', eff) \<Rightarrow>
              (d'\<lparr>dm_sched := Requeue (jb_req v) (dm_sched d'),
                  dm_jobs := AList.update victim (v\<lparr>jb_State := ''paused''\<rparr>) (dm_jobs d')\<rparr>, effs @ eff))"

subsection \<open>The operations\<close>

definition request_of :: "string \<Rightarrow> SubmitRequest \<Rightarrow> Request" where
  "request_of jid r = \<lparr>r_ID = jid, r_Share = sr_Share r, r_MemMiB = sr_MemMiB r, r_GPUs = sr_GPUs r, r_Priority = sr_Priority r,
     r_Preemptible = sr_Preemptible r, r_Burst = sr_Burst r, r_Wait = sr_Wait r\<rparr>"

definition new_job :: "string \<Rightarrow> SubmitRequest \<Rightarrow> nat option \<Rightarrow> Job" where
  "new_job jid r hook = \<lparr>jb_ID = jid, jb_Name = sr_Name r, jb_Owner = sr_Owner r, jb_Command = sr_Command r, jb_Share = sr_Share r,
     jb_Priority = sr_Priority r, jb_State = [], jb_ExitCode = None, jb_Placement = None, jb_Started = 0,
     jb_req = request_of jid r, jb_submit = r, jb_proc = None, jb_out = hook, jb_done = hook\<rparr>"

definition set_state :: "string \<Rightarrow> string \<Rightarrow> Daemon \<Rightarrow> Daemon" where
  "set_state jid st d = (case map_of (dm_jobs d) jid of
     Some job \<Rightarrow> d\<lparr>dm_jobs := AList.update jid (job\<lparr>jb_State := st\<rparr>) (dm_jobs d)\<rparr> | None \<Rightarrow> d)"

definition Submit :: "SubmitRequest \<Rightarrow> string \<Rightarrow> int \<Rightarrow> bool \<Rightarrow> (nat \<times> int) option \<Rightarrow> Daemon \<Rightarrow>
    Daemon \<times> (derror + string) \<times> deffect list" where
  "Submit r0 jid now writable lo d =
     (if sr_Command r0 = [] then (d, Inl NoCommand, [])
      else let r = (if f64_le (sr_Share r0) (Fin 0) then r0\<lparr>sr_Share := Fin 1\<rparr> else r0)
           in case Admit (request_of jid r) (dm_sched d) of
               (s', Inl e) \<Rightarrow> (d\<lparr>dm_sched := s'\<rparr>, Inl (SchedError e), [])
             | (s', Inr dec) \<Rightarrow>
                 let job = new_job jid r (dm_hook d);
                     d1 = d\<lparr>dm_sched := s', dm_jobs := AList.update jid job (dm_jobs d), dm_hook := None\<rparr>
                 in case fold (preempt_one now writable) (d_Preempt dec) (d1, []) of (d2, effs) \<Rightarrow>
                      if d_Queued dec then (set_state jid ''queued'' d2, Inr jid, effs)
                      else (case d_Placement dec of
                          None \<Rightarrow> (d2, Inr jid, effs)
                        | Some pl \<Rightarrow>
                            (case startLocked job pl lo now d2 of (d3, ok, eff) \<Rightarrow>
                               if ok then (d3, Inr jid, effs @ eff)
                               else (d3\<lparr>dm_sched := fst (Release jid (dm_sched d3)), dm_jobs := AList.delete jid (dm_jobs d3)\<rparr>,
                                     Inl LaunchFailed, effs @ eff))))"

text \<open>The loop of \<^verbatim>\<open>reap\<close> over what the release started; \<open>lo\<close> gives each job's launch.\<close>

definition start_one :: "(string \<Rightarrow> (nat \<times> int) option) \<Rightarrow> int \<Rightarrow> Decision \<Rightarrow> Daemon \<times> deffect list \<Rightarrow> Daemon \<times> deffect list" where
  "start_one lo now dec acc =
     (case acc of (d, effs) \<Rightarrow>
        case d_Placement dec of
          None \<Rightarrow> (d, effs)
        | Some pl \<Rightarrow>
            (case map_of (dm_jobs d) (pl_JobID pl) of
               None \<Rightarrow> (d, effs)
             | Some q \<Rightarrow>
                 if jb_State q = ''queued'' \<or> jb_State q = ''paused''
                 then (case startLocked q pl (lo (pl_JobID pl)) now d of (d', _, eff) \<Rightarrow> (d', effs @ eff))
                 else (d, effs)))"

definition reap :: "string \<Rightarrow> nat \<Rightarrow> int \<Rightarrow> int \<Rightarrow> bool \<Rightarrow> (string \<Rightarrow> (nat \<times> int) option) \<Rightarrow> Daemon \<Rightarrow> Daemon \<times> deffect list" where
  "reap jid proc code now writable lo d =
     (case map_of (dm_jobs d) jid of
        None \<Rightarrow> (d, [])
      | Some job \<Rightarrow>
          if jb_proc job \<noteq> Some proc then (d, [])
          else let eff = (case jb_done job of Some ch \<Rightarrow> [Deliver ch code] | None \<Rightarrow> []);
                   d1 = d\<lparr>dm_jobs := AList.update jid (job\<lparr>jb_State := ''exited'', jb_ExitCode := Some code, jb_done := None, jb_proc := None\<rparr>) (dm_jobs d),
                          dm_ledger := fst (End jid now writable (dm_ledger d))\<rparr>
               in case Release jid (dm_sched d1) of (s', decs) \<Rightarrow> fold (start_one lo now) decs (d1\<lparr>dm_sched := s'\<rparr>, eff))"

definition Stop :: "string \<Rightarrow> Daemon \<Rightarrow> Daemon \<times> (derror + unit) \<times> deffect list" where
  "Stop jid d =
     (case map_of (dm_jobs d) jid of
        None \<Rightarrow> (d, Inl (NoJob jid), [])
      | Some job \<Rightarrow>
          if jb_State job = ''queued''
          then (d\<lparr>dm_sched := fst (Cancel jid (dm_sched d)), dm_jobs := AList.delete jid (dm_jobs d)\<rparr>, Inr (), [])
          else (d, Inr (), case jb_proc job of Some proc \<Rightarrow> [Terminate proc] | None \<Rightarrow> []))"

definition Resize_job :: "string \<Rightarrow> float64 \<Rightarrow> int \<Rightarrow> int \<Rightarrow> bool \<Rightarrow> Daemon \<Rightarrow> Daemon \<times> (derror + string)" where
  "Resize_job jid fraction memMiB now writable d =
     (case map_of (dm_jobs d) jid of
        None \<Rightarrow> (d, Inl (NotRunningJob jid))
      | Some job \<Rightarrow>
          if jb_State job \<noteq> ''running'' then (d, Inl (NotRunningJob jid))
          else case Resize jid fraction memMiB (dm_sched d) of
              (s', Inl e) \<Rightarrow> (d\<lparr>dm_sched := s'\<rparr>, Inl (SchedError e))
            | (s', Inr pl) \<Rightarrow>
                (d\<lparr>dm_sched := s',
                   dm_ledger := Begin (map (interval d job now) (pl_Slots pl)) (fst (End jid now writable (dm_ledger d))),
                   dm_jobs := AList.update jid (job\<lparr>jb_Share := fraction, jb_Placement := Some pl\<rparr>) (dm_jobs d)\<rparr>, Inr jid))"

text \<open>The two other steps of \<^verbatim>\<open>SubmitStreaming\<close>: setting the hook before \<^verbatim>\<open>Submit\<close>, clearing it when that fails.\<close>

definition set_hook :: "nat option \<Rightarrow> Daemon \<Rightarrow> Daemon" where
  "set_hook h d = d\<lparr>dm_hook := h\<rparr>"

record CardView =
  cv_Index :: int
  cv_Vendor :: string
  cv_Name :: string
  cv_MemMiB :: int
  cv_Seats :: int
  cv_FreeSeats :: int
  cv_FreeMemMiB :: int
  cv_Caps :: "Caps option"

definition Cards_view :: "Daemon \<Rightarrow> CardView list" where
  "Cards_view d =
     (let free = fold (\<lambda>f m. AList.update (f_Card f) f m) (Available (dm_sched d)) []
      in map (\<lambda>c. let f = (case map_of free (c_Index c) of Some f \<Rightarrow> f | None \<Rightarrow> \<lparr>f_Card = 0, f_Seats = 0, f_MemMiB = 0\<rparr>) in
           \<lparr>cv_Index = c_Index c, cv_Vendor = cr_vendor (card_ref d (c_Index c)), cv_Name = c_Name c, cv_MemMiB = c_MemMiB c,
            cv_Seats = c_Seats c, cv_FreeSeats = f_Seats f, cv_FreeMemMiB = f_MemMiB f,
            cv_Caps = map_option be_Caps (map_of (dm_backends d) (cr_vendor (card_ref d (c_Index c))))\<rparr>) (Cards (dm_sched d)))"

text \<open>
  \<^verbatim>\<open>New\<close>, after discovery: \<open>found\<close> is what each backend reported, in order; cards are numbered across backends.
\<close>

definition New_daemon :: "string \<Rightarrow> int \<Rightarrow> (string \<times> backend \<times> Device list) list \<Rightarrow> Interval option list \<Rightarrow> Daemon" where
  "New_daemon stateDir seats0 found lines =
     (let seats = (if seats0 \<le> 0 then DefaultSeats else seats0);
          devs = concat (map (\<lambda>(v, b, ds). map (\<lambda>dv. (v, dv)) ds) found);
          numbered = zip (map int [0..<length devs]) devs
      in \<lparr>dm_sched = New (map (\<lambda>(i, v, dv). \<lparr>c_Index = i, c_Name = dv_Name dv, c_MemMiB = dv_MemMiB dv, c_Seats = seats, c_Down = False\<rparr>) numbered),
          dm_backends = map (\<lambda>(v, b, ds). (v, b)) found,
          dm_byCard = map (\<lambda>(i, v, dv). (i, \<lparr>cr_vendor = v, cr_dev = dv\<rparr>)) numbered,
          dm_ledger = Open_ledger lines, dm_jobs = [], dm_stateDir = stateDir, dm_seats = seats, dm_hook = None\<rparr>)"

subsection \<open>Ids, streams and snapshots\<close>

text \<open>\<^verbatim>\<open>newID\<close> at a time in nanoseconds.\<close>

definition newID :: "int \<Rightarrow> string" where
  "newID now = ''j'' @ Itoa (now mod 1000000000)"

text \<open>Where a job's output goes: the stream it was submitted with, else the daemon's own (stream 1 or 2).\<close>

definition outWriter :: "Job \<Rightarrow> nat" where
  "outWriter job = (case jb_out job of Some w \<Rightarrow> w | None \<Rightarrow> 1)"

definition errWriter :: "Job \<Rightarrow> nat" where
  "errWriter job = (case jb_out job of Some w \<Rightarrow> w | None \<Rightarrow> 2)"

text \<open>\<^verbatim>\<open>SubmitStreaming\<close> when no other client comes in between its three critical sections.\<close>

definition SubmitStreaming :: "SubmitRequest \<Rightarrow> nat \<Rightarrow> string \<Rightarrow> int \<Rightarrow> bool \<Rightarrow> (nat \<times> int) option \<Rightarrow> Daemon \<Rightarrow>
    Daemon \<times> (derror + string) \<times> deffect list" where
  "SubmitStreaming r w jid now writable lo d =
     (case Submit r jid now writable lo (set_hook (Some w) d) of
        (d', Inl e, effs) \<Rightarrow> (set_hook None d', Inl e, effs)
      | (d', Inr j, effs) \<Rightarrow> (d', Inr j, effs))"

text \<open>\<^verbatim>\<open>Jobs\<close>, newest first (Go leaves the order of equal times open), and \<^verbatim>\<open>Job\<close>.\<close>

definition Jobs :: "Daemon \<Rightarrow> Job list" where
  "Jobs d = sort_key (\<lambda>j. - jb_Started j) (map snd (dm_jobs d))"

definition Job_of :: "string \<Rightarrow> Daemon \<Rightarrow> Job option" where
  "Job_of jid d = map_of (dm_jobs d) jid"

definition Usage_of :: "int \<Rightarrow> int \<Rightarrow> string \<Rightarrow> Daemon \<Rightarrow> Row list option" where
  "Usage_of since until by d = Usage since until by (dm_ledger d)"

end
