(* ===== verification/Go_Json.thy ===== *)
theory Go_Json
  imports Go_Paths
begin

text \<open>
  What the backends use of \<^verbatim>\<open>encoding/json\<close> and \<^verbatim>\<open>unicode/utf8\<close>: the text of one JSON value becomes the value (\<open>Unmarshal\<close>), or an error
  (\<open>None\<close>). The grammar is the one of Go's scanner: white space is space, tab, carriage return and line feed; a string has no raw control characters; nothing
  but white space follows the value; arrays and objects nest at most ten thousand deep. Strings are decoded as \<^verbatim>\<open>unquote\<close> does, escapes and surrogates
  included, with U+FFFD for bytes that are not UTF-8. A number keeps its literal. An object keeps its members in the order of the text, a repeated
  key included. At the end: a text printed from a value is read back.
\<close>

subsection \<open>UTF-8\<close>

text \<open>The width of the rune a string starts with (its first byte is above 127); \<open>0\<close> when it is not valid.\<close>

definition utf8_width :: "string \<Rightarrow> nat" where
  "utf8_width s =
     (let cont = (\<lambda>i lo hi. i < length s \<and> lo \<le> byte (s ! i) \<and> byte (s ! i) \<le> hi);
          b = byte (s ! 0)
      in if s = [] then 0
         else if 194 \<le> b \<and> b \<le> 223 then (if cont 1 128 191 then 2 else 0)
         else if 224 \<le> b \<and> b \<le> 239 then
           (if cont 1 (if b = 224 then 160 else 128) (if b = 237 then 159 else 191) \<and> cont 2 128 191 then 3 else 0)
         else if 240 \<le> b \<and> b \<le> 244 then
           (if cont 1 (if b = 240 then 144 else 128) (if b = 244 then 143 else 191) \<and> cont 2 128 191 \<and> cont 3 128 191 then 4 else 0)
         else 0)"

definition utf8_encode :: "int \<Rightarrow> string" where
  "utf8_encode r =
     (bytes \<circ> map nat) (if r < 128 then [r]
       else if r < 2048 then [192 + r div 64, 128 + r mod 64]
       else if r < 65536 then [224 + r div 4096, 128 + r div 64 mod 64, 128 + r mod 64]
       else [240 + r div 262144, 128 + r div 4096 mod 64, 128 + r div 64 mod 64, 128 + r mod 64])"

subsection \<open>Strings\<close>

definition quote :: char where
  "quote = CHR 0x22"

definition backslash :: char where
  "backslash = CHR 0x5C"

definition hex4 :: "string \<Rightarrow> int option" where
  "hex4 s = (if 4 \<le> length s \<and> list_all is_hex_digit (take 4 s) then Some (foldl (\<lambda>v c. 16 * v + int (hex_digit c)) 0 (take 4 s)) else None)"

definition simple_escape :: "char \<Rightarrow> char option" where
  "simple_escape c = map_of [(quote, quote), (backslash, backslash), (CHR ''/'', CHR ''/''), (CHR ''b'', CHR 0x08), (CHR ''f'', CHR 0x0C),
     (CHR ''n'', CHR 0x0A), (CHR ''r'', CHR 0x0D), (CHR ''t'', CHR 0x09)] c"

text \<open>The rune of a \<^verbatim>\<open>\u\<close> escape and what follows it; \<open>u\<close> is the text after the four digits.\<close>

definition escaped_rune :: "int \<Rightarrow> string \<Rightarrow> int \<times> string" where
  "escaped_rune r u =
     (if 0xD800 \<le> r \<and> r < 0xE000 then
        (case (if take 2 u = [backslash, CHR ''u''] then hex4 (drop 2 u) else None) of
           Some lo \<Rightarrow> if r < 0xDC00 \<and> 0xDC00 \<le> lo \<and> lo < 0xE000
                      then (0x10000 + (r - 0xD800) * 1024 + (lo - 0xDC00), drop 6 u) else (0xFFFD, u)
         | None \<Rightarrow> (0xFFFD, u))
      else (r, u))"

text \<open>The rest of a string after its opening quote: the text, and what follows the closing quote. Every step takes a byte, so the length of the input is enough fuel.\<close>

fun json_chars :: "nat \<Rightarrow> string \<Rightarrow> (string \<times> string) option" where
  "json_chars 0 s = None"
| "json_chars (Suc n) s =
     (case s of [] \<Rightarrow> None
      | c # t \<Rightarrow>
          if c = quote then Some ([], t)
          else if c = backslash then
            (case t of [] \<Rightarrow> None
             | e # u \<Rightarrow>
                 if e = CHR ''u'' then
                   (case hex4 u of None \<Rightarrow> None
                    | Some r \<Rightarrow> (case escaped_rune r (drop 4 u) of (r', v) \<Rightarrow>
                        map_option (\<lambda>(a, b). (utf8_encode r' @ a, b)) (json_chars n v)))
                 else (case simple_escape e of None \<Rightarrow> None | Some x \<Rightarrow> map_option (\<lambda>(a, b). (x # a, b)) (json_chars n u)))
          else if byte c < 32 then None
          else if byte c < 128 then map_option (\<lambda>(a, b). (c # a, b)) (json_chars n t)
          else let w = utf8_width s
            in if w = 0 then map_option (\<lambda>(a, b). (utf8_encode 0xFFFD @ a, b)) (json_chars n t)
               else map_option (\<lambda>(a, b). (take w s @ a, b)) (json_chars n (drop w s)))"

definition after_byte :: "char \<Rightarrow> string \<Rightarrow> string option" where
  "after_byte c s = (case s of x # r \<Rightarrow> if x = c then Some r else None | [] \<Rightarrow> None)"

definition json_string :: "string \<Rightarrow> (string \<times> string) option" where
  "json_string s = (case after_byte quote s of Some t \<Rightarrow> json_chars (length s) t | None \<Rightarrow> None)"

subsection \<open>Numbers\<close>

definition digits_of :: "string \<Rightarrow> string \<times> string" where
  "digits_of s = (takeWhile is_digit s, dropWhile is_digit s)"

text \<open>A part of a number that starts with one of \<open>starts\<close> (a point, an exponent), if it is there; then it needs digits.\<close>

definition json_part :: "string \<Rightarrow> bool \<Rightarrow> string \<Rightarrow> (string \<times> string) option" where
  "json_part starts signed s =
     (case s of [] \<Rightarrow> Some ([], [])
      | c # t \<Rightarrow>
          if c \<notin> set starts then Some ([], s)
          else let sg = (case t of x # _ \<Rightarrow> if signed \<and> (x = CHR ''-'' \<or> x = CHR ''+'') then [x] else [] | [] \<Rightarrow> [])
            in case digits_of (drop (length sg) t) of (ds, u) \<Rightarrow> if ds = [] then None else Some (c # sg @ ds, u))"

definition json_int :: "string \<Rightarrow> string \<times> string" where
  "json_int t = (case after_byte (CHR ''0'') t of Some u \<Rightarrow> (''0'', u) | None \<Rightarrow> digits_of t)"

definition json_number :: "string \<Rightarrow> (string \<times> string) option" where
  "json_number s =
     (let sg = (case s of c # _ \<Rightarrow> if c = CHR ''-'' then [c] else [] | [] \<Rightarrow> []);
          t = drop (length sg) s
      in case json_int t of (ds, u) \<Rightarrow>
           if ds = [] then None
           else case json_part ''.'' False u of None \<Rightarrow> None
             | Some (fr, v) \<Rightarrow> (case json_part ''eE'' True v of None \<Rightarrow> None | Some (ex, w) \<Rightarrow> Some (sg @ ds @ fr @ ex, w)))"

subsection \<open>Values\<close>

datatype json = JNull | JBool bool | JNum string | JStr string | JArr "json list" | JObj "(string \<times> json) list"

definition skip_ws :: "string \<Rightarrow> string" where
  "skip_ws = dropWhile (\<lambda>c. c \<in> {CHR '' '', CHR 0x09, CHR 0x0A, CHR 0x0D})"

text \<open>
  The value a text starts with, the elements up to a closing bracket, and the members up to a closing brace (both after at least one is known to
  come), with what follows them. The first argument is fuel; each call takes at least a byte or is the call of a value by its list, so twice the
  length is enough. The second is how many arrays and objects are open.
\<close>

fun json_value :: "nat \<Rightarrow> int \<Rightarrow> string \<Rightarrow> (json \<times> string) option"
  and json_elems :: "nat \<Rightarrow> int \<Rightarrow> string \<Rightarrow> (json list \<times> string) option"
  and json_members :: "nat \<Rightarrow> int \<Rightarrow> string \<Rightarrow> ((string \<times> json) list \<times> string) option" where
  "json_value 0 d s = None"
| "json_value (Suc n) d s =
     (let t = skip_ws s
      in if prefix ''null'' t then Some (JNull, drop 4 t)
         else if prefix ''true'' t then Some (JBool True, drop 4 t)
         else if prefix ''false'' t then Some (JBool False, drop 5 t)
         else case t of [] \<Rightarrow> None
           | c # u \<Rightarrow>
               if c = quote then map_option (\<lambda>(a, r). (JStr a, r)) (json_string t)
               else if c = CHR ''['' then
                 (if 10000 \<le> d then None
                  else case after_byte (CHR '']'') (skip_ws u) of
                      Some r \<Rightarrow> Some (JArr [], r)
                    | None \<Rightarrow> map_option (\<lambda>(vs, r). (JArr vs, r)) (json_elems n (d + 1) u))
               else if c = CHR ''{'' then
                 (if 10000 \<le> d then None
                  else case after_byte (CHR ''}'') (skip_ws u) of
                      Some r \<Rightarrow> Some (JObj [], r)
                    | None \<Rightarrow> map_option (\<lambda>(ms, r). (JObj ms, r)) (json_members n (d + 1) u))
               else map_option (\<lambda>(a, r). (JNum a, r)) (json_number t))"
| "json_elems 0 d s = None"
| "json_elems (Suc n) d s =
     (case json_value n d s of None \<Rightarrow> None
      | Some (v, t) \<Rightarrow>
          (case after_byte (CHR '']'') (skip_ws t) of
             Some r \<Rightarrow> Some ([v], r)
           | None \<Rightarrow>
               (case after_byte (CHR '','') (skip_ws t) of
                  None \<Rightarrow> None
                | Some r \<Rightarrow> map_option (\<lambda>(vs, u). (v # vs, u)) (json_elems n d r))))"
| "json_members 0 d s = None"
| "json_members (Suc n) d s =
     (case json_string (skip_ws s) of None \<Rightarrow> None
      | Some (k, t) \<Rightarrow>
          (case after_byte (CHR '':'') (skip_ws t) of None \<Rightarrow> None
           | Some u \<Rightarrow>
               (case json_value n d u of None \<Rightarrow> None
                | Some (v, w) \<Rightarrow>
                    (case after_byte (CHR ''}'') (skip_ws w) of
                       Some r \<Rightarrow> Some ([(k, v)], r)
                     | None \<Rightarrow>
                         (case after_byte (CHR '','') (skip_ws w) of
                            None \<Rightarrow> None
                          | Some r \<Rightarrow> map_option (\<lambda>(ms, x). ((k, v) # ms, x)) (json_members n d r))))))"

definition Unmarshal :: "string \<Rightarrow> json option" where
  "Unmarshal s =
     (case json_value (2 * length s + 1) 0 s of
        None \<Rightarrow> None
      | Some (v, t) \<Rightarrow> if skip_ws t = [] then Some v else None)"


subsection \<open>A printed value is read back\<close>

text \<open>A printer, for values whose strings need no escapes and whose numbers are integers.\<close>

fun json_print :: "json \<Rightarrow> string"
  and json_prints :: "json list \<Rightarrow> string"
  and json_pairs :: "(string \<times> json) list \<Rightarrow> string" where
  "json_print JNull = ''null''"
| "json_print (JBool b) = (if b then ''true'' else ''false'')"
| "json_print (JNum l) = l"
| "json_print (JStr a) = quote # a @ [quote]"
| "json_print (JArr vs) = (if vs = [] then ''[]'' else CHR ''['' # json_prints vs)"
| "json_print (JObj ms) = (if ms = [] then ''{}'' else CHR ''{'' # json_pairs ms)"
| "json_prints [] = []"
| "json_prints (v # vs) = json_print v @ (if vs = [] then '']'' else CHR '','' # json_prints vs)"
| "json_pairs [] = []"
| "json_pairs (m # ms) = quote # fst m @ [quote, CHR '':''] @ json_print (snd m) @ (if ms = [] then ''}'' else CHR '','' # json_pairs ms)"

definition unescaped :: "string \<Rightarrow> bool" where
  "unescaped a \<longleftrightarrow> list_all (\<lambda>c. 32 \<le> byte c \<and> byte c < 128 \<and> c \<noteq> quote \<and> c \<noteq> backslash) a"

text \<open>\<open>json_fits d v\<close>: such a value, nested less than ten thousand deep when \<open>d\<close> arrays and objects are open.\<close>

fun json_fits :: "int \<Rightarrow> json \<Rightarrow> bool" where
  "json_fits d JNull = True"
| "json_fits d (JBool b) = True"
| "json_fits d (JNum l) = (\<exists>i. l = Itoa i)"
| "json_fits d (JStr a) = unescaped a"
| "json_fits d (JArr vs) = (d < 10000 \<and> (\<forall>v \<in> set vs. json_fits (d + 1) v))"
| "json_fits d (JObj ms) = (d < 10000 \<and> (\<forall>m \<in> set ms. unescaped (fst m) \<and> json_fits (d + 1) (snd m)))"

definition ends_value :: "string \<Rightarrow> bool" where
  "ends_value r \<longleftrightarrow> r = [] \<or> hd r \<in> set '',]}''"

lemma skip_ws_start: "c \<notin> {CHR '' '', CHR 0x09, CHR 0x0A, CHR 0x0D} \<Longrightarrow> skip_ws (c # s) = c # s"
  by (simp add: skip_ws_def)

lemma after_byte_Cons [simp]: "after_byte c (x # r) = (if x = c then Some r else None)"
  by (simp add: after_byte_def)

lemma json_chars_plain: "unescaped a \<Longrightarrow> length a < n \<Longrightarrow> json_chars n (a @ quote # r) = Some (a, r)"
proof (induction a arbitrary: n)
  case Nil
  then show ?case by (cases n) simp_all
next
  case (Cons c a)
  then show ?case by (cases n) (simp_all add: unescaped_def)
qed

lemma json_string_plain: "unescaped a \<Longrightarrow> json_string (quote # a @ quote # r) = Some (a, r)"
  using json_chars_plain [of a "length (quote # a @ quote # r)" r] by (simp add: json_string_def del: json_chars.simps)

lemma itoa_nat_hd: "0 < n \<Longrightarrow> hd (itoa_nat n) \<noteq> CHR ''0''"
proof (induction n rule: itoa_nat.induct)
  case (1 n)
  show ?case
  proof (cases "n < 10")
    case True
    have "char_of (48 + n) \<noteq> CHR ''0''"
    proof
      assume "char_of (48 + n) = CHR ''0''"
      then have "byte (char_of (48 + n)) = byte (CHR ''0'')" by simp
      with True 1(2) show False by (simp add: byte_digit byte_def [of "CHR ''0''"])
    qed
    with True show ?thesis by (subst itoa_nat.simps) simp
  next
    case False
    with 1 show ?thesis by (subst itoa_nat.simps) simp
  qed
qed

lemma itoa_nat_start: "\<exists>c u. itoa_nat n = c # u \<and> is_digit c"
  using itoa_nat_digits [of n] by (cases "itoa_nat n") simp_all

lemma Itoa_start: "\<exists>c u. Itoa i = c # u \<and> (is_digit c \<or> c = CHR ''-'')"
  using itoa_nat_start [of "nat i"] by (auto simp: Itoa_def)

lemma json_number_Itoa:
  assumes "ends_value r"
  shows "json_number (Itoa i @ r) = Some (Itoa i, r)"
proof -
  have r: "digits_of (ds @ r) = (ds, r)" if "list_all is_digit ds" for ds
    using that assms by (cases r) (auto simp: digits_of_def ends_value_def list_all_iff is_digit_def byte_def takeWhile_append2 dropWhile_append2)
  have p: "json_part ''.'' False r = Some ([], r)" "json_part ''eE'' True r = Some ([], r)"
    using assms by (cases r; auto simp: json_part_def ends_value_def)+
  have z: "json_int (itoa_nat n @ r) = (itoa_nat n, r)" for n
  proof (cases "n = 0")
    case True
    have "char_of (48 :: nat) = CHR ''0''" by code_simp
    then show ?thesis using True by (simp add: json_int_def itoa_nat.simps [of 0])
  next
    case False
    obtain c u where cu: "itoa_nat n = c # u" using itoa_nat_start by blast
    then have "after_byte (CHR ''0'') (itoa_nat n @ r) = None" using itoa_nat_hd [of n] False by simp
    then show ?thesis using r [OF itoa_nat_digits, of n] by (simp add: json_int_def)
  qed
  have s: "(case itoa_nat n @ r of c # _ \<Rightarrow> if c = CHR ''-'' then [c] else [] | [] \<Rightarrow> []) = []" for n
  proof -
    obtain c u where "itoa_nat n = c # u" "is_digit c" using itoa_nat_start by blast
    then show ?thesis using digit_not_sign by simp
  qed
  show ?thesis
  proof (cases "i < 0")
    case True
    then show ?thesis using z [of "nat (- i)"] p itoa_nat_nonempty [of "nat (- i)"] by (simp add: json_number_def Itoa_def Let_def)
  next
    case False
    then show ?thesis using z [of "nat i"] p s [of "nat i"] itoa_nat_nonempty [of "nat i"] by (simp add: json_number_def Itoa_def Let_def)
  qed
qed

lemma json_print_start:
  assumes "json_fits d v"
  shows "\<exists>c u. json_print v = c # u \<and> c \<notin> {CHR '' '', CHR 0x09, CHR 0x0A, CHR 0x0D, CHR '']'', CHR ''}''}"
proof (cases v)
  case (JNum l)
  then obtain i where "l = Itoa i" using assms by auto
  then show ?thesis using JNum Itoa_start [of i] by (auto simp: is_digit_def byte_def)
qed (auto simp: quote_def)

lemma json_scalar:
  assumes "ends_value r"
  shows "json_value (Suc n) d (json_print JNull @ r) = Some (JNull, r)"
    "json_value (Suc n) d (json_print (JBool b) @ r) = Some (JBool b, r)"
    "unescaped a \<Longrightarrow> json_value (Suc n) d (json_print (JStr a) @ r) = Some (JStr a, r)"
    "json_value (Suc n) d (json_print (JNum (Itoa i)) @ r) = Some (JNum (Itoa i), r)"
proof -
  show "json_value (Suc n) d (json_print JNull @ r) = Some (JNull, r)" by (simp add: skip_ws_start)
  show "json_value (Suc n) d (json_print (JBool b) @ r) = Some (JBool b, r)" by (simp add: skip_ws_start)
  show "json_value (Suc n) d (json_print (JStr a) @ r) = Some (JStr a, r)" if "unescaped a"
    using json_string_plain [OF that] by (simp add: skip_ws_start quote_def)
  obtain c u where cu: "Itoa i = c # u" "is_digit c \<or> c = CHR ''-''" using Itoa_start by blast
  then have "c \<notin> set (quote # '' '' @ [CHR 0x09, CHR 0x0A, CHR 0x0D] @ ''[{ntf'')" by (auto simp: quote_def is_digit_def byte_def)
  then have "c \<noteq> quote" "CHR ''n'' \<noteq> c" "CHR ''t'' \<noteq> c" "CHR ''f'' \<noteq> c" "c \<noteq> CHR ''[''" "c \<noteq> CHR ''{''" "skip_ws (c # u @ r) = c # u @ r"
    by (auto simp: skip_ws_start)
  then show "json_value (Suc n) d (json_print (JNum (Itoa i)) @ r) = Some (JNum (Itoa i), r)"
    using json_number_Itoa [OF assms, of i] cu(1) by (simp add: Let_def)
qed

lemma json_value_arr:
  "json_elems n (d + 1) (c # u) = Some (vs, r) \<Longrightarrow> c \<notin> {CHR '' '', CHR 0x09, CHR 0x0A, CHR 0x0D, CHR '']''} \<Longrightarrow> d < 10000 \<Longrightarrow>
   json_value (Suc n) d (CHR ''['' # c # u) = Some (JArr vs, r)"
  by (simp add: skip_ws_start Let_def quote_def)

lemma json_value_obj:
  "json_members n (d + 1) (c # u) = Some (ms, r) \<Longrightarrow> c \<notin> {CHR '' '', CHR 0x09, CHR 0x0A, CHR 0x0D, CHR ''}''} \<Longrightarrow> d < 10000 \<Longrightarrow>
   json_value (Suc n) d (CHR ''{'' # c # u) = Some (JObj ms, r)"
  by (simp add: skip_ws_start Let_def quote_def)

lemma json_prints_start:
  assumes "\<forall>v \<in> set vs. json_fits d v" and "vs \<noteq> []"
  shows "\<exists>c u. json_prints vs = c # u \<and> c \<notin> {CHR '' '', CHR 0x09, CHR 0x0A, CHR 0x0D, CHR '']'', CHR ''}''}"
proof (cases vs)
  case (Cons v ws)
  then show ?thesis using assms json_print_start [of d v] by auto
qed (use assms in simp)

lemma ends_value_close: "ends_value (CHR '']'' # r)" "ends_value (CHR '','' # r)" "ends_value (CHR ''}'' # r)"
  by (simp_all add: ends_value_def)

lemma json_value_print:
  "json_fits d v \<Longrightarrow> ends_value r \<Longrightarrow> 2 * length (json_print v) < n \<Longrightarrow> json_value n d (json_print v @ r) = Some (v, r)"
  "(\<forall>v \<in> set vs. json_fits d v) \<Longrightarrow> vs \<noteq> [] \<Longrightarrow> 2 * length (json_prints vs) \<le> n \<Longrightarrow> json_elems n d (json_prints vs @ r) = Some (vs, r)"
  "(\<forall>m \<in> set ms. unescaped (fst m) \<and> json_fits d (snd m)) \<Longrightarrow> ms \<noteq> [] \<Longrightarrow> 2 * length (json_pairs ms) \<le> n \<Longrightarrow> json_members n d (json_pairs ms @ r) = Some (ms, r)"
proof (induction v and vs and ms arbitrary: n d r and n d r and n d r rule: json_print_json_prints_json_pairs.induct)
  case 1 then show ?case by (cases n) (simp_all add: json_scalar del: json_value.simps json_print.simps)
next
  case (2 b) then show ?case by (cases n) (simp_all add: json_scalar del: json_value.simps json_print.simps)
next
  case (3 l) then show ?case by (cases n) (auto simp: json_scalar simp del: json_value.simps json_print.simps)
next
  case (4 a) then show ?case by (cases n) (simp_all add: json_scalar del: json_value.simps json_print.simps)
next
  case (5 vs)
  obtain m where n: "n = Suc m" using 5(4) by (cases n) simp_all
  show ?case
  proof (cases "vs = []")
    case True
    then show ?thesis using n 5(2) by (simp add: skip_ws_start Let_def quote_def)
  next
    case False
    have f: "\<forall>v \<in> set vs. json_fits (d + 1) v" "d < 10000" using 5(2) by simp_all
    obtain c u where cu: "json_prints vs = c # u" "c \<notin> {CHR '' '', CHR 0x09, CHR 0x0A, CHR 0x0D, CHR '']'', CHR ''}''}"
      using json_prints_start [OF f(1) False] by blast
    have "json_elems m (d + 1) (json_prints vs @ r) = Some (vs, r)" using 5(1) [OF False f(1) False] 5(4) n False by simp
    then show ?thesis using json_value_arr [of m d c "u @ r" vs r] cu f(2) n False by simp
  qed
next
  case (6 ms)
  obtain m where n: "n = Suc m" using 6(4) by (cases n) simp_all
  show ?case
  proof (cases "ms = []")
    case True
    then show ?thesis using n 6(2) by (simp add: skip_ws_start Let_def quote_def)
  next
    case False
    then have "json_members m (d + 1) (json_pairs ms @ r) = Some (ms, r)" using 6(1) [OF False, of "d + 1"] 6(2,4) n by simp
    then show ?thesis using json_value_obj [of m d quote "tl (json_pairs ms) @ r" ms r] 6(2) n False
      by (cases ms) (simp_all add: quote_def)
  qed
next
  case 7 then show ?case by simp
next
  case (8 v vs)
  obtain m where n: "n = Suc m" using 8(5) json_print_start [of d v] 8(3) by (cases n) auto
  show ?case
  proof (cases "vs = []")
    case True
    then show ?thesis using 8(1) [of d "CHR '']'' # r" m] 8(3,5) n by (simp add: ends_value_close skip_ws_start)
  next
    case False
    then show ?thesis using 8(1) [of d "CHR '','' # json_prints vs @ r" m] 8(2) [of d m r] 8(3,5) n
      by (simp add: ends_value_close skip_ws_start)
  qed
next
  case 9 then show ?case by simp
next
  case (10 e ms)
  obtain k v where e: "e = (k, v)" by (cases e)
  obtain m where n: "n = Suc m" using 10(5) by (cases n) auto
  have k: "unescaped k" "json_fits d v" using 10(3) e by simp_all
  show ?case
  proof (cases "ms = []")
    case True
    then show ?thesis using 10(1) [of d "CHR ''}'' # r" m] 10(5) n json_string_plain [OF k(1)] k(2) e
      by (simp add: ends_value_close skip_ws_start quote_def)
  next
    case False
    then show ?thesis using 10(1) [of d "CHR '','' # json_pairs ms @ r" m] 10(2) [of d m r] 10(3,5) n json_string_plain [OF k(1)] k(2) e
      by (simp add: ends_value_close skip_ws_start quote_def)
  qed
qed


text \<open>The fuel of \<open>Unmarshal\<close> is enough for whatever was printed.\<close>

lemma Unmarshal_print: "json_fits 0 v \<Longrightarrow> Unmarshal (json_print v) = Some v"
  using json_value_print(1) [of 0 v "[]" "2 * length (json_print v) + 1"] by (simp add: Unmarshal_def ends_value_def skip_ws_def)

end
