(* ===== verification/Gpu_Tools.thy ===== *)
theory Gpu_Tools
  imports Gpu Go_Json "HOL-Library.AList"
begin

text \<open>
  Package \<^verbatim>\<open>internal/gpu\<close>, the part that deals with the machine: the backends find their cards by running the vendors' tools and reading what they print,
  start and stop NVIDIA's sharing daemons, and suspend and resume a job. A \<open>machine\<close> answers what the code asks of it (which tools there are, what a run of one
  prints, whether a directory or a signal works, the files under \<^verbatim>\<open>/sys\<close>); an answer may depend on everything done before. What is done is appended to
  a log. An error is \<open>None\<close> or \<open>False\<close>; its text is left out.
\<close>

subsection \<open>The machine\<close>

record tool_call =
  tc_env :: "string list option"
  tc_stdin :: string
  tc_name :: string
  tc_args :: "string list"

datatype gact = Ran tool_call | MkdirAll string | Kill int int

record machine =
  mc_Look :: "gact list \<Rightarrow> string \<Rightarrow> bool"
  mc_Run :: "gact list \<Rightarrow> tool_call \<Rightarrow> string option"
  mc_MkdirAll :: "gact list \<Rightarrow> string \<Rightarrow> bool"
  mc_Kill :: "gact list \<Rightarrow> int \<Rightarrow> int \<Rightarrow> bool"
  mc_ReadDir :: "string \<Rightarrow> string list option"
  mc_ReadFile :: "string \<Rightarrow> string option"
  mc_Environ :: "string list"

definition RunIn :: "machine \<Rightarrow> string list option \<Rightarrow> string \<Rightarrow> string \<Rightarrow> string list \<Rightarrow> gact list \<Rightarrow> string option \<times> gact list" where
  "RunIn m env stdin name args lg =
     (let c = \<lparr>tc_env = env, tc_stdin = stdin, tc_name = name, tc_args = args\<rparr> in (mc_Run m lg c, lg @ [Ran c]))"

definition Run :: "machine \<Rightarrow> string list option \<Rightarrow> string \<Rightarrow> string list \<Rightarrow> gact list \<Rightarrow> string option \<times> gact list" where
  "Run m env name args lg = RunIn m env [] name args lg"

definition kill_group :: "machine \<Rightarrow> int \<Rightarrow> int \<Rightarrow> gact list \<Rightarrow> bool \<times> gact list" where
  "kill_group m pid sig lg = (mc_Kill m lg (- pid) sig, lg @ [Kill (- pid) sig])"

definition SIGCONT :: int where "SIGCONT = 18"
definition SIGSTOP :: int where "SIGSTOP = 19"

subsection \<open>A number of bytes\<close>

text \<open>
  \<^verbatim>\<open>fmt.Sscan\<close> into a \<^verbatim>\<open>float64\<close>. \<open>accept_seq\<close> takes one byte of each set in turn and stops at the first that does not fit; \<open>floatToken\<close> is the text the
  scanner takes for a number, and \<open>convertFloat\<close> its value, with the power of two (\<^verbatim>\<open>1.5p3\<close>) that only \<^verbatim>\<open>fmt\<close> knows.
\<close>

fun accept_seq :: "string list \<Rightarrow> string \<Rightarrow> string \<times> string \<times> bool" where
  "accept_seq [] s = ([], s, True)"
| "accept_seq (cs # css) [] = ([], [], False)"
| "accept_seq (cs # css) (c # t) =
     (if c \<in> set cs then (case accept_seq css t of (b, r, ok) \<Rightarrow> (c # b, r, ok)) else ([], c # t, False))"

definition accept_all :: "string \<Rightarrow> string \<Rightarrow> string \<times> string" where
  "accept_all cs s = (takeWhile (\<lambda>c. c \<in> set cs) s, dropWhile (\<lambda>c. c \<in> set cs) s)"

definition floatToken :: "string \<Rightarrow> string" where
  "floatToken s =
     (case accept_seq [''nN'', ''aA'', ''nN''] s of (b1, r1, nan) \<Rightarrow>
      if nan then b1
      else case accept_seq [''+-''] r1 of (b2, r2, _) \<Rightarrow>
      case accept_seq [''iI'', ''nN'', ''fF''] r2 of (b3, r3, isInf) \<Rightarrow>
      if isInf then b1 @ b2 @ b3
      else case accept_seq [''0'', ''xX''] r3 of (b4, r4, hex) \<Rightarrow>
      let ds = (if hex then ''0123456789aAbBcCdDeEfF_'' else ''0123456789_'') in
      case accept_all ds r4 of (b5, r5) \<Rightarrow>
      case accept_seq [''.''] r5 of (b6, r6, dot) \<Rightarrow>
      case (if dot then accept_all ds r6 else ([], r6)) of (b7, r7) \<Rightarrow>
      case accept_seq [if hex then ''pP'' else ''eEpP''] r7 of (b8, r8, expo) \<Rightarrow>
      let tail = (if expo then (case accept_seq [''+-''] r8 of (b9, r9, _) \<Rightarrow> b9 @ fst (accept_all ''0123456789_'' r9)) else [])
      in b1 @ b2 @ b3 @ b4 @ b5 @ b6 @ b7 @ b8 @ tail)"

text \<open>\<^verbatim>\<open>math.Ldexp\<close>; its exponent is an \<^verbatim>\<open>int\<close> and wraps.\<close>

definition Ldexp :: "rat \<Rightarrow> int \<Rightarrow> float64" where
  "Ldexp q e =
     (if q = 0 then Fin 0
      else let t = (e + rat_exp q + 2 ^ 63) mod 2 ^ 64 - 2 ^ 63
        in if t < - 1075 then Fin 0
           else if t > 1023 then f64_inf (if q < 0 then - 1 else 1)
           else rnd (q * 2 powi (t - rat_exp q)))"

definition convertFloat :: "string \<Rightarrow> float64 option" where
  "convertFloat str =
     (let p = IndexByte str (CHR ''p'')
      in if p \<ge> 0 \<and> CHR ''x'' \<notin> set str \<and> CHR ''X'' \<notin> set str then
           (case (ParseFloat (take (nat p) str), Atoi (drop (nat p + 1) str)) of
              (Some (Fin q), Some e) \<Rightarrow> Some (Ldexp q e)
            | (Some f, Some e) \<Rightarrow> Some f
            | _ \<Rightarrow> None)
         else ParseFloat str)"

text \<open>An error leaves the number at zero.\<close>

definition Sscan_float :: "string \<Rightarrow> float64" where
  "Sscan_float s = (if s = [] then Fin 0 else case convertFloat (floatToken s) of Some v \<Rightarrow> v | None \<Rightarrow> Fin 0)"

definition mib :: "string \<Rightarrow> int" where
  "mib bytesStr = f64_to_int (f64_div (Sscan_float (TrimSpace bytesStr)) (Fin (1024 * 1024)))"

subsection \<open>rocm-smi\<close>

text \<open>
  Decoding into \<^verbatim>\<open>map[string]map[string]string\<close>: \<^verbatim>\<open>null\<close> is the empty map or the empty string, a value of another kind is an error, and a key that comes again replaces.
\<close>

definition decode_string :: "json \<Rightarrow> string option" where
  "decode_string v = (case v of JStr s \<Rightarrow> Some s | JNull \<Rightarrow> Some [] | _ \<Rightarrow> None)"

fun decode_members :: "(json \<Rightarrow> 'a option) \<Rightarrow> (string \<times> json) list \<Rightarrow> (string \<times> 'a) list \<Rightarrow> (string \<times> 'a) list option" where
  "decode_members f [] m = Some m"
| "decode_members f ((k, v) # ms) m = (case f v of None \<Rightarrow> None | Some x \<Rightarrow> decode_members f ms (AList.update k x m))"

definition decode_map :: "(json \<Rightarrow> 'a option) \<Rightarrow> json \<Rightarrow> (string \<times> 'a) list option" where
  "decode_map f v = (case v of JObj ms \<Rightarrow> decode_members f ms [] | JNull \<Rightarrow> Some [] | _ \<Rightarrow> None)"

definition rocm_dev :: "string \<times> env \<Rightarrow> Device option" where
  "rocm_dev e =
     (case e of (key, f) \<Rightarrow>
        if \<not> HasPrefix key ''card'' then None
        else case Atoi (TrimPrefix key ''card'') of None \<Rightarrow> None
          | Some idx \<Rightarrow> Some \<lparr>dv_Index = idx, dv_UUID = first_key f [''Unique ID''],
              dv_Name = first_key f [''Card Series'', ''Card series'', ''Card SKU'', ''Card model''], dv_Vendor = ''amd'',
              dv_MemMiB = mib (first_key f [''VRAM Total Memory (B)'']), dv_Units = 0, dv_Chiplets = 0, dv_Engines = 0\<rparr>)"

text \<open>The loop over the map, in the order of its entries, and the sort.\<close>

definition rocm_devs :: "(string \<times> env) list \<Rightarrow> Device list" where
  "rocm_devs raw = sort_key dv_Index (List.map_filter rocm_dev raw)"

definition parseRocmSMI :: "string \<Rightarrow> Device list option" where
  "parseRocmSMI out =
     (case Unmarshal out of None \<Rightarrow> None
      | Some v \<Rightarrow> (case decode_map (decode_map decode_string) v of None \<Rightarrow> None
          | Some raw \<Rightarrow> if rocm_devs raw = [] then None else Some (rocm_devs raw)))"

subsection \<open>The topology in sysfs\<close>

text \<open>\<^verbatim>\<open>strings.Fields\<close>: the runs of bytes between white space; \<open>cur\<close> is the current one, reversed.\<close>

fun fields_from :: "nat \<Rightarrow> string \<Rightarrow> string \<Rightarrow> string list" where
  "fields_from 0 cur s = (if cur = [] then [] else [rev cur])"
| "fields_from (Suc n) cur s =
     (case s of [] \<Rightarrow> (if cur = [] then [] else [rev cur])
      | c # t \<Rightarrow> (case find (\<lambda>p. prefix p s) white_space of
            None \<Rightarrow> fields_from n (c # cur) t
          | Some p \<Rightarrow> (if cur = [] then [] else [rev cur]) @ fields_from n [] (drop (length p) s)))"

definition Fields :: "string \<Rightarrow> string list" where
  "Fields s = fields_from (length s) [] s"

definition ParseUint :: "string \<Rightarrow> int option" where
  "ParseUint s = (if s \<noteq> [] \<and> list_all is_digit s \<and> int (digits_val s) < 2 ^ 64 then Some (int (digits_val s)) else None)"

definition int_of_uint64 :: "int \<Rightarrow> int" where
  "int_of_uint64 v = (if v < 2 ^ 63 then v else v - 2 ^ 64)"

definition node_props :: "string \<Rightarrow> (string \<times> int) list" where
  "node_props raw = fold (\<lambda>line props. case Fields line of [k, w] \<Rightarrow> (case ParseUint w of Some v \<Rightarrow> AList.update k v props | None \<Rightarrow> props) | _ \<Rightarrow> props)
     (Split raw (bytes [10])) []"

definition prop_of :: "(string \<times> int) list \<Rightarrow> string \<Rightarrow> int" where
  "prop_of props k = (case map_of props k of Some v \<Rightarrow> v | None \<Rightarrow> 0)"

definition plain_uuid :: "(string \<Rightarrow> string) \<Rightarrow> Device \<Rightarrow> string" where
  "plain_uuid uni d = TrimPrefix (ToLower uni (dv_UUID d)) ''0x''"

definition apply_node :: "(string \<Rightarrow> string) \<Rightarrow> (string \<times> int) list \<Rightarrow> Device list \<Rightarrow> Device list" where
  "apply_node uni props devs =
     (let xcc = prop_of props ''num_xcc''; arrays = prop_of props ''array_count''; perEngine = prop_of props ''simd_arrays_per_engine''
      in if prop_of props ''simd_count'' = 0 \<or> xcc = 0 \<or> arrays = 0 \<or> perEngine = 0 then devs
         else map (\<lambda>d. if plain_uuid uni d = hex_nat (nat (prop_of props ''unique_id''))
                then d\<lparr>dv_Chiplets := int_of_uint64 xcc, dv_Engines := int_of_uint64 (arrays div perEngine div xcc)\<rparr> else d) devs)"

definition readTopology :: "machine \<Rightarrow> (string \<Rightarrow> string) \<Rightarrow> string \<Rightarrow> Device list \<Rightarrow> Device list" where
  "readTopology m uni sysRoot devs =
     (let root = Join [sysRoot, ''class/kfd/kfd/topology/nodes'']
      in case mc_ReadDir m root of None \<Rightarrow> devs
         | Some nodes \<Rightarrow> fold (\<lambda>n devs. case mc_ReadFile m (Join [root, n, ''properties'']) of
               None \<Rightarrow> devs
             | Some raw \<Rightarrow> apply_node uni (node_props raw) devs) nodes devs)"

end
