(* ===== verification/Gpu_Backends.thy ===== *)
theory Gpu_Backends
  imports Gpu_Tools
begin

text \<open>
  Package \<^verbatim>\<open>internal/gpu\<close>, the backends: the reader of \<^verbatim>\<open>xpu-smi\<close>, discovery, NVIDIA's sharing daemons, suspending and resuming, and \<^verbatim>\<open>Detect\<close>. The
  interface \<^verbatim>\<open>Backend\<close> is a datatype with a constructor per vendor and a function per method; a method with a pointer receiver returns the backend it leaves.
\<close>

subsection \<open>xpu-smi\<close>

record xpu_dev =
  xd_DeviceID :: int
  xd_DeviceName :: string
  xd_UUID :: string
  xd_MemBytes :: string

definition zero_xpu :: xpu_dev where
  "zero_xpu = \<lparr>xd_DeviceID = 0, xd_DeviceName = [], xd_UUID = [], xd_MemBytes = []\<rparr>"

text \<open>
  Decoding into the struct. A key names a field up to case (\<open>uni_eq\<close> is for keys that are not ASCII), keys without a field are skipped, \<^verbatim>\<open>null\<close> leaves a
  field as it is, and a value of the wrong kind is an error.
\<close>

definition decode_field :: "(string \<Rightarrow> string \<Rightarrow> bool) \<Rightarrow> string \<times> json \<Rightarrow> xpu_dev \<Rightarrow> xpu_dev option" where
  "decode_field uni_eq kv d =
     (case kv of (k, v) \<Rightarrow>
        let text = (\<lambda>upd. case v of JStr s \<Rightarrow> Some (upd s) | JNull \<Rightarrow> Some d | _ \<Rightarrow> None)
        in if EqualFold uni_eq k ''device_id'' then
             (case v of JNum l \<Rightarrow> map_option (\<lambda>i. d\<lparr>xd_DeviceID := i\<rparr>) (Atoi l) | JNull \<Rightarrow> Some d | _ \<Rightarrow> None)
           else if EqualFold uni_eq k ''device_name'' then text (\<lambda>s. d\<lparr>xd_DeviceName := s\<rparr>)
           else if EqualFold uni_eq k ''uuid'' then text (\<lambda>s. d\<lparr>xd_UUID := s\<rparr>)
           else if EqualFold uni_eq k ''memory_physical_size_byte'' then text (\<lambda>s. d\<lparr>xd_MemBytes := s\<rparr>)
           else Some d)"

fun decode_fields :: "(string \<Rightarrow> string \<Rightarrow> bool) \<Rightarrow> (string \<times> json) list \<Rightarrow> xpu_dev \<Rightarrow> xpu_dev option" where
  "decode_fields uni_eq [] d = Some d"
| "decode_fields uni_eq (kv # ms) d = (case decode_field uni_eq kv d of None \<Rightarrow> None | Some d' \<Rightarrow> decode_fields uni_eq ms d')"

definition decode_xpu :: "(string \<Rightarrow> string \<Rightarrow> bool) \<Rightarrow> json \<Rightarrow> xpu_dev \<Rightarrow> xpu_dev option" where
  "decode_xpu uni_eq v d = (case v of JObj ms \<Rightarrow> decode_fields uni_eq ms d | JNull \<Rightarrow> Some d | _ \<Rightarrow> None)"

text \<open>
  An array decodes into a slice element by element; when the key comes again the elements the slice already has are decoded over, so the slice is its
  backing array and its length.
\<close>

fun decode_elems :: "(string \<Rightarrow> string \<Rightarrow> bool) \<Rightarrow> json list \<Rightarrow> xpu_dev list \<Rightarrow> xpu_dev list option" where
  "decode_elems uni_eq [] bs = Some bs"
| "decode_elems uni_eq (v # vs) bs =
     (case decode_xpu uni_eq v (case bs of b # _ \<Rightarrow> b | [] \<Rightarrow> zero_xpu) of None \<Rightarrow> None
      | Some d \<Rightarrow> map_option ((#) d) (decode_elems uni_eq vs (tl bs)))"

fun decode_list :: "(string \<Rightarrow> string \<Rightarrow> bool) \<Rightarrow> (string \<times> json) list \<Rightarrow> xpu_dev list \<times> nat \<Rightarrow> (xpu_dev list \<times> nat) option" where
  "decode_list uni_eq [] acc = Some acc"
| "decode_list uni_eq ((k, v) # ms) (bs, n) =
     (if \<not> EqualFold uni_eq k ''device_list'' then decode_list uni_eq ms (bs, n)
      else case v of
          JNull \<Rightarrow> decode_list uni_eq ms ([], 0)
        | JArr vs \<Rightarrow>
            if vs = [] then decode_list uni_eq ms ([], 0)
            else (case decode_elems uni_eq vs bs of None \<Rightarrow> None | Some bs' \<Rightarrow> decode_list uni_eq ms (bs', length vs))
        | _ \<Rightarrow> None)"

definition xpu_to_dev :: "xpu_dev \<Rightarrow> Device" where
  "xpu_to_dev d = \<lparr>dv_Index = xd_DeviceID d, dv_UUID = xd_UUID d, dv_Name = xd_DeviceName d, dv_Vendor = ''intel'',
     dv_MemMiB = mib (xd_MemBytes d), dv_Units = 0, dv_Chiplets = 0, dv_Engines = 0\<rparr>"

definition parseXPUSMI :: "(string \<Rightarrow> string \<Rightarrow> bool) \<Rightarrow> string \<Rightarrow> Device list option" where
  "parseXPUSMI uni_eq out =
     (case Unmarshal out of None \<Rightarrow> None
      | Some v \<Rightarrow>
          (case (case v of JObj ms \<Rightarrow> decode_list uni_eq ms ([], 0) | JNull \<Rightarrow> Some ([], 0) | _ \<Rightarrow> None) of None \<Rightarrow> None
           | Some (bs, n) \<Rightarrow> if n = 0 then None else Some (map xpu_to_dev (take n bs))))"

subsection \<open>Backends\<close>

record NVIDIABackend =
  nb_started :: "Device list"
  nb_stateDir :: string

record AMDBackend =
  ab_Shim :: string
  ab_SysRoot :: string
  ab_devs :: "Device list"

datatype Backend = NVIDIAb NVIDIABackend | AMDb AMDBackend | Intelb | Fakeb "Device list"

definition NewNVIDIA :: Backend where
  "NewNVIDIA = NVIDIAb \<lparr>nb_started = [], nb_stateDir = []\<rparr>"

definition NewAMD :: "string \<Rightarrow> Backend" where
  "NewAMD shim = AMDb \<lparr>ab_Shim = shim, ab_SysRoot = ''/sys'', ab_devs = []\<rparr>"

definition NewIntel :: Backend where
  "NewIntel = Intelb"

fun Vendor :: "Backend \<Rightarrow> string" where
  "Vendor (NVIDIAb _) = ''nvidia''"
| "Vendor (AMDb _) = ''amd''"
| "Vendor Intelb = ''intel''"
| "Vendor (Fakeb _) = ''fake''"

fun Backend_Caps :: "machine \<Rightarrow> gact list \<Rightarrow> Backend \<Rightarrow> Caps" where
  "Backend_Caps m lg (NVIDIAb _) = nvidia_Caps (mc_Look m lg ''cuda-checkpoint'')"
| "Backend_Caps m lg (AMDb b) = amd_Caps (ab_devs b) (ab_Shim b)"
| "Backend_Caps m lg Intelb = intel_Caps"
| "Backend_Caps m lg (Fakeb _) = fake_Caps"

fun Backend_JobEnv :: "(string \<Rightarrow> string) \<Rightarrow> Backend \<Rightarrow> Device \<Rightarrow> gpu_Slot \<Rightarrow> string \<Rightarrow> env" where
  "Backend_JobEnv uni (NVIDIAb _) dev s sdir = nvidia_JobEnv dev s sdir"
| "Backend_JobEnv uni (AMDb b) dev s sdir = amd_JobEnv uni (ab_Shim b) dev s sdir"
| "Backend_JobEnv uni Intelb dev s sdir = intel_JobEnv dev s sdir"
| "Backend_JobEnv uni (Fakeb _) dev s sdir = fake_JobEnv dev s sdir"

subsection \<open>Discovery\<close>

definition nvidia_Discover :: "machine \<Rightarrow> gact list \<Rightarrow> Device list option \<times> gact list" where
  "nvidia_Discover m lg =
     (if \<not> mc_Look m lg ''nvidia-smi'' then (None, lg)
      else case Run m None ''nvidia-smi'' [''--query-gpu=index,uuid,name,memory.total'', ''--format=csv,noheader,nounits''] lg of
        (None, lg') \<Rightarrow> (None, lg')
      | (Some out, lg') \<Rightarrow> (parseNvidiaSMI out, lg'))"

text \<open>The counts of \<^verbatim>\<open>rocminfo\<close> go to the cards by position; a card beyond them keeps zero.\<close>

definition set_units :: "int list \<Rightarrow> Device list \<Rightarrow> Device list" where
  "set_units units devs = map (\<lambda>i. if i < length units then (devs ! i)\<lparr>dv_Units := units ! i\<rparr> else devs ! i) [0..<length devs]"

definition amd_Discover :: "machine \<Rightarrow> (string \<Rightarrow> string) \<Rightarrow> AMDBackend \<Rightarrow> gact list \<Rightarrow> AMDBackend \<times> Device list option \<times> gact list" where
  "amd_Discover m uni b lg =
     (if \<not> mc_Look m lg ''rocm-smi'' then (b, None, lg)
      else case Run m None ''rocm-smi'' [''--showproductname'', ''--showmeminfo'', ''vram'', ''--showuniqueid'', ''--json''] lg of
        (None, lg') \<Rightarrow> (b, None, lg')
      | (Some out, lg') \<Rightarrow>
          (case parseRocmSMI out of None \<Rightarrow> (b, None, lg')
           | Some devs \<Rightarrow>
               (case (if mc_Look m lg' ''rocminfo''
                      then (case Run m None ''rocminfo'' [] lg' of
                              (None, lg2) \<Rightarrow> (devs, lg2)
                            | (Some info, lg2) \<Rightarrow> (set_units (parseRocminfoUnits info) devs, lg2))
                      else (devs, lg')) of (devs2, lg2) \<Rightarrow>
                let devs3 = readTopology m uni (ab_SysRoot b) devs2 in (b\<lparr>ab_devs := devs3\<rparr>, Some devs3, lg2))))"

definition intel_Discover :: "machine \<Rightarrow> (string \<Rightarrow> string \<Rightarrow> bool) \<Rightarrow> gact list \<Rightarrow> Device list option \<times> gact list" where
  "intel_Discover m uni_eq lg =
     (if \<not> mc_Look m lg ''xpu-smi'' then (None, lg)
      else case Run m None ''xpu-smi'' [''discovery'', ''-j''] lg of
        (None, lg') \<Rightarrow> (None, lg')
      | (Some out, lg') \<Rightarrow> (parseXPUSMI uni_eq out, lg'))"

fun Discover :: "machine \<Rightarrow> (string \<Rightarrow> string) \<Rightarrow> (string \<Rightarrow> string \<Rightarrow> bool) \<Rightarrow> Backend \<Rightarrow> gact list \<Rightarrow> Backend \<times> Device list option \<times> gact list" where
  "Discover m uni uni_eq (NVIDIAb b) lg = (NVIDIAb b, nvidia_Discover m lg)"
| "Discover m uni uni_eq (AMDb b) lg = (case amd_Discover m uni b lg of (b', r, lg') \<Rightarrow> (AMDb b', r, lg'))"
| "Discover m uni uni_eq Intelb lg = (Intelb, intel_Discover m uni_eq lg)"
| "Discover m uni uni_eq (Fakeb devs) lg = (Fakeb devs, Some devs, lg)"

fun detect_each :: "machine \<Rightarrow> (string \<Rightarrow> string) \<Rightarrow> (string \<Rightarrow> string \<Rightarrow> bool) \<Rightarrow> Backend list \<Rightarrow> gact list \<Rightarrow> Backend list \<times> gact list" where
  "detect_each m uni uni_eq [] lg = ([], lg)"
| "detect_each m uni uni_eq (b # bs) lg =
     (case Discover m uni uni_eq b lg of (b', r, lg') \<Rightarrow>
      case detect_each m uni uni_eq bs lg' of (rest, lg'') \<Rightarrow>
        (if (case r of None \<Rightarrow> False | Some devs \<Rightarrow> devs \<noteq> []) then (b' # rest, lg'') else (rest, lg'')))"

definition Detect :: "machine \<Rightarrow> (string \<Rightarrow> string) \<Rightarrow> (string \<Rightarrow> string \<Rightarrow> bool) \<Rightarrow> string \<Rightarrow> gact list \<Rightarrow> Backend list \<times> gact list" where
  "Detect m uni uni_eq shim lg = detect_each m uni uni_eq [NewNVIDIA, NewAMD shim, NewIntel] lg"

subsection \<open>NVIDIA's sharing daemons\<close>

definition mps_control :: string where
  "mps_control = ''nvidia-cuda-mps-control''"

definition mps_env :: "machine \<Rightarrow> string \<Rightarrow> int \<Rightarrow> string list" where
  "mps_env m sdir idx =
     (case mpsDirs sdir idx of (pipe, logd) \<Rightarrow> mc_Environ m @ [''CUDA_MPS_PIPE_DIRECTORY='' @ pipe, ''CUDA_MPS_LOG_DIRECTORY='' @ logd])"

text \<open>The body of the loop of \<^verbatim>\<open>Start\<close>: whether the daemon of the card runs now.\<close>

definition mps_start_one :: "machine \<Rightarrow> string \<Rightarrow> Device \<Rightarrow> gact list \<Rightarrow> bool \<times> gact list" where
  "mps_start_one m sdir d lg =
     (case mpsDirs sdir (dv_Index d) of (pipe, logd) \<Rightarrow>
        let lg1 = lg @ [MkdirAll pipe]; lg2 = lg1 @ [MkdirAll logd]
        in if \<not> mc_MkdirAll m lg pipe then (False, lg1)
           else if \<not> mc_MkdirAll m lg1 logd then (False, lg2)
           else case Run m (Some (mps_env m sdir (dv_Index d) @ [''CUDA_VISIBLE_DEVICES='' @ Itoa (dv_Index d)])) mps_control [''-d''] lg2 of
             (r, lg3) \<Rightarrow> (r \<noteq> None, lg3))"

fun mps_start :: "machine \<Rightarrow> string \<Rightarrow> Device list \<Rightarrow> NVIDIABackend \<Rightarrow> gact list \<Rightarrow> NVIDIABackend \<times> bool \<times> gact list" where
  "mps_start m sdir [] b lg = (b\<lparr>nb_stateDir := sdir\<rparr>, True, lg)"
| "mps_start m sdir (d # ds) b lg =
     (case mps_start_one m sdir d lg of (ok, lg') \<Rightarrow>
        if ok then mps_start m sdir ds (b\<lparr>nb_started := nb_started b @ [d]\<rparr>) lg' else (b, False, lg'))"

definition nvidia_Start :: "machine \<Rightarrow> string \<Rightarrow> Device list \<Rightarrow> NVIDIABackend \<Rightarrow> gact list \<Rightarrow> NVIDIABackend \<times> bool \<times> gact list" where
  "nvidia_Start m sdir devs b lg = (if \<not> mc_Look m lg mps_control then (b, False, lg) else mps_start m sdir devs b lg)"

fun mps_stop :: "machine \<Rightarrow> string \<Rightarrow> Device list \<Rightarrow> gact list \<Rightarrow> bool \<times> gact list" where
  "mps_stop m sdir [] lg = (True, lg)"
| "mps_stop m sdir (d # ds) lg =
     (case RunIn m (Some (mps_env m sdir (dv_Index d))) (''quit'' @ bytes [10]) mps_control [] lg of (r, lg') \<Rightarrow>
      case mps_stop m sdir ds lg' of (ok, lg'') \<Rightarrow> (r \<noteq> None \<and> ok, lg''))"

definition nvidia_Stop :: "machine \<Rightarrow> NVIDIABackend \<Rightarrow> gact list \<Rightarrow> NVIDIABackend \<times> bool \<times> gact list" where
  "nvidia_Stop m b lg = (case mps_stop m (nb_stateDir b) (nb_started b) lg of (ok, lg') \<Rightarrow> (b\<lparr>nb_started := []\<rparr>, ok, lg'))"

fun Start_backend :: "machine \<Rightarrow> string \<Rightarrow> Device list \<Rightarrow> Backend \<Rightarrow> gact list \<Rightarrow> Backend \<times> bool \<times> gact list" where
  "Start_backend m sdir devs (NVIDIAb b) lg = (case nvidia_Start m sdir devs b lg of (b', ok, lg') \<Rightarrow> (NVIDIAb b', ok, lg'))"
| "Start_backend m sdir devs b lg = (b, True, lg)"

fun Stop_backend :: "machine \<Rightarrow> Backend \<Rightarrow> gact list \<Rightarrow> Backend \<times> bool \<times> gact list" where
  "Stop_backend m (NVIDIAb b) lg = (case nvidia_Stop m b lg of (b', ok, lg') \<Rightarrow> (NVIDIAb b', ok, lg'))"
| "Stop_backend m b lg = (b, True, lg)"

subsection \<open>Suspending and resuming\<close>

definition toggle :: "machine \<Rightarrow> int \<Rightarrow> gact list \<Rightarrow> string option \<times> gact list" where
  "toggle m pid lg = Run m None ''cuda-checkpoint'' [''--toggle'', ''--pid'', Itoa pid] lg"

definition nvidia_Suspend :: "machine \<Rightarrow> int \<Rightarrow> gact list \<Rightarrow> bool \<times> gact list" where
  "nvidia_Suspend m pid lg =
     (case kill_group m pid SIGSTOP lg of (ok, lg1) \<Rightarrow>
        if \<not> ok then (False, lg1)
        else if mc_Look m lg1 ''cuda-checkpoint'' then
          (case toggle m pid lg1 of
             (None, lg2) \<Rightarrow> (False, snd (kill_group m pid SIGCONT lg2))
           | (Some _, lg2) \<Rightarrow> (True, lg2))
        else (True, lg1))"

definition nvidia_Resume :: "machine \<Rightarrow> int \<Rightarrow> gact list \<Rightarrow> bool \<times> gact list" where
  "nvidia_Resume m pid lg =
     (if mc_Look m lg ''cuda-checkpoint'' then
        (case toggle m pid lg of
           (None, lg1) \<Rightarrow> (False, lg1)
         | (Some _, lg1) \<Rightarrow> kill_group m pid SIGCONT lg1)
      else kill_group m pid SIGCONT lg)"

fun Suspend_job :: "machine \<Rightarrow> Backend \<Rightarrow> int \<Rightarrow> gact list \<Rightarrow> bool \<times> gact list" where
  "Suspend_job m (NVIDIAb _) pid lg = nvidia_Suspend m pid lg"
| "Suspend_job m _ pid lg = kill_group m pid SIGSTOP lg"

fun Resume_job :: "machine \<Rightarrow> Backend \<Rightarrow> int \<Rightarrow> gact list \<Rightarrow> bool \<times> gact list" where
  "Resume_job m (NVIDIAb _) pid lg = nvidia_Resume m pid lg"
| "Resume_job m _ pid lg = kill_group m pid SIGCONT lg"

end
