(* ===== verification/Daemon_Start.thy ===== *)
theory Daemon_Start
  imports Daemon Gpu_Backends
begin

text \<open>
  \<^verbatim>\<open>New\<close> and \<^verbatim>\<open>Close\<close> of \<^verbatim>\<open>internal/daemon\<close>, over the backends and the machine: which cards a daemon starts with, which sharing daemons run for them, and
  what it leaves when it ends or fails. \<open>New_daemon\<close> of theory \<open>Daemon\<close> is the part after discovery.
\<close>

subsection \<open>The code\<close>

record Config =
  cf_StateDir :: string
  cf_Seats :: int
  cf_Fake :: string

datatype new_error = NoStateDir | BadFake | NoGPUs | DiscoverFailed string | StartFailed string | NoLedger

text \<open>The loop over the backends: discover again, start; the devices of each.\<close>

fun start_backends :: "machine \<Rightarrow> (string \<Rightarrow> string) \<Rightarrow> (string \<Rightarrow> string \<Rightarrow> bool) \<Rightarrow> string \<Rightarrow> Backend list \<Rightarrow> gact list \<Rightarrow>
    (new_error + (Backend \<times> Device list) list) \<times> gact list" where
  "start_backends m uni uni_eq sdir [] lg = (Inr [], lg)"
| "start_backends m uni uni_eq sdir (b # bs) lg =
     (case Discover m uni uni_eq b lg of (b1, r, lg1) \<Rightarrow>
      case r of None \<Rightarrow> (Inl (DiscoverFailed (Vendor b)), lg1)
      | Some devs \<Rightarrow>
          (case Start_backend m sdir devs b1 lg1 of (b2, ok, lg2) \<Rightarrow>
             if \<not> ok then (Inl (StartFailed (Vendor b)), lg2)
             else (case start_backends m uni uni_eq sdir bs lg2 of
                 (Inl e, lg3) \<Rightarrow> (Inl e, lg3)
               | (Inr rest, lg3) \<Rightarrow> (Inr ((b2, devs) # rest), lg3))))"

text \<open>
  \<open>uni\<close> and \<open>up\<close> map the case of strings that are not ASCII, \<open>shim\<close> is \<^verbatim>\<open>GMUX_SHIM\<close>, \<open>ledger\<close> the lines of the usage file, or \<open>None\<close> when it cannot be opened. With the daemon come
  its backends, which \<^verbatim>\<open>Close\<close> needs.
\<close>

definition find_backends :: "machine \<Rightarrow> (string \<Rightarrow> string) \<Rightarrow> (string \<Rightarrow> string) \<Rightarrow> (string \<Rightarrow> string \<Rightarrow> bool) \<Rightarrow> string \<Rightarrow> Config \<Rightarrow> gact list \<Rightarrow>
    (new_error + Backend list) \<times> gact list" where
  "find_backends m uni up uni_eq shim cfg lg =
     (if cf_Fake cfg \<noteq> [] then (case NewFake up (cf_Fake cfg) of None \<Rightarrow> (Inl BadFake, lg) | Some devs \<Rightarrow> (Inr [Fakeb devs], lg))
      else case Detect m uni uni_eq shim lg of (bs, lg') \<Rightarrow> if bs = [] then (Inl NoGPUs, lg') else (Inr bs, lg'))"

definition daemon_parts :: "machine \<Rightarrow> (string \<Rightarrow> string) \<Rightarrow> gact list \<Rightarrow> (Backend \<times> Device list) list \<Rightarrow> (string \<times> backend \<times> Device list) list" where
  "daemon_parts m uni lg bds = map (\<lambda>(b, devs). (Vendor b, \<lparr>be_JobEnv = Backend_JobEnv uni b, be_Caps = Backend_Caps m lg b\<rparr>, devs)) bds"

definition Daemon_New :: "machine \<Rightarrow> (string \<Rightarrow> string) \<Rightarrow> (string \<Rightarrow> string) \<Rightarrow> (string \<Rightarrow> string \<Rightarrow> bool) \<Rightarrow> string \<Rightarrow> Interval option list option \<Rightarrow> Config \<Rightarrow>
    gact list \<Rightarrow> (new_error + Daemon \<times> Backend list) \<times> gact list" where
  "Daemon_New m uni up uni_eq shim ledger cfg lg =
     (let lg1 = lg @ [MkdirAll (cf_StateDir cfg)]
      in if \<not> mc_MkdirAll m lg (cf_StateDir cfg) then (Inl NoStateDir, lg1)
         else case find_backends m uni up uni_eq shim cfg lg1 of
             (Inl e, lg2) \<Rightarrow> (Inl e, lg2)
           | (Inr bs, lg2) \<Rightarrow>
               (case start_backends m uni uni_eq (cf_StateDir cfg) bs lg2 of
                  (Inl e, lg3) \<Rightarrow> (Inl e, lg3)
                | (Inr bds, lg3) \<Rightarrow>
                    (case ledger of None \<Rightarrow> (Inl NoLedger, lg3)
                     | Some lines \<Rightarrow> (Inr (New_daemon (cf_StateDir cfg) (cf_Seats cfg) (daemon_parts m uni lg3 bds) lines, map fst bds), lg3))))"

fun Close :: "machine \<Rightarrow> Backend list \<Rightarrow> gact list \<Rightarrow> gact list" where
  "Close m [] lg = lg"
| "Close m (b # bs) lg = Close m bs (snd (snd (Stop_backend m b lg)))"

subsection \<open>The sharing daemons of a log\<close>

text \<open>The call that starts the sharing daemon of a card, and the one that asks it to quit.\<close>

definition mps_up :: "machine \<Rightarrow> string \<Rightarrow> Device \<Rightarrow> gact" where
  "mps_up m sdir d = Ran \<lparr>tc_env = Some (mps_env m sdir (dv_Index d) @ [''CUDA_VISIBLE_DEVICES='' @ Itoa (dv_Index d)]), tc_stdin = [],
     tc_name = mps_control, tc_args = [''-d'']\<rparr>"

definition mps_quit :: "machine \<Rightarrow> string \<Rightarrow> Device \<Rightarrow> gact" where
  "mps_quit m sdir d = Ran \<lparr>tc_env = Some (mps_env m sdir (dv_Index d)), tc_stdin = ''quit'' @ bytes [10], tc_name = mps_control, tc_args = []\<rparr>"

text \<open>A call of the log that succeeded.\<close>

definition succeeded :: "machine \<Rightarrow> gact list \<Rightarrow> gact \<Rightarrow> bool" where
  "succeeded m lg a \<longleftrightarrow> (\<exists>pre post c. lg = pre @ a # post \<and> a = Ran c \<and> mc_Run m pre c \<noteq> None)"

lemma succeeded_append: "succeeded m lg a \<Longrightarrow> succeeded m (lg @ after_it) a"
  unfolding succeeded_def by fastforce

lemma mps_start_one_up:
  assumes "mps_start_one m sdir d lg = (True, lg')"
  shows "succeeded m lg' (mps_up m sdir d)" and "\<exists>after_it. lg' = lg @ after_it"
proof -
  let ?p = "fst (mpsDirs sdir (dv_Index d))" and ?l = "snd (mpsDirs sdir (dv_Index d))"
  let ?c = "\<lparr>tc_env = Some (mps_env m sdir (dv_Index d) @ [''CUDA_VISIBLE_DEVICES='' @ Itoa (dv_Index d)]), tc_stdin = [],
     tc_name = mps_control, tc_args = [''-d'']\<rparr>"
  let ?pre = "lg @ [MkdirAll ?p, MkdirAll ?l]"
  have e: "lg' = ?pre @ [mps_up m sdir d]" "mc_Run m ?pre ?c \<noteq> None"
    using assms by (auto simp: mps_start_one_def Run_def RunIn_def mps_up_def Let_def split: prod.splits if_splits)
  then show "\<exists>after_it. lg' = lg @ after_it" by simp
  show "succeeded m lg' (mps_up m sdir d)"
    unfolding succeeded_def using e by (intro exI [of _ ?pre] exI [of _ "[]"] exI [of _ ?c]) (simp add: mps_up_def)
qed

lemma mps_start_up:
  assumes "mps_start m sdir ds b lg = (b', True, lg')"
  shows "b' = \<lparr>nb_started = nb_started b @ ds, nb_stateDir = sdir\<rparr> \<and> (\<forall>d \<in> set ds. succeeded m lg' (mps_up m sdir d)) \<and> (\<exists>after_it. lg' = lg @ after_it)"
  using assms
proof (induction ds arbitrary: b lg)
  case (Cons d ds)
  obtain ok lg1 where one: "mps_start_one m sdir d lg = (ok, lg1)" by fastforce
  then have ok: ok "mps_start m sdir ds (b\<lparr>nb_started := nb_started b @ [d]\<rparr>) lg1 = (b', True, lg')"
    using Cons.prems by (auto split: if_splits)
  note rest = Cons.IH [OF ok(2)]
  have "mps_start_one m sdir d lg = (True, lg1)" using one ok(1) by simp
  note up = mps_start_one_up [OF this]
  show ?case using up rest succeeded_append by auto
qed auto

lemma mps_stop_all: "snd (mps_stop m sdir ds lg) = lg @ map (mps_quit m sdir) ds"
proof (induction ds arbitrary: lg)
  case (Cons d ds)
  show ?case using Cons.IH by (simp add: RunIn_def mps_quit_def Let_def split: prod.splits) (metis snd_conv append_Cons append_assoc append_Nil)
qed simp


subsection \<open>What a new daemon has\<close>

lemma Run_log: "Run m env name args lg = (r, lg') \<Longrightarrow> \<exists>x. lg' = lg @ x"
  by (auto simp: Run_def RunIn_def Let_def)

lemma Discover_log:
  assumes "Discover m uni uni_eq b lg = (b', r, lg')"
  shows "\<exists>x. lg' = lg @ x"
proof (cases b)
  case (NVIDIAb nb)
  then show ?thesis using assms by (auto simp: nvidia_Discover_def dest: Run_log split: if_splits option.splits prod.splits)
next
  case (AMDb ab)
  have "\<exists>x. l3 = lg @ x" if "amd_Discover m uni ab lg = (b1, r1, l3)" for b1 r1 l3
    using that by (auto simp: amd_Discover_def Let_def split: if_splits option.splits prod.splits dest!: Run_log)
  then show ?thesis using AMDb assms by (auto split: prod.splits)
next
  case Intelb
  then show ?thesis using assms by (auto simp: intel_Discover_def dest: Run_log split: if_splits option.splits prod.splits)
qed (use assms in auto)

text \<open>A backend that has not started anything; discovery leaves it so.\<close>

fun idle :: "Backend \<Rightarrow> bool" where
  "idle (NVIDIAb nb) = (nb_started nb = [])"
| "idle _ = True"

lemma Discover_same: "Discover m uni uni_eq b lg = (b', r, lg') \<Longrightarrow> idle b' = idle b \<and> Vendor b' = Vendor b"
  by (cases b) (auto split: prod.splits)

lemma detect_each_idle: "detect_each m uni uni_eq bs lg = (bs', lg') \<Longrightarrow> list_all idle bs \<Longrightarrow> list_all idle bs'"
proof (induction bs arbitrary: lg bs')
  case (Cons b bs)
  then show ?case by (auto split: prod.splits if_splits dest: Discover_same)
qed simp

lemma find_backends_idle: "find_backends m uni up uni_eq shim cfg lg = (Inr bs, lg') \<Longrightarrow> list_all idle bs"
  by (auto simp: find_backends_def Detect_def NewNVIDIA_def NewAMD_def NewIntel_def split: if_splits option.splits prod.splits dest!: detect_each_idle)

text \<open>A backend with the devices it was started on.\<close>

fun shared :: "machine \<Rightarrow> string \<Rightarrow> gact list \<Rightarrow> Backend \<times> Device list \<Rightarrow> bool" where
  "shared m sdir lg (NVIDIAb nb, devs) = (nb = \<lparr>nb_started = devs, nb_stateDir = sdir\<rparr> \<and> (\<forall>d \<in> set devs. succeeded m lg (mps_up m sdir d)))"
| "shared m sdir lg _ = True"

lemma shared_append: "shared m sdir lg bd \<Longrightarrow> shared m sdir (lg @ x) bd"
  by (cases "(m, sdir, lg, bd)" rule: shared.cases) (auto simp: succeeded_append)

lemma Start_shared:
  assumes "Start_backend m sdir devs b lg = (b', True, lg')" and "idle b"
  shows "shared m sdir lg' (b', devs) \<and> (\<exists>x. lg' = lg @ x)"
  using assms by (cases b) (auto simp: nvidia_Start_def split: prod.splits if_splits dest!: mps_start_up)

lemma start_backends_shared:
  "start_backends m uni uni_eq sdir bs lg = (Inr bds, lg') \<Longrightarrow> list_all idle bs \<Longrightarrow> list_all (shared m sdir lg') bds \<and> (\<exists>x. lg' = lg @ x)"
proof (induction bs arbitrary: lg bds)
  case (Cons b bs)
  obtain b1 r lg1 where d: "Discover m uni uni_eq b lg = (b1, r, lg1)" by (metis prod_cases3)
  then obtain devs where r: "r = Some devs" using Cons.prems by (cases r) auto
  obtain b2 ok lg2 where s: "Start_backend m sdir devs b1 lg1 = (b2, ok, lg2)" by (metis prod_cases3)
  then have ok: ok using Cons.prems d r by (cases ok) auto
  obtain rest where rest: "start_backends m uni uni_eq sdir bs lg2 = (Inr rest, lg')" "bds = (b2, devs) # rest"
    using Cons.prems d r s ok by (auto split: prod.splits sum.splits)
  have "shared m sdir lg2 (b2, devs)" "\<exists>x. lg2 = lg1 @ x" using Start_shared [of m sdir devs b1 lg1 b2 lg2] s ok Discover_same [OF d] Cons.prems(2) by auto
  moreover have "\<exists>x. lg1 = lg @ x" using Discover_log [OF d] .
  ultimately show ?case using Cons.IH [OF rest(1)] Cons.prems(2) rest(2) shared_append by fastforce
qed simp

definition nvidia_devs :: "(Backend \<times> Device list) list \<Rightarrow> Device list" where
  "nvidia_devs bds = concat (map (\<lambda>(b, devs). if Vendor b = ''nvidia'' then devs else []) bds)"

lemma Close_quits: "list_all (shared m sdir lg0) bds \<Longrightarrow> Close m (map fst bds) lg = lg @ map (mps_quit m sdir) (nvidia_devs bds)"
proof (induction bds arbitrary: lg)
  case (Cons bd bds)
  obtain b devs where bd: "bd = (b, devs)" by fastforce
  show ?case
    using Cons mps_stop_all [of m sdir devs lg] unfolding bd nvidia_devs_def
    by (cases b) (auto simp: nvidia_Stop_def split: prod.splits)
qed (simp add: nvidia_devs_def)


lemma New_daemon_cards:
  "map snd (dm_byCard (New_daemon sdir seats found lines)) = concat (map (\<lambda>(v, b, ds). map (\<lambda>dv. \<lparr>cr_vendor = v, cr_dev = dv\<rparr>) ds) found)"
proof -
  have "map (\<lambda>p. f (snd p)) (zip (map int [0..<length ds]) ds) = map f ds" for ds and f :: "string \<times> Device \<Rightarrow> cardRef"
  proof -
    have "map (\<lambda>p. f (snd p)) (zip (map int [0..<length ds]) ds) = map f (map snd (zip (map int [0..<length ds]) ds))" by (simp only: map_map comp_def)
    also have "\<dots> = map f ds" by (subst map_snd_zip) simp_all
    finally show ?thesis .
  qed
  from this [of "\<lambda>(v, dv). \<lparr>cr_vendor = v, cr_dev = dv\<rparr>"] show ?thesis
    by (simp add: New_daemon_def Let_def case_prod_beta' comp_def map_concat)
qed

lemma nvidia_backend:
  "Vendor b = ''nvidia'' \<Longrightarrow> Backend_JobEnv uni b = nvidia_JobEnv"
  by (cases b) (auto intro!: ext)

lemma found_backend:
  assumes "(b, devs) \<in> set bds" and "Vendor b = ''nvidia''"
  shows "\<exists>be. map_of (map (\<lambda>(v, b, ds). (v, b)) (daemon_parts m uni lg bds)) ''nvidia'' = Some be \<and> be_JobEnv be = nvidia_JobEnv"
  using assms
proof (induction bds)
  case (Cons bd bds)
  obtain b' devs' where bd: "bd = (b', devs')" by fastforce
  show ?case
  proof (cases "Vendor b' = ''nvidia''")
    case True
    then show ?thesis by (simp add: bd daemon_parts_def nvidia_backend)
  next
    case False
    then show ?thesis using Cons by (auto simp: bd daemon_parts_def)
  qed
qed simp

text \<open>The references of the NVIDIA cards of a daemon, in the order of the cards.\<close>

definition nvidia_cards :: "Daemon \<Rightarrow> Device list" where
  "nvidia_cards d = map cr_dev (filter (\<lambda>r. cr_vendor r = ''nvidia'') (map snd (dm_byCard d)))"

lemma nvidia_cards_New: "nvidia_cards (New_daemon sdir seats (daemon_parts m uni lg bds) lines) = nvidia_devs bds"
  unfolding nvidia_cards_def New_daemon_cards nvidia_devs_def daemon_parts_def
  by (induction bds) (auto simp: comp_def)

lemma byCard_found:
  assumes "map_of (dm_byCard (New_daemon sdir seats (daemon_parts m uni lg bds) lines)) i = Some ref"
  shows "\<exists>b devs. (b, devs) \<in> set bds \<and> cr_vendor ref = Vendor b \<and> cr_dev ref \<in> set devs"
proof -
  have "ref \<in> set (map snd (dm_byCard (New_daemon sdir seats (daemon_parts m uni lg bds) lines)))" using map_of_SomeD [OF assms] by force
  then show ?thesis unfolding New_daemon_cards by (auto simp: daemon_parts_def) blast
qed

lemma New_then_Close:
  assumes "Daemon_New m uni up uni_eq shim ledger cfg lg = (Inr (d, bs), lg')"
  shows "Close m bs lg' = lg' @ map (mps_quit m (dm_stateDir d)) (nvidia_cards d)"
proof -
  let ?sd = "cf_StateDir cfg"
  obtain bs0 lg2 bds lines where f: "find_backends m uni up uni_eq shim cfg (lg @ [MkdirAll ?sd]) = (Inr bs0, lg2)"
    and s: "start_backends m uni uni_eq ?sd bs0 lg2 = (Inr bds, lg')"
    and d: "d = New_daemon ?sd (cf_Seats cfg) (daemon_parts m uni lg' bds) lines" "bs = map fst bds"
    using assms by (auto simp: Daemon_New_def Let_def split: if_splits prod.splits sum.splits option.splits)
  have "list_all (shared m ?sd lg') bds" using start_backends_shared [OF s find_backends_idle [OF f]] by simp
  moreover have "dm_stateDir d = ?sd" by (simp add: d New_daemon_def Let_def)
  ultimately show ?thesis using Close_quits nvidia_cards_New d by metis
qed

text \<open>
  C19: a daemon that comes up has, for every NVIDIA card, started that card's sharing daemon: the run that started it succeeded, it sees the card a job of the card is shown, and it
  listens in the directory the job's environment names, whatever the job's share. Closing the daemon asks exactly these sharing daemons to quit, each once, even when one
  of them does not answer.
\<close>

theorem jobs_reach_their_sharing_daemon:
  assumes "Daemon_New m uni up uni_eq shim ledger cfg lg = (Inr (d, bs), lg')"
  shows "(\<forall>sl ref. map_of (dm_byCard d) (sl_Card sl) = Some ref \<and> cr_vendor ref = ''nvidia'' \<longrightarrow>
      (\<exists>pre c post pipe card. lg' = pre @ Ran c # post \<and> mc_Run m pre c \<noteq> None \<and> tc_name c = mps_control \<and> tc_args c = [''-d''] \<and>
        map_of (slot_env d sl) ''CUDA_MPS_PIPE_DIRECTORY'' = Some pipe \<and> map_of (slot_env d sl) ''CUDA_VISIBLE_DEVICES'' = Some card \<and>
        card = Itoa (dv_Index (cr_dev ref)) \<and>
        tc_env c = Some (mc_Environ m @ [''CUDA_MPS_PIPE_DIRECTORY='' @ pipe, ''CUDA_MPS_LOG_DIRECTORY='' @ snd (mpsDirs (dm_stateDir d) (dv_Index (cr_dev ref))),
          ''CUDA_VISIBLE_DEVICES='' @ card]))) \<and>
    Close m bs lg' = lg' @ map (mps_quit m (dm_stateDir d)) (nvidia_cards d)"
proof -
  let ?sd = "cf_StateDir cfg"
  obtain bs0 lg2 bds lines where f: "find_backends m uni up uni_eq shim cfg (lg @ [MkdirAll ?sd]) = (Inr bs0, lg2)"
    and s: "start_backends m uni uni_eq ?sd bs0 lg2 = (Inr bds, lg')"
    and d: "d = New_daemon ?sd (cf_Seats cfg) (daemon_parts m uni lg' bds) lines" "bs = map fst bds"
    using assms by (auto simp: Daemon_New_def Let_def split: if_splits prod.splits sum.splits option.splits)
  have sh: "list_all (shared m ?sd lg') bds" using start_backends_shared [OF s find_backends_idle [OF f]] by simp
  have sd: "dm_stateDir d = ?sd" by (simp add: d New_daemon_def Let_def)
  have up: "\<exists>pre c post pipe card. lg' = pre @ Ran c # post \<and> mc_Run m pre c \<noteq> None \<and> tc_name c = mps_control \<and> tc_args c = [''-d''] \<and>
        map_of (slot_env d sl) ''CUDA_MPS_PIPE_DIRECTORY'' = Some pipe \<and> map_of (slot_env d sl) ''CUDA_VISIBLE_DEVICES'' = Some card \<and>
        card = Itoa (dv_Index (cr_dev ref)) \<and>
        tc_env c = Some (mc_Environ m @ [''CUDA_MPS_PIPE_DIRECTORY='' @ pipe, ''CUDA_MPS_LOG_DIRECTORY='' @ snd (mpsDirs (dm_stateDir d) (dv_Index (cr_dev ref))),
          ''CUDA_VISIBLE_DEVICES='' @ card])"
    if r: "map_of (dm_byCard d) (sl_Card sl) = Some ref" "cr_vendor ref = ''nvidia''" for sl ref
  proof -
    obtain b devs where b: "(b, devs) \<in> set bds" "Vendor b = ''nvidia''" "cr_dev ref \<in> set devs" using byCard_found r d(1) by metis
    then obtain nb where nb: "b = NVIDIAb nb" by (cases b) auto
    have "shared m ?sd lg' (b, devs)" using sh b(1) by (auto simp: list_all_iff)
    then have "succeeded m lg' (mps_up m ?sd (cr_dev ref))" using b(3) nb by simp
    then obtain pre post c where c: "lg' = pre @ Ran c # post" "mc_Run m pre c \<noteq> None" "Ran c = mps_up m ?sd (cr_dev ref)"
      unfolding succeeded_def by metis
    have "dm_backends d = map (\<lambda>(v, b, ds). (v, b)) (daemon_parts m uni lg' bds)" by (simp add: d New_daemon_def Let_def)
    then obtain be where be: "map_of (dm_backends d) ''nvidia'' = Some be" "be_JobEnv be = nvidia_JobEnv"
      using found_backend [OF b(1,2)] by metis
    have env: "slot_env d sl = nvidia_JobEnv (cr_dev ref) \<lparr>gs_Seats = sl_Seats sl, gs_SeatsPerCard = dm_seats d, gs_MemMiB = sl_MemMiB sl,
          gs_ComputePercent = sl_ComputePercent sl, gs_SeatIDs = map nat (sl_SeatIDs sl)\<rparr> ?sd"
      using r be by (simp add: slot_env_def card_ref_def Let_def sd)
    have cc: "tc_env c = Some (mps_env m ?sd (dv_Index (cr_dev ref)) @ [''CUDA_VISIBLE_DEVICES='' @ Itoa (dv_Index (cr_dev ref))])"
      "tc_name c = mps_control" "tc_args c = [''-d'']" using c(3) by (simp_all add: mps_up_def)
    have e: "map_of (slot_env d sl) ''CUDA_MPS_PIPE_DIRECTORY'' = Some (fst (mpsDirs ?sd (dv_Index (cr_dev ref))))"
      "map_of (slot_env d sl) ''CUDA_VISIBLE_DEVICES'' = Some (Itoa (dv_Index (cr_dev ref)))"
      by (simp_all add: env nvidia_JobEnv_def case_prod_unfold)
    have "tc_env c = Some (mc_Environ m @ [''CUDA_MPS_PIPE_DIRECTORY='' @ fst (mpsDirs ?sd (dv_Index (cr_dev ref))),
        ''CUDA_MPS_LOG_DIRECTORY='' @ snd (mpsDirs (dm_stateDir d) (dv_Index (cr_dev ref))), ''CUDA_VISIBLE_DEVICES='' @ Itoa (dv_Index (cr_dev ref))])"
      unfolding cc sd mps_env_def case_prod_unfold by simp
    with c(1,2) cc(2,3) e show ?thesis by blast
  qed
  show ?thesis using up New_then_Close [OF assms] by blast
qed


definition demo_machine :: "string \<Rightarrow> machine" where
  "demo_machine broken =
     \<lparr>mc_Look = (\<lambda>_ n. n = ''nvidia-smi'' \<or> n = mps_control),
      mc_Run = (\<lambda>_ c. if tc_name c = ''nvidia-smi'' then Some (''0, a, L4, 24'' @ bytes [10] @ ''1, b, L4, 24'' @ bytes [10])
         else if tc_env c \<noteq> None \<and> broken \<in> set (the (tc_env c)) then None else Some []),
      mc_MkdirAll = (\<lambda>_ _. True), mc_Kill = (\<lambda>_ _ _. True), mc_ReadDir = (\<lambda>_. None), mc_ReadFile = (\<lambda>_. None), mc_Environ = [''HOME=/r'']\<rparr>"

definition demo_new :: "string \<Rightarrow> (new_error + Daemon \<times> Backend list) \<times> gact list" where
  "demo_new broken = Daemon_New (demo_machine broken) id id (\<lambda>_ _. False) [] (Some []) \<lparr>cf_StateDir = ''/s'', cf_Seats = 4, cf_Fake = []\<rparr> []"

lemma demo_new_ok: "(case fst (demo_new []) of Inl _ \<Rightarrow> False | Inr (d, bs) \<Rightarrow> length (nvidia_cards d) = 2)"
  by code_simp

theorem jobs_reach_their_sharing_daemon_witness:
  "\<exists>d bs lg'. demo_new [] = (Inr (d, bs), lg') \<and> length (nvidia_cards d) = 2 \<and>
     Close (demo_machine []) bs lg' = lg' @ map (mps_quit (demo_machine []) (dm_stateDir d)) (nvidia_cards d)"
proof -
  obtain d bs lg' where n: "demo_new [] = (Inr (d, bs), lg')" using demo_new_ok by (auto split: sum.splits prod.splits) (metis prod.collapse)
  then have "length (nvidia_cards d) = 2" using demo_new_ok by simp
  then show ?thesis using n jobs_reach_their_sharing_daemon [OF n [unfolded demo_new_def]] by blast
qed

text \<open>
  When the daemon of a later card does not start, \<^verbatim>\<open>New\<close> returns the error and drops the backend: the sharing daemon of the earlier card has been started and nothing asks it to quit.
\<close>

lemma failed_New_leaves_sharing_daemons:
  "fst (demo_new ''CUDA_VISIBLE_DEVICES=1'') = Inl (StartFailed ''nvidia'') \<and>
   filter (\<lambda>a. case a of Ran c \<Rightarrow> tc_name c = mps_control | _ \<Rightarrow> False) (snd (demo_new ''CUDA_VISIBLE_DEVICES=1'')) =
     map (\<lambda>i. mps_up (demo_machine []) ''/s'' \<lparr>dv_Index = i, dv_UUID = [], dv_Name = [], dv_Vendor = [], dv_MemMiB = 0, dv_Units = 0, dv_Chiplets = 0, dv_Engines = 0\<rparr>) [0, 1]"
proof (rule conjI)
  have "case fst (demo_new ''CUDA_VISIBLE_DEVICES=1'') of Inl e \<Rightarrow> e = StartFailed ''nvidia'' | Inr _ \<Rightarrow> False" by code_simp
  then show "fst (demo_new ''CUDA_VISIBLE_DEVICES=1'') = Inl (StartFailed ''nvidia'')" by (auto split: sum.splits)
qed code_simp

end
