(* ===== verification/Gpu_Discovery.thy ===== *)
theory Gpu_Discovery
  imports Gpu_Backends Gpu_Properties Gmux_Prelude
begin

text \<open>
  What discovery finds: a number of bytes becomes whole MiB, the cards of \<^verbatim>\<open>rocm-smi\<close> are read from the JSON it prints whatever the order of Go's map, and the topology fills in
  only what it matches. Then suspending and resuming a job.
\<close>

subsection \<open>Bytes to MiB\<close>

lemma rnd_dyadic:
  assumes "\<bar>i\<bar> \<le> 2 ^ 52" and "k \<le> 52"
  shows "rnd (of_int i / 2 ^ k) = Fin (of_int i / 2 ^ k)"
proof (cases "i = 0")
  case False
  define q :: rat where "q = of_int i / 2 ^ k"
  have "\<bar>(of_int i :: rat)\<bar> \<le> 2 ^ 52" using assms(1) by (metis of_int_abs of_int_le_iff of_int_numeral of_int_power)
  then have b: "\<bar>q\<bar> \<le> 2 ^ (52 - k)" using assms(2) by (simp add: q_def field_simps flip: power_add)
  have nz: "q \<noteq> 0" using False by (simp add: q_def)
  have e: "rat_exp q \<le> int (52 - k)" using rat_exp_le [OF nz b] .
  define w where "w = 52 - max (rat_exp q) (- 1022) - int k"
  have w: "0 \<le> w" using e assms(2) unfolding w_def by auto
  have "q / ulp q = of_int i * (2 powi (52 - max (rat_exp q) (- 1022)) / 2 ^ k)" by (simp add: ulp_def power_int_diff field_simps) (simp add: q_def)
  also have "2 powi (52 - max (rat_exp q) (- 1022)) / 2 ^ k = (2 powi w :: rat)" by (simp add: w_def power_int_diff)
  also have "of_int i * (2 powi w :: rat) = of_int (i * 2 ^ nat w)" using w by (simp add: power_int_def)
  finally have v: "q / ulp q = of_int (i * 2 ^ nat w)" .
  then have "of_int (i * 2 ^ nat w) * ulp q = q" by (metis nonzero_mult_div_cancel_right times_divide_eq_left ulp_nonzero)
  moreover have "rhe (q / ulp q) = i * 2 ^ nat w" unfolding v by (rule rhe_of_int)
  moreover have "rat_exp q \<le> 52" using e by simp
  ultimately have "rnd q = Fin q" using nz by (simp only: rnd_def Let_def) simp
  then show ?thesis unfolding q_def .
qed (simp add: rnd_def)

lemma accept_none: "\<not> (s \<noteq> [] \<and> hd s \<in> set cs) \<Longrightarrow> accept_seq (cs # css) s = ([], s, False)"
  by (cases s) simp_all

lemma byte_inj: "byte c = byte d \<Longrightarrow> c = d"
  by (simp add: byte_def)

lemma digit_class: "is_digit c \<longleftrightarrow> c \<in> set ''0123456789''"
proof
  assume "is_digit c"
  then have "byte c \<in> byte ` set ''0123456789''" by (simp add: byte_def is_digit_def) presburger
  then show "c \<in> set ''0123456789''" using byte_inj by fast
qed (auto simp: is_digit_def byte_def)

lemma floatToken_digits:
  assumes "list_all is_digit s"
  shows "floatToken s = s"
proof -
  have d: "set s \<subseteq> set ''0123456789''" using assms by (auto simp: list_all_iff digit_class)
  have h: "accept_seq [''nN'', ''aA'', ''nN''] s = ([], s, False)" "accept_seq [''+-''] s = ([], s, False)" "accept_seq [''iI'', ''nN'', ''fF''] s = ([], s, False)"
    using d by (cases s; auto)+
  obtain b4 r4 where z: "accept_seq [''0'', ''xX''] s = (b4, r4, False)" "b4 @ r4 = s"
  proof (cases s)
    case (Cons c t)
    show thesis
    proof (cases "c = CHR ''0''")
      case True
      have "accept_seq [''xX''] t = ([], t, False)" using d Cons by (cases t) auto
      then show thesis using that Cons True by simp
    qed (use that Cons in simp)
  qed (use that in simp)
  have "set r4 \<subseteq> set ''0123456789_''" using z(2) d by auto
  then have "accept_all ''0123456789_'' r4 = (r4, [])" by (auto simp: accept_all_def subset_iff takeWhile_eq_all_conv dropWhile_eq_Nil_conv)
  then show ?thesis using z by (simp add: floatToken_def h Let_def)
qed

lemma Index_absent: "c \<notin> set s \<Longrightarrow> index_from k s [c] = - 1"
  by (induction s arbitrary: k) auto

text \<open>A decimal number of bytes is rounded down to whole MiB, exactly up to \<open>2^52\<close> bytes (four petabytes).\<close>

lemma mib_digits:
  assumes "list_all is_digit s" and "s \<noteq> []" and "digits_val s \<le> 2 ^ 52"
  shows "mib s = int (digits_val s div 2 ^ 20)"
proof -
  have g: "graphic (hd s)" "graphic (last s)" using assms(1,2) is_digit_graphic by (auto simp: list_all_iff)
  have t: "TrimSpace s = s" using TrimSpace_graphic assms(2) g by blast
  have p: "CHR ''p'' \<notin> set s" using assms(1) by (auto simp: list_all_iff is_digit_def byte_def)
  have "Sscan_float s = Fin (of_nat (digits_val s))"
    using assms(2) ParseFloat_digits [OF assms] floatToken_digits [OF assms(1)] Index_absent [OF p, of 0]
    by (simp add: Sscan_float_def convertFloat_def IndexByte_def Index_def)
  moreover have "int (digits_val s) \<le> int (2 ^ 52)" using assms(3) by (simp only: of_nat_le_iff)
  then have "rnd (of_int (int (digits_val s)) / 2 ^ 20) = Fin (of_int (int (digits_val s)) / 2 ^ 20)" by (intro rnd_dyadic) simp_all
  moreover have "f64_to_int (Fin (of_int (int (digits_val s)) / 2 ^ 20)) = int (digits_val s) div 2 ^ 20"
  proof -
    have "\<lfloor>of_int (int (digits_val s)) / (2 ^ 20 :: rat)\<rfloor> = int (digits_val s) div 2 ^ 20"
      using floor_divide_of_int_eq [of "int (digits_val s)" "2 ^ 20"] by simp
    moreover have "int64_ok (int (digits_val s) div 2 ^ 20)"
    proof (rule int64_okI)
      show "int (digits_val s) div 2 ^ 20 \<le> 2 ^ 60" using \<open>int (digits_val s) \<le> int (2 ^ 52)\<close> by simp
    qed simp
    ultimately show ?thesis by simp
  qed
  ultimately show ?thesis by (simp add: mib_def t zdiv_int)
qed


subsection \<open>The cards of rocm-smi\<close>

text \<open>The JSON of a table of cards.\<close>

definition rocm_text :: "(string \<times> env) list \<Rightarrow> string" where
  "rocm_text raw = json_print (JObj (map (\<lambda>(k, f). (k, JObj (map (\<lambda>(a, b). (a, JStr b)) f))) raw))"

lemma update_fresh: "k \<notin> fst ` set m \<Longrightarrow> AList.update k v m = m @ [(k, v)]"
  by (induction m) auto

lemma decode_members_all:
  "(\<forall>(k, x) \<in> set kvs. f (g x) = Some x) \<Longrightarrow> distinct (map fst (m @ kvs)) \<Longrightarrow> decode_members f (map (\<lambda>(k, x). (k, g x)) kvs) m = Some (m @ kvs)"
proof (induction kvs arbitrary: m)
  case (Cons e kvs)
  obtain k x where e: "e = (k, x)" by fastforce
  then have "AList.update k x m = m @ [(k, x)]" using Cons.prems(2) by (intro update_fresh) auto
  then show ?case using Cons.prems Cons.IH [of "m @ [(k, x)]"] by (simp add: e)
qed simp

lemma decode_table:
  assumes "distinct (map fst raw)" and "\<forall>(k, f) \<in> set raw. distinct (map fst f)"
  shows "decode_map (decode_map decode_string) (JObj (map (\<lambda>(k, f). (k, JObj (map (\<lambda>(a, b). (a, JStr b)) f))) raw)) = Some raw"
proof -
  have "decode_map decode_string (JObj (map (\<lambda>(a, b). (a, JStr b)) f)) = Some f" if "distinct (map fst f)" for f
    using decode_members_all [of f decode_string JStr "[]"] that by (simp add: decode_map_def decode_string_def)
  then have "\<forall>(k, f) \<in> set raw. decode_map decode_string (JObj (map (\<lambda>(a, b). (a, JStr b)) f)) = Some f" using assms(2) by auto
  then show ?thesis
    using decode_members_all [of raw "decode_map decode_string" "\<lambda>f. JObj (map (\<lambda>(a, b). (a, JStr b)) f)" "[]"] assms(1) by (simp add: decode_map_def)
qed

definition printable_table :: "(string \<times> env) list \<Rightarrow> bool" where
  "printable_table raw \<longleftrightarrow> distinct (map fst raw) \<and>
     list_all (\<lambda>(k, f). unescaped k \<and> distinct (map fst f) \<and> list_all (\<lambda>(a, b). unescaped a \<and> unescaped b) f) raw"

lemma parseRocmSMI_text:
  assumes "printable_table raw"
  shows "parseRocmSMI (rocm_text raw) = (if rocm_devs raw = [] then None else Some (rocm_devs raw))"
proof -
  have "json_fits 0 (JObj (map (\<lambda>(k, f). (k, JObj (map (\<lambda>(a, b). (a, JStr b)) f))) raw))"
    using assms by (fastforce simp: printable_table_def list_all_iff)
  note u = Unmarshal_print [OF this]
  have "\<forall>(k, f) \<in> set raw. distinct (map fst f)" using assms by (auto simp: printable_table_def list_all_iff)
  note d = decode_table [OF _ this]
  show ?thesis using u d assms by (simp add: parseRocmSMI_def rocm_text_def printable_table_def del: json_print.simps)
qed

lemma rocm_dev_card:
  assumes "int64_ok i"
  shows "rocm_dev (''card'' @ Itoa i, f) = Some \<lparr>dv_Index = i, dv_UUID = first_key f [''Unique ID''],
      dv_Name = first_key f [''Card Series'', ''Card series'', ''Card SKU'', ''Card model''], dv_Vendor = ''amd'',
      dv_MemMiB = mib (first_key f [''VRAM Total Memory (B)'']), dv_Units = 0, dv_Chiplets = 0, dv_Engines = 0\<rparr>"
  using Atoi_Itoa [OF assms] by (simp add: rocm_dev_def HasPrefix_def TrimPrefix_def)

text \<open>
  C27: discovery on AMD reads what \<^verbatim>\<open>rocm-smi\<close> prints: a table of cards printed as JSON (with ids that differ) becomes the devices in the order of their numbers, the same whatever order Go visits
  the map in; every key \<^verbatim>\<open>card\<close> with a number gives a device with that number, its unique id, and its memory in whole MiB. An empty table is an error.
\<close>

theorem rocm_cards_read:
  assumes "printable_table raw" and "distinct (map dv_Index (List.map_filter rocm_dev raw))"
  shows "parseRocmSMI (rocm_text raw) = (if rocm_devs raw = [] then None else Some (rocm_devs raw)) \<and>
    sorted (map dv_Index (rocm_devs raw)) \<and> (\<forall>raw'. mset raw' = mset raw \<longrightarrow> rocm_devs raw' = rocm_devs raw) \<and>
    (\<forall>i f n. (''card'' @ Itoa i, f) \<in> set raw \<and> int64_ok i \<and> first_key f [''VRAM Total Memory (B)''] = itoa_nat n \<and> n \<le> 2 ^ 52 \<longrightarrow>
      (\<exists>d \<in> set (rocm_devs raw). dv_Index d = i \<and> dv_UUID d = first_key f [''Unique ID''] \<and> dv_MemMiB d = int (n div 2 ^ 20)))"
proof (intro conjI allI impI)
  show "parseRocmSMI (rocm_text raw) = (if rocm_devs raw = [] then None else Some (rocm_devs raw))" using parseRocmSMI_text [OF assms(1)] .
  show "sorted (map dv_Index (rocm_devs raw))" by (simp add: rocm_devs_def)
next
  fix raw' assume "mset raw' = mset raw"
  then have "mset (List.map_filter rocm_dev raw) = mset (List.map_filter rocm_dev raw')" by (simp add: List.map_filter_def)
  then show "rocm_devs raw' = rocm_devs raw" unfolding rocm_devs_def
    using sort_key_unique [of "List.map_filter rocm_dev raw" "List.map_filter rocm_dev raw'" dv_Index] assms(2) by (simp add: distinct_map)
next
  fix i f n
  assume a: "(''card'' @ Itoa i, f) \<in> set raw \<and> int64_ok i \<and> first_key f [''VRAM Total Memory (B)''] = itoa_nat n \<and> n \<le> 2 ^ 52"
  then have "the (rocm_dev (''card'' @ Itoa i, f)) \<in> set (rocm_devs raw)"
    using rocm_dev_card [of i f] by (force simp: rocm_devs_def List.map_filter_def)
  moreover have "mib (itoa_nat n) = int (n div 2 ^ 20)" using mib_digits [OF itoa_nat_digits itoa_nat_nonempty] a by simp
  ultimately show "\<exists>d \<in> set (rocm_devs raw). dv_Index d = i \<and> dv_UUID d = first_key f [''Unique ID''] \<and> dv_MemMiB d = int (n div 2 ^ 20)"
    using a rocm_dev_card [of i f] by (intro bexI) auto
qed

lemma TrimSpace_digits: "list_all is_digit s \<Longrightarrow> s \<noteq> [] \<Longrightarrow> TrimSpace s = s"
  using TrimSpace_graphic [of s] is_digit_graphic by (auto simp: list_all_iff)

lemma unescaped_digits: "list_all is_digit s \<Longrightarrow> unescaped s"
  by (auto simp: unescaped_def list_all_iff is_digit_def quote_def backslash_def byte_def)

definition demo_rocm :: "(string \<times> env) list" where
  "demo_rocm = [(''system'', []), (''card'' @ Itoa 1, [(''VRAM Total Memory (B)'', itoa_nat 5000000)]), (''card'' @ Itoa 0, [(''Unique ID'', ''0x1f'')])]"

theorem rocm_cards_read_witness:
  "\<exists>d \<in> set (rocm_devs demo_rocm). dv_Index d = 1 \<and> dv_MemMiB d = 4"
proof -
  have i: "Itoa 0 = ''0''" "Itoa 1 = ''1''" by code_simp+
  have "unescaped ''system''" "unescaped ''card0''" "unescaped ''card1''" "unescaped ''VRAM Total Memory (B)''" "unescaped ''Unique ID''" "unescaped ''0x1f''"
    by code_simp+
  then have p: "printable_table demo_rocm" using unescaped_digits [OF itoa_nat_digits] by (simp add: printable_table_def demo_rocm_def i)
  have "rocm_dev (''system'', []) = None" by (simp add: rocm_dev_def HasPrefix_def)
  moreover have o: "int64_ok 0" "int64_ok 1" by (simp_all add: int64_ok_def)
  ultimately have "distinct (map dv_Index (List.map_filter rocm_dev demo_rocm))"
    unfolding demo_rocm_def List.map_filter_def by (simp add: rocm_dev_card [simplified])
  note c = rocm_cards_read [OF p this]
  have "first_key [(''VRAM Total Memory (B)'', itoa_nat 5000000)] [''VRAM Total Memory (B)''] = itoa_nat 5000000"
    by (simp add: first_key_def TrimSpace_digits itoa_nat_digits)
  then have "\<exists>d \<in> set (rocm_devs demo_rocm). dv_Index d = 1 \<and> dv_MemMiB d = int (5000000 div 2 ^ 20)"
    using c [THEN conjunct2, THEN conjunct2, THEN conjunct2, rule_format, of 1 "[(''VRAM Total Memory (B)'', itoa_nat 5000000)]" 5000000] o(2)
    unfolding demo_rocm_def by auto
  then show ?thesis by simp
qed


subsection \<open>The topology\<close>

text \<open>Everything but the two counts of the topology.\<close>

abbreviation apart_from_topology :: "Device \<Rightarrow> Device" where
  "apart_from_topology d \<equiv> d\<lparr>dv_Chiplets := 0, dv_Engines := 0\<rparr>"

lemma apply_node_keeps: "map apart_from_topology (apply_node uni props devs) = map apart_from_topology devs"
  by (simp add: apply_node_def Let_def)

lemma readTopology_keeps: "map apart_from_topology (readTopology m uni sysRoot devs) = map apart_from_topology devs"
proof -
  have "map apart_from_topology (fold (\<lambda>n devs. case f n of None \<Rightarrow> devs | Some raw \<Rightarrow> apply_node uni (node_props raw) devs) ns devs) = map apart_from_topology devs"
    for f and ns :: "string list"
    by (induction ns arbitrary: devs) (simp_all add: apply_node_keeps split: option.split)
  then show ?thesis by (simp add: readTopology_def Let_def split: option.split)
qed

text \<open>
  Nodes are matched by the text of the id: the kernel's number in hexadecimal, without leading zeros. A card whose unique id is written with a leading zero matches no node, not even
  its own.
\<close>

lemma hex_nat_zero: "hex_nat n = CHR ''0'' # t \<Longrightarrow> t = []"
proof (induction n arbitrary: t rule: hex_nat.induct)
  case (1 n)
  show ?case
  proof (cases "n < 16")
    case True
    then show ?thesis using 1(2) by (subst (asm) hex_nat.simps) simp
  next
    case False
    obtain c u where h: "hex_nat (n div 16) = c # u" by (cases "hex_nat (n div 16)") (subst (asm) hex_nat.simps, auto split: if_splits)
    have e: "hex_nat n = hex_nat (n div 16) @ [hex_char (n mod 16)]" using False by (subst hex_nat.simps) simp
    then have "c = CHR ''0''" using h 1(2) by simp
    then have "hex_nat (n div 16) = ''0''" using 1(1) [OF False, of u] h by simp
    then have "mask_val (''0x'' @ hex_nat (n div 16)) = 0" by (simp add: mask_val_def hex_val_def is_digit_def byte_def digit_def)
    then have "n div 16 = 0" using hex_nat_val [of "n div 16"] by (simp add: mask_val_def)
    then show ?thesis using False by simp
  qed
qed

lemma leading_zero_matches_no_node: "plain_uuid uni d = CHR ''0'' # c # t \<Longrightarrow> apply_node uni props [d] = [d]"
  using hex_nat_zero [of "nat (prop_of props ''unique_id'')" "c # t"] by (auto simp: apply_node_def Let_def dest: sym)

lemma readTopology_misses_leading_zero:
  assumes "plain_uuid uni d = CHR ''0'' # c # t"
  shows "readTopology m uni sysRoot [d] = [d]"
proof -
  have "fold (\<lambda>n devs. case f n of None \<Rightarrow> devs | Some raw \<Rightarrow> apply_node uni (node_props raw) devs) ns [d] = [d]" for f and ns :: "string list"
    using leading_zero_matches_no_node [OF assms] by (induction ns) (simp_all split: option.split)
  then show ?thesis by (simp add: readTopology_def Let_def split: option.split)
qed

subsection \<open>Suspending and resuming\<close>

text \<open>
  What the actions of a log do to a process group: whether it is stopped, and whether its GPU state is moved to the host. A signal that is delivered stops or continues it; a run of
  \<^verbatim>\<open>cuda-checkpoint --toggle\<close> on it that succeeds moves the state to the other side, which is what the tool is documented to do. \<open>pre\<close> is the log before.
\<close>

definition act_on :: "machine \<Rightarrow> int \<Rightarrow> gact list \<Rightarrow> gact \<Rightarrow> bool \<times> bool \<Rightarrow> bool \<times> bool" where
  "act_on m pid pre a st =
     (case a of
        Kill p sig \<Rightarrow> if p = - pid \<and> mc_Kill m pre p sig then (if sig = SIGSTOP then True else if sig = SIGCONT then False else fst st, snd st) else st
      | Ran c \<Rightarrow> if tc_name c = ''cuda-checkpoint'' \<and> tc_args c = [''--toggle'', ''--pid'', Itoa pid] \<and> mc_Run m pre c \<noteq> None then (fst st, \<not> snd st) else st
      | MkdirAll _ \<Rightarrow> st)"

fun replay :: "machine \<Rightarrow> int \<Rightarrow> gact list \<Rightarrow> gact list \<Rightarrow> bool \<times> bool \<Rightarrow> bool \<times> bool" where
  "replay m pid pre [] st = st"
| "replay m pid pre (a # as) st = replay m pid (pre @ [a]) as (act_on m pid pre a st)"

text \<open>
  A running job that NVIDIA's backend suspends without an error is stopped, and its GPU state is on the host exactly when the tool for that is there; when suspending reports an
  error the job runs with its state on the card as before (unless even the signal that continues it fails). Resuming it without an error brings it back, as long as the tool has not come or gone
  meanwhile; an error leaves it stopped.
\<close>

theorem suspend_then_resume:
  assumes "nvidia_Suspend m pid lg = (ok, lg @ x)" and "nvidia_Resume m pid lg' = (ok', lg' @ y)"
  defines "tool \<equiv> mc_Look m (lg @ [Kill (- pid) SIGSTOP]) ''cuda-checkpoint''"
  shows "(ok \<longrightarrow> replay m pid lg x (False, False) = (True, tool)) \<and>
    (\<not> ok \<and> (\<forall>pre. mc_Kill m pre (- pid) SIGCONT) \<longrightarrow> replay m pid lg x (False, False) = (False, False)) \<and>
    (ok' \<and> mc_Look m lg' ''cuda-checkpoint'' = tool \<longrightarrow> replay m pid lg' y (True, tool) = (False, False)) \<and>
    (\<not> ok' \<longrightarrow> fst (replay m pid lg' y (True, tool)))"
  using assms(1,2) unfolding tool_def
  by (auto simp: nvidia_Suspend_def nvidia_Resume_def kill_group_def toggle_def Run_def RunIn_def Let_def act_on_def SIGSTOP_def SIGCONT_def
      split: if_splits prod.splits option.splits)

theorem suspend_then_resume_witness:
  "let m = \<lparr>mc_Look = (\<lambda>_ n. n = ''cuda-checkpoint''), mc_Run = (\<lambda>_ _. Some []), mc_MkdirAll = (\<lambda>_ _. True), mc_Kill = (\<lambda>_ _ _. True),
      mc_ReadDir = (\<lambda>_. None), mc_ReadFile = (\<lambda>_. None), mc_Environ = []\<rparr>
   in replay m 7 [] (snd (nvidia_Suspend m 7 [])) (False, False) = (True, True) \<and>
      replay m 7 [] (snd (nvidia_Resume m 7 [])) (True, True) = (False, False)"
proof -
  define m where "m = \<lparr>mc_Look = (\<lambda>_ n. n = ''cuda-checkpoint''), mc_Run = (\<lambda>_ _. Some []), mc_MkdirAll = (\<lambda>_ _. True), mc_Kill = (\<lambda>_ _ _. True),
      mc_ReadDir = (\<lambda>_. None), mc_ReadFile = (\<lambda>_. None), mc_Environ = []\<rparr>"
  have "fst (nvidia_Suspend m 7 [])" "fst (nvidia_Resume m 7 [])"
    by (simp_all add: m_def nvidia_Suspend_def nvidia_Resume_def kill_group_def toggle_def Run_def RunIn_def Let_def)
  then have "nvidia_Suspend m 7 [] = (True, [] @ snd (nvidia_Suspend m 7 []))" "nvidia_Resume m 7 [] = (True, [] @ snd (nvidia_Resume m 7 []))"
    by (metis append_Nil prod.collapse)+
  from suspend_then_resume [OF this] have "replay m 7 [] (snd (nvidia_Suspend m 7 [])) (False, False) = (True, True)"
    "replay m 7 [] (snd (nvidia_Resume m 7 [])) (True, True) = (False, False)" by (simp_all add: m_def)
  then show ?thesis unfolding m_def Let_def by blast
qed

end
