(* ===== verification/Runtime.thy ===== *)
theory Runtime
  imports Gmux_Prelude Gpu
begin

text \<open>
  Package \<^verbatim>\<open>internal/runtime\<close> and the child's side of it, \<^verbatim>\<open>fenceChild\<close> of \<^verbatim>\<open>cmd/gmux/main.go\<close>: the environment and the command line a
  job is started with, plainly or through the fence. A command is the argument vector, the environment and the directory of the process;
  what the kernel answers is an argument of \<open>Start\<close>, and the calls made are listed in order. The process group, the
  waiting goroutine and the clock are not modelled; the exit code is a function of the wait status.
\<close>

subsection \<open>The environment\<close>

definition base_env :: "string list \<Rightarrow> env" where
  "base_env base = fold (\<lambda>kv m. let i = IndexByte kv (CHR ''='') in
     if i > 0 then AList.update (take (nat i) kv) (drop (nat i + 1) kv) m else m) base []"

definition merged_env :: "string list \<Rightarrow> env \<Rightarrow> env" where
  "merged_env base extra = fold (\<lambda>(k, v) m. AList.update k v m) extra (base_env base)"

definition runtime_env :: "string list \<Rightarrow> env \<Rightarrow> string list" where
  "runtime_env base extra = sort (map (\<lambda>(k, v). k @ ''='' @ v) (merged_env base extra))"

subsection \<open>Starting a process\<close>

record Spec =
  sp_ID :: string
  sp_Command :: "string list"
  sp_Env :: env
  sp_Dir :: string
  sp_Allow :: "string list"
  sp_DenyNet :: bool
  sp_SelfPath :: string
  sp_Stdout :: nat
  sp_Stderr :: nat

text \<open>An \<^verbatim>\<open>exec.Cmd\<close>: the argument vector (its head is the program), and the files beyond the standard ones.\<close>

record Cmd =
  cm_Args :: "string list"
  cm_Env :: "string list"
  cm_Dir :: string
  cm_Out :: "nat \<times> nat"
  cm_ExtraFiles :: "int list"

datatype raction =
    Socketpair "(int \<times> int) option"
  | StartCmd Cmd bool
  | CloseFD int
  | ServeFence int "string list" bool
  | KillChild

datatype rerror = NoCommandGiven string | CannotFence | SocketpairFailed | StartFailed | FenceFailed string

text \<open>What the world answers: the socket pair, whether the process starts, whether the fence is served.\<close>

record answers =
  an_pair :: "(int \<times> int) option"
  an_start :: bool
  an_fence :: bool

definition startFenced :: "bool \<Rightarrow> Spec \<Rightarrow> string list \<Rightarrow> answers \<Rightarrow> (rerror + Cmd) \<times> raction list" where
  "startFenced canFence s full an =
     (if \<not> canFence then (Inl CannotFence, [])
      else case an_pair an of
          None \<Rightarrow> (Inl SocketpairFailed, [Socketpair None])
        | Some (parent, child) \<Rightarrow>
            let cmd = \<lparr>cm_Args = sp_SelfPath s # [''__fence'', ''--allowlist'', ''--''] @ sp_Command s, cm_Env = full, cm_Dir = sp_Dir s,
                       cm_Out = (sp_Stdout s, sp_Stderr s), cm_ExtraFiles = [child]\<rparr>;
                acts = [Socketpair (Some (parent, child)), StartCmd cmd (an_start an)]
            in if \<not> an_start an then (Inl StartFailed, acts @ [CloseFD parent, CloseFD child])
               else if \<not> an_fence an
                    then (Inl (FenceFailed (sp_ID s)), acts @ [CloseFD child, ServeFence parent (sp_Allow s) False, KillChild])
                    else (Inr cmd, acts @ [CloseFD child, ServeFence parent (sp_Allow s) True]))"

definition Start :: "bool \<Rightarrow> string list \<Rightarrow> Spec \<Rightarrow> answers \<Rightarrow> (rerror + Cmd) \<times> raction list" where
  "Start canFence environ s an =
     (if sp_Command s = [] then (Inl (NoCommandGiven (sp_ID s)), [])
      else let full = runtime_env environ (sp_Env s);
               plain_cmd = (\<lambda>argv. let cmd = \<lparr>cm_Args = argv, cm_Env = full, cm_Dir = sp_Dir s, cm_Out = (sp_Stdout s, sp_Stderr s), cm_ExtraFiles = []\<rparr>
                  in if an_start an then (Inr cmd, [StartCmd cmd True]) else (Inl StartFailed, [StartCmd cmd False]))
           in if sp_DenyNet s then plain_cmd (sp_SelfPath s # [''__fence'', ''--deny'', ''--''] @ sp_Command s)
              else if sp_Allow s \<noteq> [] then startFenced canFence s full an
              else plain_cmd (sp_Command s))"

text \<open>
  \<^verbatim>\<open>main\<close> on \<^verbatim>\<open>__fence\<close> and \<^verbatim>\<open>fenceChild\<close>: the mode and the command the child is to exec. \<open>None\<close> is a panic (the arguments
  are empty or have no \<^verbatim>\<open>--\<close>); \<open>Some (Inl m)\<close> is the error for an unknown mode.
\<close>

datatype fence_mode = DenyMode | AllowlistMode

definition fenceChild :: "string list \<Rightarrow> (string + fence_mode \<times> string list) option" where
  "fenceChild args =
     (case args of [] \<Rightarrow> None
      | mode # rest \<Rightarrow>
          (case dropWhile (\<lambda>a. a \<noteq> ''--'') rest of
             [] \<Rightarrow> None
           | _ # cmd \<Rightarrow>
               Some (if mode = ''--deny'' then Inr (DenyMode, cmd)
                     else if mode = ''--allowlist'' then Inr (AllowlistMode, cmd) else Inl mode)))"

subsection \<open>Ending a process\<close>

text \<open>
  What \<^verbatim>\<open>cmd.Wait\<close> returns: nil, an exit error with the wait status, or another error. A wait status has the signal in its low
  seven bits and the exit status in the next byte.
\<close>

datatype wait_err = WaitNil | ExitError nat | WaitFailed

definition Signaled :: "nat \<Rightarrow> bool" where
  "Signaled ws \<longleftrightarrow> ws mod 128 \<noteq> 127 \<and> ws mod 128 \<noteq> 0"

definition ExitStatus :: "nat \<Rightarrow> int" where
  "ExitStatus ws = (if ws mod 128 = 0 then int (ws div 256 mod 256) else - 1)"

definition exitCode :: "wait_err \<Rightarrow> int" where
  "exitCode err = (case err of WaitNil \<Rightarrow> 0 | WaitFailed \<Rightarrow> 1
     | ExitError ws \<Rightarrow> if Signaled ws then 128 + int (ws mod 128) else ExitStatus ws)"

text \<open>\<^verbatim>\<open>Proc.Stop\<close>: the signals sent to the process group, by whether it ends within the grace period.\<close>

definition Proc_Stop :: "bool \<Rightarrow> nat list" where
  "Proc_Stop ends = (if ends then [15] else [15, 9])"

subsection \<open>The environment is the merge it says\<close>

lemma base_env_step:
  "base_env (base @ [kv]) = (if IndexByte kv (CHR ''='') > 0
     then AList.update (takeWhile (\<lambda>c. c \<noteq> CHR ''='') kv) (drop (Suc (length (takeWhile (\<lambda>c. c \<noteq> CHR ''='') kv))) kv) (base_env base) else base_env base)"
  by (simp add: base_env_def Let_def IndexByte_def Index_def index_from_byte takeWhile_eq_take [symmetric])

lemma IndexByte_pos: "IndexByte kv c > 0 \<longleftrightarrow> c \<in> set kv \<and> takeWhile (\<lambda>x. x \<noteq> c) kv \<noteq> []"
  by (simp add: IndexByte_def Index_def index_from_byte)

lemma split_setting:
  "CHR ''='' \<notin> set k \<Longrightarrow> prefix (k @ ''='') kv \<longleftrightarrow> CHR ''='' \<in> set kv \<and> takeWhile (\<lambda>c. c \<noteq> CHR ''='') kv = k"
proof
  assume k: "CHR ''='' \<notin> set k" and "prefix (k @ ''='') kv"
  then obtain t where "kv = k @ CHR ''='' # t" by (auto simp: prefix_def)
  then show "CHR ''='' \<in> set kv \<and> takeWhile (\<lambda>c. c \<noteq> CHR ''='') kv = k" using k by (simp add: takeWhile_append)
next
  assume "CHR ''='' \<in> set kv \<and> takeWhile (\<lambda>c. c \<noteq> CHR ''='') kv = k"
  then have "kv = k @ dropWhile (\<lambda>c. c \<noteq> CHR ''='') kv" "CHR ''='' \<in> set kv" by (metis takeWhile_dropWhile_id, simp)
  moreover have "hd (dropWhile (\<lambda>c. c \<noteq> CHR ''='') kv) = CHR ''=''" "dropWhile (\<lambda>c. c \<noteq> CHR ''='') kv \<noteq> []"
    using \<open>CHR ''='' \<in> set kv \<and> _\<close> hd_dropWhile [of "\<lambda>c. c \<noteq> CHR ''=''" kv] by (auto simp: dropWhile_eq_Nil_conv)
  ultimately have "kv = k @ CHR ''='' # tl (dropWhile (\<lambda>c. c \<noteq> CHR ''='') kv)" by (metis list.collapse)
  then show "prefix (k @ ''='') kv" by (metis append.assoc append_Cons append_Nil prefixI)
qed

text \<open>The value the last setting of a variable gives it.\<close>

definition last_setting :: "string list \<Rightarrow> string \<Rightarrow> string option" where
  "last_setting base k = (case find (prefix (k @ ''='')) (rev base) of Some kv \<Rightarrow> Some (drop (length k + 1) kv) | None \<Rightarrow> None)"

lemma base_env_lookup:
  assumes "CHR ''='' \<notin> set k" and "k \<noteq> []"
  shows "map_of (base_env base) k = last_setting base k"
proof (induction base rule: rev_induct)
  case (snoc kv base)
  then show ?case using assms split_setting [of k kv]
    by (auto simp: base_env_step IndexByte_pos last_setting_def AList.update_conv')
qed (simp add: base_env_def last_setting_def)

lemma base_env_keys: "distinct (map fst (base_env base)) \<and> (\<forall>k \<in> fst ` set (base_env base). k \<noteq> [] \<and> CHR ''='' \<notin> set k)"
proof (induction base rule: rev_induct)
  case (snoc kv base)
  have "CHR ''='' \<notin> set (takeWhile (\<lambda>c. c \<noteq> CHR ''='') kv)" by (auto dest: set_takeWhileD)
  then show ?case using snoc
    by (auto simp: base_env_step IndexByte_pos AList.distinct_update dom_map_of_conv_image_fst [symmetric] AList.update_conv')
qed (simp add: base_env_def)

end
