(* ===== verification/Runtime_Properties.thy ===== *)
theory Runtime_Properties
  imports Runtime
begin

text \<open>
  What \<^verbatim>\<open>internal/runtime\<close> promises: the environment of a job is the daemon's with the bindings of its share over it; a job that asked
  for a fence is only ever started through the fenced child, and that child finds the command again.
\<close>

text \<open>
  The environment a job is started with is sorted, sets no variable twice, and gives each variable the value its
  bindings give it or else the one the daemon's environment set last.
\<close>

theorem runtime_env_exact:
  assumes "distinct (map fst extra)" and "\<forall>k \<in> fst ` set extra. CHR ''='' \<notin> set k"
  shows "sorted (runtime_env base extra) \<and> distinct (map (takeWhile (\<lambda>c. c \<noteq> CHR ''='')) (runtime_env base extra)) \<and>
    (\<forall>k v. k \<noteq> [] \<and> CHR ''='' \<notin> set k \<longrightarrow>
       (k @ ''='' @ v \<in> set (runtime_env base extra) \<longleftrightarrow>
        (case map_of extra k of Some w \<Rightarrow> v = w | None \<Rightarrow> last_setting base k = Some v)))"
proof -
  let ?m = "merged_env base extra"
  have keys: "CHR ''='' \<notin> set k" if "k \<in> fst ` set ?m" for k
    using that assms(2) base_env_keys [of base] by (auto simp: merged_env_def keys_fold_update)
  have tw: "takeWhile (\<lambda>c. c \<noteq> CHR ''='') (k @ ''='' @ v) = k" if "CHR ''='' \<notin> set k" for k v
    using that by (auto simp: takeWhile_append)
  have dm: "distinct (map fst ?m)" using base_env_keys [of base] by (simp add: merged_env_def distinct_fold_update)
  have "map (takeWhile (\<lambda>c. c \<noteq> CHR ''='')) (map (\<lambda>(k, v). k @ ''='' @ v) ?m) = map fst ?m"
    using keys tw by (fastforce simp: case_prod_beta)
  then have "distinct (map (takeWhile (\<lambda>c. c \<noteq> CHR ''='')) (map (\<lambda>(k, v). k @ ''='' @ v) ?m))" using dm by (simp only:)
  then have d: "distinct (map (takeWhile (\<lambda>c. c \<noteq> CHR ''='')) (runtime_env base extra))"
    unfolding runtime_env_def distinct_map [of "takeWhile _"] by simp
  have "k @ ''='' @ v \<in> set (runtime_env base extra) \<longleftrightarrow> map_of ?m k = Some v" if k: "CHR ''='' \<notin> set k" for k v
  proof -
    have "k @ ''='' @ v \<in> set (runtime_env base extra) \<longleftrightarrow> (k, v) \<in> set ?m"
    proof
      assume "k @ ''='' @ v \<in> set (runtime_env base extra)"
      then obtain k' v' where e: "(k', v') \<in> set ?m" "k @ ''='' @ v = k' @ ''='' @ v'" by (auto simp: runtime_env_def)
      then have "k' = k" using tw [OF k, of v] tw [OF keys, of k' v'] by force
      then show "(k, v) \<in> set ?m" using e by simp
    qed (force simp: runtime_env_def)
    then show ?thesis using dm by simp
  qed
  moreover have "map_of ?m k = (case map_of extra k of Some w \<Rightarrow> Some w | None \<Rightarrow> last_setting base k)" if "k \<noteq> []" "CHR ''='' \<notin> set k" for k
    using map_of_fold_update [OF assms(1)] base_env_lookup [OF that(2,1)] by (simp add: merged_env_def split: option.split)
  ultimately show ?thesis using d by (auto simp: runtime_env_def split: option.splits)
qed

theorem runtime_env_exact_witness:
  "''CUDA_VISIBLE_DEVICES=1'' \<in> set (runtime_env [''HOME=/root'', ''CUDA_VISIBLE_DEVICES=0''] [(''CUDA_VISIBLE_DEVICES'', ''1'')])"
proof -
  have k: "CHR ''='' \<notin> set ''CUDA_VISIBLE_DEVICES''" by simp
  let ?b = "[''HOME=/root'', ''CUDA_VISIBLE_DEVICES=0'']" and ?e = "[(''CUDA_VISIBLE_DEVICES'', ''1'')]"
  have "\<forall>k v. k \<noteq> [] \<and> CHR ''='' \<notin> set k \<longrightarrow>
      (k @ ''='' @ v \<in> set (runtime_env ?b ?e) \<longleftrightarrow> (case map_of ?e k of Some w \<Rightarrow> v = w | None \<Rightarrow> last_setting ?b k = Some v))"
    using runtime_env_exact [of ?e ?b] k by simp
  from this [THEN spec, THEN spec, of "''CUDA_VISIBLE_DEVICES''" "''1''"]
  have "''CUDA_VISIBLE_DEVICES'' @ ''='' @ ''1'' \<in> set (runtime_env ?b ?e)" by simp
  then show ?thesis by simp
qed

text \<open>
  C36: a job that asks for no network or an allowlist is never started as its own command. Every process \<^verbatim>\<open>Start\<close> creates for it
  is gmux itself as the fenced child, in the mode it asked for, which recovers exactly the job's command (even when that contains
  \<^verbatim>\<open>--\<close>); and with an allowlist a started job is returned only once its fence is being served.
\<close>

theorem fenced_jobs_start_fenced:
  assumes "sp_DenyNet s \<or> sp_Allow s \<noteq> []" and "Start canFence environ s an = (res, acts)"
  shows "(\<forall>cmd ok. StartCmd cmd ok \<in> set acts \<longrightarrow>
      (\<exists>child. cm_Args cmd = sp_SelfPath s # ''__fence'' # child \<and>
         fenceChild child = Some (Inr (if sp_DenyNet s then DenyMode else AllowlistMode, sp_Command s)))) \<and>
    (\<forall>cmd. res = Inr cmd \<longrightarrow> StartCmd cmd True \<in> set acts \<and>
      (sp_DenyNet s \<or> (\<exists>fd. ServeFence fd (sp_Allow s) True \<in> set acts)))"
  using assms
  by (auto simp: Start_def startFenced_def fenceChild_def Let_def split: if_splits option.splits prod.splits)

definition demo_spec :: Spec where
  "demo_spec = \<lparr>sp_ID = ''j1'', sp_Command = [''sh'', ''-c'', ''--''], sp_Env = [], sp_Dir = ''/'', sp_Allow = [''example.com''],
     sp_DenyNet = False, sp_SelfPath = ''/bin/gmux'', sp_Stdout = 1, sp_Stderr = 2\<rparr>"

theorem fenced_jobs_start_fenced_witness:
  "\<exists>cmd. fst (Start True [] demo_spec \<lparr>an_pair = Some (3, 4), an_start = True, an_fence = True\<rparr>) = Inr cmd \<and>
     fenceChild (drop 2 (cm_Args cmd)) = Some (Inr (AllowlistMode, [''sh'', ''-c'', ''--'']))"
proof -
  let ?an = "\<lparr>an_pair = Some (3, 4), an_start = True, an_fence = True\<rparr>"
  obtain res acts where s: "Start True [] demo_spec ?an = (res, acts)" by fastforce
  then obtain cmd where r: "res = Inr cmd" by (auto simp: Start_def startFenced_def demo_spec_def Let_def)
  obtain child where "cm_Args cmd = ''/bin/gmux'' # ''__fence'' # child" "fenceChild child = Some (Inr (AllowlistMode, [''sh'', ''-c'', ''--'']))"
    using fenced_jobs_start_fenced [OF _ s] r by (auto simp: demo_spec_def)
  then show ?thesis using s r by simp
qed

text \<open>Every wait status of a process that ended (it has not stopped, bit pattern 127) gives an exit code a shell accepts.\<close>

lemma exitCode_range: "(\<forall>ws. err = ExitError ws \<longrightarrow> ws mod 128 \<noteq> 127) \<Longrightarrow> 0 \<le> exitCode err \<and> exitCode err \<le> 255"
  by (cases err) (auto simp: exitCode_def Signaled_def ExitStatus_def)

end
