(* ===== verification/Runtime_Proc.thy ===== *)
theory Runtime_Proc
  imports Runtime
begin

text \<open>
  A process under \<^verbatim>\<open>runtime.Proc\<close>: the goroutine \<^verbatim>\<open>newProc\<close> starts, which waits for it, stores its exit code under the lock and closes the channel \<^verbatim>\<open>waitCh\<close>; a caller of \<^verbatim>\<open>Stop\<close>;
  and the process itself. Their interleavings are a step relation. The process may end by itself at any moment and in any way; the kill signal ends it. \<^verbatim>\<open>cmd.Wait\<close> returns when it has ended and
  nobody holds its output any more (\<open>ps_pipes\<close>: a command whose output is copied through a pipe, which a child it leaves behind can keep open). Shown: what the goroutine and the caller see is
  always in step with the process, and \<^verbatim>\<open>Stop\<close> comes back.
\<close>

subsection \<open>States and steps\<close>

datatype waiter = InWait | HasErr wait_err | Stored | Finished

datatype stopper = NotCalled | InSelect | InReceive | Returned

record Proc =
  ps_end :: "wait_err option"
  ps_pipes :: bool
  ps_wait :: waiter
  ps_exited :: bool
  ps_code :: int
  ps_closed :: bool
  ps_stop :: stopper
  ps_sent :: "nat list"

definition SIGKILL :: nat where "SIGKILL = 9"
definition SIGTERM :: nat where "SIGTERM = 15"

definition newProc :: "bool \<Rightarrow> Proc" where
  "newProc pipes = \<lparr>ps_end = None, ps_pipes = pipes, ps_wait = InWait, ps_exited = False, ps_code = 0, ps_closed = False, ps_stop = NotCalled, ps_sent = []\<rparr>"

text \<open>\<^verbatim>\<open>Signal\<close>: to the whole group; of the signals \<^verbatim>\<open>Stop\<close> sends, the kill signal ends a process that still runs.\<close>

definition Signal :: "nat \<Rightarrow> Proc \<Rightarrow> Proc" where
  "Signal sig p = p\<lparr>ps_sent := ps_sent p @ [sig], ps_end := (if sig = SIGKILL \<and> ps_end p = None then Some (ExitError SIGKILL) else ps_end p)\<rparr>"

definition Exited :: "Proc \<Rightarrow> bool \<times> int" where
  "Exited p = (ps_exited p, ps_code p)"

text \<open>The steps of the goroutine and of the caller of \<^verbatim>\<open>Stop\<close> after its first signal.\<close>

inductive own_step :: "Proc \<Rightarrow> Proc \<Rightarrow> bool" where
  waited: "ps_wait p = InWait \<Longrightarrow> ps_end p = Some e \<Longrightarrow> \<not> ps_pipes p \<Longrightarrow> own_step p (p\<lparr>ps_wait := HasErr e\<rparr>)"
| stored: "ps_wait p = HasErr e \<Longrightarrow> own_step p (p\<lparr>ps_wait := Stored, ps_exited := True, ps_code := exitCode e\<rparr>)"
| closes: "ps_wait p = Stored \<Longrightarrow> own_step p (p\<lparr>ps_wait := Finished, ps_closed := True\<rparr>)"
| stop_seen: "ps_stop p = InSelect \<Longrightarrow> ps_closed p \<Longrightarrow> own_step p (p\<lparr>ps_stop := Returned\<rparr>)"
| stop_kill: "ps_stop p = InSelect \<Longrightarrow> own_step p ((Signal SIGKILL p)\<lparr>ps_stop := InReceive\<rparr>)"
| stop_done: "ps_stop p = InReceive \<Longrightarrow> ps_closed p \<Longrightarrow> own_step p (p\<lparr>ps_stop := Returned\<rparr>)"

text \<open>All steps: those, the process ending, its output let go, and the call of \<^verbatim>\<open>Stop\<close>.\<close>

inductive proc_step :: "Proc \<Rightarrow> Proc \<Rightarrow> bool" where
  own: "own_step p q \<Longrightarrow> proc_step p q"
| ends: "ps_end p = None \<Longrightarrow> proc_step p (p\<lparr>ps_end := Some e\<rparr>)"
| let_go: "proc_step p (p\<lparr>ps_pipes := False\<rparr>)"
| call: "ps_stop p = NotCalled \<Longrightarrow> proc_step p ((Signal SIGTERM p)\<lparr>ps_stop := InSelect\<rparr>)"

inductive reachable_proc :: "bool \<Rightarrow> Proc \<Rightarrow> bool" for pipes where
  start: "reachable_proc pipes (newProc pipes)"
| next_state: "reachable_proc pipes p \<Longrightarrow> proc_step p q \<Longrightarrow> reachable_proc pipes q"

inductive_cases own_stepE: "own_step p q"

subsection \<open>What every reachable state satisfies\<close>

definition proc_ok :: "Proc \<Rightarrow> bool" where
  "proc_ok p \<longleftrightarrow>
     (case ps_wait p of
        InWait \<Rightarrow> \<not> ps_exited p \<and> \<not> ps_closed p
      | HasErr e \<Rightarrow> ps_end p = Some e \<and> \<not> ps_pipes p \<and> \<not> ps_exited p \<and> \<not> ps_closed p
      | Stored \<Rightarrow> ps_exited p \<and> \<not> ps_closed p
      | Finished \<Rightarrow> ps_exited p \<and> ps_closed p) \<and>
     (ps_exited p \<longrightarrow> \<not> ps_pipes p \<and> (\<exists>e. ps_end p = Some e \<and> ps_code p = exitCode e)) \<and>
     (case ps_stop p of
        NotCalled \<Rightarrow> ps_sent p = []
      | InSelect \<Rightarrow> ps_sent p = [SIGTERM]
      | InReceive \<Rightarrow> ps_sent p = [SIGTERM, SIGKILL] \<and> ps_end p \<noteq> None
      | Returned \<Rightarrow> ps_closed p \<and> (ps_sent p = [SIGTERM] \<or> ps_sent p = [SIGTERM, SIGKILL]))"

lemma proc_ok_own: "own_step p q \<Longrightarrow> proc_ok p \<Longrightarrow> proc_ok q"
  by (induction rule: own_step.induct) (auto simp: proc_ok_def Signal_def SIGKILL_def SIGTERM_def split: waiter.splits stopper.splits)

lemma proc_ok_step: "proc_step p q \<Longrightarrow> proc_ok p \<Longrightarrow> proc_ok q"
proof (induction rule: proc_step.induct)
  case (own p q)
  then show ?case by (rule proc_ok_own)
qed (auto simp: proc_ok_def Signal_def SIGKILL_def SIGTERM_def split: waiter.splits stopper.splits)

lemma reachable_proc_ok: "reachable_proc pipes p \<Longrightarrow> proc_ok p"
proof (induction rule: reachable_proc.induct)
  case start
  show ?case by (simp add: proc_ok_def newProc_def)
next
  case (next_state p q)
  then show ?case using proc_ok_step by blast
qed

subsection \<open>Stop comes back\<close>

text \<open>How many steps the goroutine and the caller have left.\<close>

definition left_to_do :: "Proc \<Rightarrow> nat" where
  "left_to_do p = (case ps_wait p of InWait \<Rightarrow> 3 | HasErr _ \<Rightarrow> 2 | Stored \<Rightarrow> 1 | Finished \<Rightarrow> 0) +
     (case ps_stop p of NotCalled \<Rightarrow> 0 | InSelect \<Rightarrow> 2 | InReceive \<Rightarrow> 1 | Returned \<Rightarrow> 0)"

lemma own_step_decreases: "own_step p q \<Longrightarrow> left_to_do q < left_to_do p"
  by (induction rule: own_step.induct) (auto simp: left_to_do_def Signal_def)

lemma own_step_keeps: "own_step p q \<Longrightarrow> \<not> ps_pipes p \<Longrightarrow> ps_stop p \<noteq> NotCalled \<Longrightarrow> \<not> ps_pipes q \<and> ps_stop q \<noteq> NotCalled"
  by (induction rule: own_step.induct) (auto simp: Signal_def)

lemma own_step_possible:
  assumes "proc_ok p" and "ps_stop p = InSelect \<or> ps_stop p = InReceive" and "\<not> ps_pipes p"
  shows "\<exists>q. own_step p q"
proof (cases "ps_stop p = InSelect")
  case True
  then show ?thesis using stop_kill by blast
next
  case False
  then have r: "ps_stop p = InReceive" using assms(2) by simp
  then obtain e where e: "ps_end p = Some e" using assms(1) by (auto simp: proc_ok_def)
  show ?thesis
  proof (cases "ps_wait p")
    case InWait
    then show ?thesis using waited e assms(3) by blast
  next
    case (HasErr x)
    then show ?thesis using stored by blast
  next
    case Stored
    then show ?thesis using closes by blast
  next
    case Finished
    then have "ps_closed p" using assms(1) by (simp add: proc_ok_def)
    then show ?thesis using stop_done r by blast
  qed
qed

lemma own_run_ends:
  assumes "proc_ok p" and "ps_stop p \<noteq> NotCalled" and "\<not> ps_pipes p"
  shows "\<exists>q. own_step\<^sup>*\<^sup>* p q \<and> ps_stop q = Returned"
  using assms
proof (induction "left_to_do p" arbitrary: p rule: less_induct)
  case less
  show ?case
  proof (cases "ps_stop p = Returned")
    case False
    then have "ps_stop p = InSelect \<or> ps_stop p = InReceive" using less.prems(2) by (cases "ps_stop p") auto
    then obtain q where q: "own_step p q" using own_step_possible less.prems by blast
    then show ?thesis
      using less.hyps [OF own_step_decreases [OF q]] proc_ok_own [OF q less.prems(1)] own_step_keeps [OF q] less.prems
      by (meson converse_rtranclp_into_rtranclp)
  qed auto
qed

text \<open>
  C21: stopping a process. Whatever the interleaving, when \<^verbatim>\<open>Stop\<close> has returned the process has ended, its exit code is stored for everyone to read, the first signal it got from \<^verbatim>\<open>Stop\<close> was the one that asks, and the kill signal
  came at most once after it. Once \<^verbatim>\<open>Stop\<close> is called, and unless somebody keeps the process's output open, the goroutine and the caller get to the end from every state: each of their steps
  leaves fewer to do, and one is always possible until \<^verbatim>\<open>Stop\<close> has returned.
\<close>

theorem Stop_ends_the_process:
  assumes "reachable_proc pipes p" and "ps_stop p \<noteq> NotCalled"
  shows "(ps_stop p = Returned \<longrightarrow> (\<exists>e. ps_end p = Some e \<and> Exited p = (True, exitCode e)) \<and> ps_sent p \<in> {[SIGTERM], [SIGTERM, SIGKILL]}) \<and>
    (\<not> ps_pipes p \<longrightarrow> (\<exists>q. own_step\<^sup>*\<^sup>* p q \<and> ps_stop q = Returned)) \<and>
    (\<not> ps_pipes p \<and> ps_stop p \<noteq> Returned \<longrightarrow> (\<exists>q. own_step p q)) \<and> (\<forall>q. own_step p q \<longrightarrow> left_to_do q < left_to_do p)"
proof (intro conjI impI allI)
  note ok = reachable_proc_ok [OF assms(1)]
  show "\<exists>e. ps_end p = Some e \<and> Exited p = (True, exitCode e)" "ps_sent p \<in> {[SIGTERM], [SIGTERM, SIGKILL]}" if "ps_stop p = Returned"
    using ok that by (auto simp: proc_ok_def Exited_def split: waiter.splits)
  show "\<exists>q. own_step\<^sup>*\<^sup>* p q \<and> ps_stop q = Returned" if "\<not> ps_pipes p" using own_run_ends [OF ok assms(2) that] .
  show "\<exists>q. own_step p q" if "\<not> ps_pipes p \<and> ps_stop p \<noteq> Returned"
    using own_step_possible [OF ok] that assms(2) by (cases "ps_stop p") auto
  show "left_to_do q < left_to_do p" if "own_step p q" for q using own_step_decreases that .
qed

theorem Stop_ends_the_process_witness:
  "\<exists>q. own_step\<^sup>*\<^sup>* ((Signal SIGTERM (newProc False))\<lparr>ps_stop := InSelect\<rparr>) q \<and> ps_stop q = Returned"
proof -
  let ?p = "(Signal SIGTERM (newProc False))\<lparr>ps_stop := InSelect\<rparr>"
  have "reachable_proc False ?p" using next_state [OF start call] by (simp add: newProc_def)
  then show ?thesis using Stop_ends_the_process [of False ?p] by (simp add: Signal_def newProc_def)
qed

text \<open>
  With its output held open by a child it left behind, a process that has been killed keeps \<^verbatim>\<open>Stop\<close> waiting: there is nothing the goroutine or the caller can do.
\<close>

lemma Stop_can_hang: "\<exists>p. reachable_proc True p \<and> ps_stop p = InReceive \<and> (\<forall>q. \<not> own_step p q)"
proof -
  let ?p1 = "(Signal SIGTERM (newProc True))\<lparr>ps_stop := InSelect\<rparr>"
  let ?p2 = "(Signal SIGKILL ?p1)\<lparr>ps_stop := InReceive\<rparr>"
  have "reachable_proc True ?p1" using next_state [OF start call] by (simp add: newProc_def)
  then have "reachable_proc True ?p2" by (rule next_state) (rule own, rule stop_kill, simp)
  moreover have "\<not> own_step ?p2 q" for q by (auto elim!: own_stepE simp: Signal_def newProc_def)
  ultimately show ?thesis by (intro exI [of _ ?p2]) simp
qed

end
