(* ===== verification/Daemon_Invariant.thy ===== *)
theory Daemon_Invariant
  imports Daemon
begin

text \<open>
  The daemon's jobs and the scheduler's book say the same: \<open>daemon_ok\<close> holds after every operation. A job the daemon calls running has a
  process and sits exactly where the scheduler has it; what waits is a job of the daemon's, once, and not also running. The operations
  assume of their callers that ids are new and memory is not negative.
\<close>

subsection \<open>The invariant\<close>

definition placed_as :: "Scheduler \<Rightarrow> Job \<Rightarrow> bool" where
  "placed_as s job \<longleftrightarrow> (\<exists>p. map_of (s_running s) (jb_ID job) = Some p \<and>
     jb_Placement job = Some \<lparr>pl_JobID = jb_ID job, pl_Slots = p_slots p\<rparr>)"

definition queue_ok :: "Scheduler \<Rightarrow> string set \<Rightarrow> bool" where
  "queue_ok s ks \<longleftrightarrow> distinct (map r_ID (s_queue s)) \<and> r_ID ` set (s_queue s) \<inter> fst ` set (s_running s) = {} \<and>
     r_ID ` set (s_queue s) \<subseteq> ks"

definition job_rec :: "string \<Rightarrow> Job \<Rightarrow> bool" where
  "job_rec k job \<longleftrightarrow> jb_ID job = k \<and> r_ID (jb_req job) = k \<and> req_ok (jb_req job)"

text \<open>\<open>V\<close> are jobs that were pushed off and not yet paused.\<close>

definition daemon_ok_but :: "string set \<Rightarrow> Daemon \<Rightarrow> bool" where
  "daemon_ok_but V d \<longleftrightarrow> sched_inv (dm_sched d) \<and> queue_ok (dm_sched d) (fst ` set (dm_jobs d)) \<and>
     (\<forall>k job. map_of (dm_jobs d) k = Some job \<longrightarrow> job_rec k job \<and>
        (jb_State job = ''running'' \<longrightarrow> jb_proc job \<noteq> None \<and> (k \<in> V \<or> placed_as (dm_sched d) job)))"

definition daemon_ok :: "Daemon \<Rightarrow> bool" where
  "daemon_ok d = daemon_ok_but {} d"

lemma dom_fst: "fst ` set al = dom (map_of al)"
  by (rule dom_map_of_conv_image_fst [symmetric])

lemma keys_update: "fst ` set (AList.update k v al) = insert k (fst ` set al)"
  by (simp add: dom_fst AList.update_conv')

lemma keys_delete: "fst ` set (AList.delete k al) = fst ` set al - {k}"
  by (auto simp: delete_filter)

lemma subset_chain: "A \<subseteq> set vs \<union> B \<Longrightarrow> B \<subseteq> insert v C \<Longrightarrow> A \<subseteq> set (v # vs) \<union> C"
  by auto

lemma fresh_in_queue: "A \<subseteq> V \<union> B \<Longrightarrow> B \<subseteq> K \<Longrightarrow> j \<notin> V \<Longrightarrow> j \<notin> K \<Longrightarrow> j \<notin> A"
  by blast

lemma daemon_okD:
  assumes "daemon_ok_but V d"
  shows "sched_inv (dm_sched d)" and "queue_ok (dm_sched d) (fst ` set (dm_jobs d))"
    and "map_of (dm_jobs d) k = Some job \<Longrightarrow> job_rec k job"
    and "map_of (dm_jobs d) k = Some job \<Longrightarrow> jb_State job = ''running'' \<Longrightarrow> jb_proc job \<noteq> None \<and> (k \<in> V \<or> placed_as (dm_sched d) job)"
  using assms by (simp_all add: daemon_ok_but_def)

text \<open>Changing the record of one job.\<close>

lemma daemon_ok_job:
  assumes "daemon_ok_but V d" and "job_rec k job"
    and "jb_State job = ''running'' \<Longrightarrow> jb_proc job \<noteq> None \<and> (k \<in> W \<or> placed_as (dm_sched d) job)" and "V \<subseteq> insert k W"
  shows "daemon_ok_but W (d\<lparr>dm_jobs := AList.update k job (dm_jobs d), dm_ledger := l\<rparr>)"
proof -
  let ?d = "d\<lparr>dm_jobs := AList.update k job (dm_jobs d), dm_ledger := l\<rparr>"
  have "job_rec x j \<and> (jb_State j = ''running'' \<longrightarrow> jb_proc j \<noteq> None \<and> (x \<in> W \<or> placed_as (dm_sched ?d) j))"
    if "map_of (dm_jobs ?d) x = Some j" for x j
  proof (cases "x = k")
    case True
    then show ?thesis using that assms(2,3) by (simp add: AList.update_conv')
  next
    case False
    then have x: "map_of (dm_jobs d) x = Some j" using that by (simp add: AList.update_conv')
    show ?thesis using daemon_okD(3,4) [OF assms(1) x] False assms(4) by auto
  qed
  moreover have "queue_ok (dm_sched ?d) (fst ` set (dm_jobs ?d))"
    using daemon_okD(2) [OF assms(1)] by (auto simp: queue_ok_def keys_update)
  ultimately show ?thesis using daemon_okD(1) [OF assms(1)] unfolding daemon_ok_but_def by simp
qed

lemma placed_as_cong:
  "map_of (s_running s') (jb_ID job) = map_of (s_running s) (jb_ID job) \<Longrightarrow> placed_as s' job = placed_as s job"
  by (simp add: placed_as_def)

lemma placed_as_job: "jb_ID job' = jb_ID job \<Longrightarrow> jb_Placement job' = jb_Placement job \<Longrightarrow> placed_as s job' = placed_as s job"
  by (simp add: placed_as_def)

subsection \<open>Starting a job\<close>

lemma startLocked_ok:
  assumes ok: "daemon_ok_but V d" and job: "job_rec k job" "k = pl_JobID pl"
    and pl: "map_of (s_running (dm_sched d)) k = Some p" "p_slots p = pl_Slots pl"
    and st: "startLocked job pl lo now d = (d', b, effs)"
  shows "daemon_ok_but V d' \<and> dm_sched d' = dm_sched d \<and> (b \<longleftrightarrow> lo \<noteq> None) \<and> (\<not> b \<longrightarrow> d' = d)"
proof (cases lo)
  case None
  then show ?thesis using ok st by (auto simp: startLocked_def Let_def)
next
  case (Some x)
  obtain proc started where x: "x = (proc, started)" by (cases x)
  let ?job = "job\<lparr>jb_proc := Some proc, jb_State := ''running'', jb_Placement := Some pl, jb_Started := started\<rparr>"
  have "job_rec k ?job" using job by (simp add: job_rec_def)
  moreover have "placed_as (dm_sched d) ?job" using job pl by (simp add: placed_as_def job_rec_def)
  ultimately have "daemon_ok_but V (d\<lparr>dm_jobs := AList.update k ?job (dm_jobs d), dm_ledger := l\<rparr>)" for l
    using ok by (intro daemon_ok_job) auto
  then show ?thesis using st Some x job by (auto simp: startLocked_def Let_def job_rec_def)
qed

subsection \<open>Pushing jobs off\<close>

lemma preempt_one_ok:
  assumes ok: "daemon_ok_but (insert v V) d" and v: "v \<notin> r_ID ` set (s_queue (dm_sched d))" "v \<notin> fst ` set (s_running (dm_sched d))"
    and st: "preempt_one now w v (d, effs) = (d', effs')"
  shows "daemon_ok_but V d' \<and> s_running (dm_sched d') = s_running (dm_sched d) \<and> s_cards (dm_sched d') = s_cards (dm_sched d) \<and>
    r_ID ` set (s_queue (dm_sched d')) \<subseteq> insert v (r_ID ` set (s_queue (dm_sched d))) \<and>
    (\<forall>k. k \<noteq> v \<longrightarrow> map_of (dm_jobs d') k = map_of (dm_jobs d) k)"
proof (cases "\<exists>job. map_of (dm_jobs d) v = Some job \<and> jb_proc job \<noteq> None")
  case False
  then have "d' = d" using st by (auto simp: preempt_one_def split: option.splits)
  moreover have "daemon_ok_but V d"
    using ok False unfolding daemon_ok_but_def by (metis (no_types, lifting) insert_iff)
  ultimately show ?thesis by auto
next
  case True
  then obtain job proc where job: "map_of (dm_jobs d) v = Some job" "jb_proc job = Some proc" by auto
  have rec: "job_rec v job" using daemon_okD(3) [OF ok job(1)] .
  let ?s = "Requeue (jb_req job) (dm_sched d)" and ?job = "job\<lparr>jb_State := ''paused''\<rparr>"
  have s: "sched_inv ?s" using daemon_okD(1) [OF ok] rec by (simp add: Requeue_inv job_rec_def)
  have q: "s_queue ?s = (jb_req job)\<lparr>r_Wait := True\<rparr> # s_queue (dm_sched d)" "s_running ?s = s_running (dm_sched d)"
      "s_cards ?s = s_cards (dm_sched d)" by (simp_all add: Requeue_def)
  have "queue_ok ?s (fst ` set (dm_jobs d))"
    using daemon_okD(2) [OF ok] v rec job(1) by (auto simp: queue_ok_def q job_rec_def dom_fst)
  then have "daemon_ok_but (insert v V) (d\<lparr>dm_sched := ?s\<rparr>)"
    using ok s by (auto simp: daemon_ok_but_def placed_as_def q)
  then have "daemon_ok_but V ((d\<lparr>dm_sched := ?s\<rparr>)\<lparr>dm_jobs := AList.update v ?job (dm_jobs (d\<lparr>dm_sched := ?s\<rparr>)), dm_ledger := l\<rparr>)" for l
    by (rule daemon_ok_job) (use rec in \<open>auto simp: job_rec_def\<close>)
  moreover have "\<exists>l. d' = d\<lparr>dm_sched := ?s, dm_jobs := AList.update v ?job (dm_jobs d), dm_ledger := l\<rparr>"
    using st job by (cases d) (auto simp: preempt_one_def pauseLocked_def)
  ultimately show ?thesis using rec by (auto simp: q AList.update_conv' job_rec_def)
qed

lemma preempt_all_ok:
  assumes "daemon_ok_but (set vs) d" and "distinct vs"
    and "set vs \<inter> r_ID ` set (s_queue (dm_sched d)) = {}" and "set vs \<inter> fst ` set (s_running (dm_sched d)) = {}"
    and "fold (preempt_one now w) vs (d, effs) = (d', effs')"
  shows "daemon_ok_but {} d' \<and> s_running (dm_sched d') = s_running (dm_sched d) \<and>
    (\<forall>k. k \<notin> set vs \<longrightarrow> map_of (dm_jobs d') k = map_of (dm_jobs d) k) \<and>
    r_ID ` set (s_queue (dm_sched d')) \<subseteq> set vs \<union> r_ID ` set (s_queue (dm_sched d))"
  using assms
proof (induction vs arbitrary: d effs)
  case (Cons v vs)
  obtain d1 effs1 where p: "preempt_one now w v (d, effs) = (d1, effs1)" by (cases "preempt_one now w v (d, effs)")
  have one: "daemon_ok_but (set vs) d1 \<and> s_running (dm_sched d1) = s_running (dm_sched d) \<and> s_cards (dm_sched d1) = s_cards (dm_sched d) \<and>
      r_ID ` set (s_queue (dm_sched d1)) \<subseteq> insert v (r_ID ` set (s_queue (dm_sched d))) \<and>
      (\<forall>k. k \<noteq> v \<longrightarrow> map_of (dm_jobs d1) k = map_of (dm_jobs d) k)"
    by (rule preempt_one_ok [OF _ _ _ p]) (use Cons.prems in auto)
  have "set vs \<inter> r_ID ` set (s_queue (dm_sched d1)) = {}" using one Cons.prems(2,3) by simp blast
  then have "daemon_ok_but {} d' \<and> s_running (dm_sched d') = s_running (dm_sched d1) \<and>
      (\<forall>k. k \<notin> set vs \<longrightarrow> map_of (dm_jobs d') k = map_of (dm_jobs d1) k) \<and>
      r_ID ` set (s_queue (dm_sched d')) \<subseteq> set vs \<union> r_ID ` set (s_queue (dm_sched d1))"
    using one Cons.prems p by (intro Cons.IH [of d1 effs1]) auto
  note rest = this
  have "r_ID ` set (s_queue (dm_sched d')) \<subseteq> set (v # vs) \<union> r_ID ` set (s_queue (dm_sched d))"
    by (rule subset_chain [of _ _ "r_ID ` set (s_queue (dm_sched d1))"]) (use one rest in simp_all)
  moreover have "map_of (dm_jobs d') k = map_of (dm_jobs d) k" if "k \<notin> set (v # vs)" for k using one rest that by simp
  ultimately show ?case using one rest by simp
qed simp

subsection \<open>Releasing a job\<close>

lemma release_ok:
  assumes ok: "daemon_ok_but {} d" and nr: "\<And>job. map_of (dm_jobs d) jid = Some job \<Longrightarrow> jb_State job \<noteq> ''running''"
    and rel: "Release jid (dm_sched d) = (s', ds)"
  shows "daemon_ok_but {} (d\<lparr>dm_sched := s'\<rparr>)" and "\<forall>dec \<in> set ds. started_ok s' dec"
    and "r_ID ` set (s_queue s') \<subseteq> r_ID ` set (s_queue (dm_sched d))"
proof -
  let ?s = "dm_sched d"
  have q: "distinct (map r_ID (s_queue ?s))" "r_ID ` set (s_queue ?s) \<inter> fst ` set (s_running ?s) = {}"
      "r_ID ` set (s_queue ?s) \<subseteq> fst ` set (dm_jobs d)"
    using daemon_okD(2) [OF ok] by (auto simp: queue_ok_def)
  note sp = Release_spec [OF daemon_okD(1) [OF ok] q(1,2) rel]
  then show "\<forall>dec \<in> set ds. started_ok s' dec" by blast
  have m: "mset (map started_id ds @ map r_ID (s_queue s')) = mset (map r_ID (s_queue ?s))" using sp by simp
  have dis: "distinct (map started_id ds @ map r_ID (s_queue s'))" using q(1) mset_eq_imp_distinct_iff [OF m] by simp
  have keys: "set (map started_id ds @ map r_ID (s_queue s')) = set (map r_ID (s_queue ?s))" using m by (rule mset_eq_setD)
  then show sub: "r_ID ` set (s_queue s') \<subseteq> r_ID ` set (s_queue ?s)" by auto
  have "r_ID ` set (s_queue s') \<inter> fst ` set (s_running s') = {}"
    by (rule disjoint_split [OF Release_keys [OF rel] sub q(2)]) (use dis in auto)
  then have "queue_ok s' (fst ` set (dm_jobs d))" using dis sub q(3) by (auto simp: queue_ok_def)
  moreover have "sched_inv s'" using Release_inv [OF daemon_okD(1) [OF ok], of jid] rel by simp
  moreover have "placed_as s' job" if "map_of (dm_jobs d) k = Some job" "jb_State job = ''running''" for k job
  proof -
    have "k \<noteq> jid" using nr that by auto
    moreover have "placed_as ?s job" "jb_ID job = k" using daemon_okD(3,4) [OF ok that(1)] that(2) by (auto simp: job_rec_def)
    ultimately show ?thesis using sp by (auto simp: placed_as_def)
  qed
  ultimately show "daemon_ok_but {} (d\<lparr>dm_sched := s'\<rparr>)" using ok by (auto simp: daemon_ok_but_def)
qed

lemma delete_ok:
  assumes "daemon_ok_but V d" and "jid \<notin> r_ID ` set (s_queue (dm_sched d))"
  shows "daemon_ok_but V (d\<lparr>dm_jobs := AList.delete jid (dm_jobs d)\<rparr>)"
  using assms by (auto simp: daemon_ok_but_def queue_ok_def keys_delete AList.delete_conv')

lemma release_failed_ok:
  assumes "daemon_ok_but {} d" and "map_of (dm_jobs d) jid = Some job" and "jb_State job \<noteq> ''running''"
    and "jid \<notin> r_ID ` set (s_queue (dm_sched d))"
  shows "daemon_ok_but {} (d\<lparr>dm_sched := fst (Release jid (dm_sched d)), dm_jobs := AList.delete jid (dm_jobs d)\<rparr>)"
proof -
  obtain s' ds where rel: "Release jid (dm_sched d) = (s', ds)" by fastforce
  have r: "daemon_ok_but {} (d\<lparr>dm_sched := s'\<rparr>)" "r_ID ` set (s_queue s') \<subseteq> r_ID ` set (s_queue (dm_sched d))"
    using release_ok(1,3) [OF assms(1) _ rel] assms(2,3) by auto
  then show ?thesis using delete_ok [OF r(1), of jid] assms(4) rel by auto
qed

subsection \<open>The operations keep it\<close>

lemma map_of_live: "map_of (live vs al) k = (if k \<in> set vs then None else map_of al k)"
  by (induction al) (auto simp: live_def)

lemma Admit_fresh: "Admit r s = (s', Inr dec) \<Longrightarrow> r_ID r \<notin> fst ` set (s_running s)"
  by (auto simp: Admit_def dom_fst split: if_splits option.splits)

text \<open>What an admission does to the book and the queue, whichever way it is granted.\<close>

lemma admit_effect:
  assumes inv: "sched_inv s" and ad: "Admit r s = (s', Inr dec)"
  shows "distinct (d_Preempt dec) \<and> set (d_Preempt dec) \<subseteq> fst ` set (s_running s) \<and> r_ID r \<notin> set (d_Preempt dec) \<and>
    (\<forall>k. k \<noteq> r_ID r \<longrightarrow> map_of (s_running s') k = (if k \<in> set (d_Preempt dec) then None else map_of (s_running s) k)) \<and>
    (\<forall>pl. d_Placement dec = Some pl \<longrightarrow> s_queue s' = s_queue s \<and> \<not> d_Queued dec \<and> pl_JobID pl = r_ID r \<and>
       (\<exists>p. map_of (s_running s') (r_ID r) = Some p \<and> p_slots p = pl_Slots pl)) \<and>
    (d_Placement dec = None \<longrightarrow> s_queue s' = s_queue s @ [r] \<and> s_running s' = s_running s \<and> d_Preempt dec = [])"
proof (cases "d_Placement dec")
  case (Some pl)
  note a = Admit_Placement [OF ad Some] and f = Admit_fit [OF inv ad Some]
  have "set (d_Preempt dec) \<subseteq> fst ` set (s_running s)" using f(2) by (force simp: eligible_def)
  moreover have "r_ID r \<notin> fst ` set (s_running s)" using a(2) by (simp add: map_of_eq_None_iff)
  ultimately show ?thesis using a f(4) Some by (auto simp: map_of_live)
next
  case None
  then show ?thesis using Admit_other [OF ad] by auto
qed

text \<open>Admission and the pausing of what was pushed off, before the new job is started.\<close>

lemma admit_ok:
  assumes ok: "daemon_ok_but {} d" and fresh: "jid \<notin> fst ` set (dm_jobs d)" and r: "r_ID r = jid" "0 \<le> r_MemMiB r"
    and ad: "Admit r (dm_sched d) = (s', Inr dec)" and job: "job_rec jid job" "jb_State job \<noteq> ''running''"
  shows "daemon_ok_but (set (d_Preempt dec)) (d\<lparr>dm_sched := s', dm_jobs := AList.update jid job (dm_jobs d), dm_hook := h\<rparr>)"
    and "distinct (d_Preempt dec)" and "set (d_Preempt dec) \<inter> r_ID ` set (s_queue s') = {}"
    and "set (d_Preempt dec) \<inter> fst ` set (s_running s') = {}" and "jid \<notin> set (d_Preempt dec)"
proof -
  let ?s = "dm_sched d" and ?vs = "set (d_Preempt dec)"
  have q: "distinct (map r_ID (s_queue ?s))" "r_ID ` set (s_queue ?s) \<inter> fst ` set (s_running ?s) = {}"
      "r_ID ` set (s_queue ?s) \<subseteq> fst ` set (dm_jobs d)"
    using daemon_okD(2) [OF ok] by (auto simp: queue_ok_def)
  have jq: "jid \<notin> r_ID ` set (s_queue ?s)" using q(3) fresh by blast
  have inv: "sched_inv s'" using Admit_inv [OF daemon_okD(1) [OF ok] r(2)] ad by simp
  note cs = admit_effect [OF daemon_okD(1) [OF ok] ad, unfolded r(1)]
  show "distinct (d_Preempt dec)" and nv: "jid \<notin> ?vs" using cs by auto
  have sub: "?vs \<subseteq> fst ` set (s_running ?s)" using cs by auto
  have "k \<in> insert jid (fst ` set (s_running ?s) - ?vs)" if "map_of (s_running s') k = Some p" for k p
    using that cs by (cases "k = jid") (auto simp: dom_fst split: if_splits)
  then have keys: "fst ` set (s_running s') \<subseteq> insert jid (fst ` set (s_running ?s) - ?vs)" by (auto simp: dom_fst)
  then show vr: "?vs \<inter> fst ` set (s_running s') = {}" using nv by blast
  have qc: "s_queue s' = s_queue ?s \<or> s_queue s' = s_queue ?s @ [r] \<and> s_running s' = s_running ?s \<and> jid \<notin> fst ` set (s_running ?s)"
    using cs Admit_fresh [OF ad] r(1) by (cases "d_Placement dec") auto
  then have rq: "r_ID ` set (s_queue s') \<subseteq> insert jid (r_ID ` set (s_queue ?s))" using r(1) by auto
  then show "?vs \<inter> r_ID ` set (s_queue s') = {}" using sub q(2) nv by blast
  have "r_ID ` set (s_queue s') \<inter> fst ` set (s_running s') = {}" using qc
  proof
    assume "s_queue s' = s_queue ?s"
    then show ?thesis using keys q(2) jq by (simp add: disjoint_iff) blast
  next
    assume "s_queue s' = s_queue ?s @ [r] \<and> s_running s' = s_running ?s \<and> jid \<notin> fst ` set (s_running ?s)"
    then show ?thesis using q(2) r(1) by simp
  qed
  moreover have "distinct (map r_ID (s_queue s'))" using qc q(1) jq r(1) by auto
  moreover have "r_ID ` set (s_queue s') \<subseteq> insert jid (fst ` set (dm_jobs d))" using rq q(3) by blast
  ultimately have "queue_ok s' (insert jid (fst ` set (dm_jobs d)))" by (simp add: queue_ok_def)
  moreover have "job_rec k j \<and> (jb_State j = ''running'' \<longrightarrow> jb_proc j \<noteq> None \<and> (k \<in> ?vs \<or> placed_as s' j))"
    if "map_of (AList.update jid job (dm_jobs d)) k = Some j" for k j
  proof (cases "k = jid")
    case True
    then show ?thesis using that job by (simp add: AList.update_conv')
  next
    case False
    then have k: "map_of (dm_jobs d) k = Some j" using that by (simp add: AList.update_conv')
    have "map_of (s_running s') k = map_of (s_running ?s) k" if "k \<notin> ?vs" using cs that False by auto
    then show ?thesis using daemon_okD(3,4) [OF ok k] by (cases "k \<in> ?vs") (auto simp: placed_as_def job_rec_def)
  qed
  ultimately show "daemon_ok_but ?vs (d\<lparr>dm_sched := s', dm_jobs := AList.update jid job (dm_jobs d), dm_hook := h\<rparr>)"
    using inv by (simp add: daemon_ok_but_def keys_update)
qed

lemma set_state_ok:
  assumes "daemon_ok_but {} d" and "st \<noteq> ''running''"
  shows "daemon_ok_but {} (set_state jid st d)"
proof (cases "map_of (dm_jobs d) jid")
  case (Some job)
  have "daemon_ok_but {} (d\<lparr>dm_jobs := AList.update jid (job\<lparr>jb_State := st\<rparr>) (dm_jobs d), dm_ledger := dm_ledger d\<rparr>)"
    using assms daemon_okD(3) [OF assms(1) Some] by (intro daemon_ok_job) (auto simp: job_rec_def)
  then show ?thesis by (simp add: set_state_def Some)
qed (simp add: set_state_def assms)

lemma Admit_valid: "Admit r s = (s', Inr dec) \<Longrightarrow> validate r = None"
  by (auto simp: Admit_def split: option.splits)

lemma Submit_ok:
  assumes ok: "daemon_ok_but {} d" and fresh: "jid \<notin> fst ` set (dm_jobs d)" and mem: "0 \<le> sr_MemMiB r0"
  shows "daemon_ok_but {} (fst (Submit r0 jid now w lo d))"
proof (cases "sr_Command r0 = []")
  case False
  define r where "r = (if f64_le (sr_Share r0) (Fin 0) then r0\<lparr>sr_Share := Fin 1\<rparr> else r0)"
  let ?req = "request_of jid r" and ?job = "new_job jid r (dm_hook d)"
  obtain s' res where ad: "Admit ?req (dm_sched d) = (s', res)" by fastforce
  have req: "r_ID ?req = jid" "0 \<le> r_MemMiB ?req" using mem by (auto simp: request_of_def r_def)
  show ?thesis
  proof (cases res)
    case (Inl e)
    then have "s' = dm_sched d" using Admit_other [OF ad] by auto
    then show ?thesis using False ad Inl ok by (simp add: Submit_def Let_def r_def [symmetric])
  next
    case (Inr dec)
    note ad = ad [unfolded Inr]
    let ?d1 = "d\<lparr>dm_sched := s', dm_jobs := AList.update jid ?job (dm_jobs d), dm_hook := None\<rparr>"
    obtain d2 effs where f: "fold (preempt_one now w) (d_Preempt dec) (?d1, []) = (d2, effs)" by fastforce
    have "req_ok ?req" using Admit_valid [OF ad] req(2) by (simp add: req_ok_def)
    then have job: "job_rec jid ?job" "jb_State ?job \<noteq> ''running''" using req(1) by (auto simp: job_rec_def new_job_def)
    note a1 = admit_ok(1) [OF ok fresh req ad job, where h = None] and a = admit_ok(2-5) [OF ok fresh req ad job]
    have p: "daemon_ok_but {} d2 \<and> s_running (dm_sched d2) = s_running s' \<and>
        (\<forall>k. k \<notin> set (d_Preempt dec) \<longrightarrow> map_of (dm_jobs d2) k = map_of (dm_jobs ?d1) k) \<and>
        r_ID ` set (s_queue (dm_sched d2)) \<subseteq> set (d_Preempt dec) \<union> r_ID ` set (s_queue s')"
      using preempt_all_ok [OF a1 a(1) _ _ f] a(2,3) by simp
    note e = admit_effect [OF daemon_okD(1) [OF ok] ad, unfolded req(1)]
    show ?thesis
    proof (cases "d_Placement dec")
      case None
      then have "d_Queued dec" using Admit_other [OF ad] by auto
      then show ?thesis using False ad f p None set_state_ok
        by (simp add: Submit_def Let_def r_def [symmetric])
    next
      case (Some pl)
      from e Some obtain q where q: "s_queue s' = s_queue (dm_sched d)" "\<not> d_Queued dec" "pl_JobID pl = jid"
          "map_of (s_running s') jid = Some q" "p_slots q = pl_Slots pl" by auto
      obtain d3 b eff where st: "startLocked ?job pl lo now d2 = (d3, b, eff)" by (cases "startLocked ?job pl lo now d2") auto
      have s3: "daemon_ok_but {} d3 \<and> dm_sched d3 = dm_sched d2 \<and> (\<not> b \<longrightarrow> d3 = d2)"
        using startLocked_ok [OF conjunct1 [OF p] job(1) _ _ _ st] q p by auto
      have jq: "jid \<notin> r_ID ` set (s_queue (dm_sched d2))"
        by (rule fresh_in_queue [of _ "set (d_Preempt dec)" "r_ID ` set (s_queue s')" "fst ` set (dm_jobs d)"])
          (use p a(4) q(1) daemon_okD(2) [OF ok] fresh in \<open>simp_all add: queue_ok_def\<close>)
      have j2: "map_of (dm_jobs d2) jid = Some ?job" using p a(4) by (simp add: AList.update_conv')
      have "daemon_ok_but {} (d2\<lparr>dm_sched := fst (Release jid (dm_sched d2)), dm_jobs := AList.delete jid (dm_jobs d2)\<rparr>)"
        using release_failed_ok [OF conjunct1 [OF p] j2 job(2) jq] .
      then show ?thesis using False ad f s3 Some st q(2)
        by (cases b) (simp_all add: Submit_def Let_def r_def [symmetric])
    qed
  qed
qed (simp add: Submit_def ok)

lemma start_all_ok:
  assumes "daemon_ok_but {} d" and "\<forall>dec \<in> set ds. started_ok (dm_sched d) dec"
  shows "daemon_ok_but {} (fst (fold (start_one lo now) ds (d, effs)))"
  using assms
proof (induction ds arbitrary: d effs)
  case (Cons dec ds)
  obtain d' effs' where o: "start_one lo now dec (d, effs) = (d', effs')" by fastforce
  from Cons.prems(2) obtain pl p where pl: "d_Placement dec = Some pl" "map_of (s_running (dm_sched d)) (pl_JobID pl) = Some p"
      "p_slots p = pl_Slots pl" by (auto simp: started_ok_def)
  have "daemon_ok_but {} d' \<and> dm_sched d' = dm_sched d"
  proof (cases "\<exists>q. map_of (dm_jobs d) (pl_JobID pl) = Some q \<and> (jb_State q = ''queued'' \<or> jb_State q = ''paused'')")
    case True
    then obtain q where q: "map_of (dm_jobs d) (pl_JobID pl) = Some q" "jb_State q = ''queued'' \<or> jb_State q = ''paused''" by auto
    obtain b eff where st: "startLocked q pl (lo (pl_JobID pl)) now d = (d', b, eff)"
      using o pl(1) q by (cases "startLocked q pl (lo (pl_JobID pl)) now d") (auto simp: start_one_def)
    show ?thesis using startLocked_ok [OF Cons.prems(1) daemon_okD(3) [OF Cons.prems(1) q(1)] refl pl(2,3) st] by simp
  next
    case False
    then have "d' = d" using o pl(1) by (auto simp: start_one_def split: option.splits)
    then show ?thesis using Cons.prems(1) by simp
  qed
  then show ?case using Cons o by simp
qed simp

lemma reap_ok:
  assumes ok: "daemon_ok_but {} d"
  shows "daemon_ok_but {} (fst (reap jid proc code now w lo d))"
proof (cases "\<exists>job. map_of (dm_jobs d) jid = Some job \<and> jb_proc job = Some proc")
  case True
  then obtain job where job: "map_of (dm_jobs d) jid = Some job" "jb_proc job = Some proc" by auto
  let ?job = "job\<lparr>jb_State := ''exited'', jb_ExitCode := Some code, jb_done := None, jb_proc := None\<rparr>"
  let ?d = "d\<lparr>dm_jobs := AList.update jid ?job (dm_jobs d), dm_ledger := fst (End jid now w (dm_ledger d))\<rparr>"
  obtain s' ds where rel: "Release jid (dm_sched ?d) = (s', ds)" by fastforce
  have d: "daemon_ok_but {} ?d"
    using ok daemon_okD(3) [OF ok job(1)] by (intro daemon_ok_job) (auto simp: job_rec_def)
  have r: "daemon_ok_but {} (?d\<lparr>dm_sched := s'\<rparr>)" "\<forall>dec \<in> set ds. started_ok s' dec"
    by (rule release_ok [OF d _ rel], simp add: AList.update_conv')+
  show ?thesis using start_all_ok [OF r(1)] r(2) job rel by (simp add: reap_def Let_def)
next
  case False
  then show ?thesis using ok by (auto simp: reap_def split: option.splits)
qed

lemma cancel_queue_ids: "cancel_queue jid q = Some q' \<Longrightarrow> distinct (map r_ID q) \<Longrightarrow>
    distinct (map r_ID q') \<and> r_ID ` set q' = r_ID ` set q - {jid}"
proof (induction q arbitrary: q')
  case (Cons r q)
  show ?case
  proof (cases "r_ID r = jid")
    case False
    then obtain q1 where "cancel_queue jid q = Some q1" "q' = r # q1" using Cons.prems(1) by auto
    then show ?thesis using Cons.IH [of q1] Cons.prems(2) False by (simp add: insert_Diff_if)
  qed (use Cons.prems in auto)
qed simp

lemma cancel_queue_None: "cancel_queue jid q = None \<longleftrightarrow> jid \<notin> r_ID ` set q"
  by (induction q) auto

lemma Stop_ok:
  assumes ok: "daemon_ok_but {} d"
  shows "daemon_ok_but {} (fst (Stop jid d))"
proof -
  let ?s = "fst (Cancel jid (dm_sched d))"
  have q: "distinct (map r_ID (s_queue (dm_sched d)))" using daemon_okD(2) [OF ok] by (simp add: queue_ok_def)
  have s: "r_ID ` set (s_queue ?s) = r_ID ` set (s_queue (dm_sched d)) - {jid}" "distinct (map r_ID (s_queue ?s))"
      "s_running ?s = s_running (dm_sched d)"
    using cancel_queue_ids [OF _ q, of jid] cancel_queue_None [of jid] q by (auto simp: Cancel_def split: option.split)
  have "queue_ok ?s (fst ` set (dm_jobs d))" using daemon_okD(2) [OF ok] s by (auto simp: queue_ok_def)
  then have "daemon_ok_but {} (d\<lparr>dm_sched := ?s\<rparr>)"
    using ok Cancel_inv [of "dm_sched d" jid] by (simp add: daemon_ok_but_def placed_as_def s(3))
  then have "daemon_ok_but {} (d\<lparr>dm_sched := ?s, dm_jobs := AList.delete jid (dm_jobs d)\<rparr>)"
    using delete_ok [of "{}" "d\<lparr>dm_sched := ?s\<rparr>" jid] s(1) by simp
  then show ?thesis using ok by (simp add: Stop_def split: option.split)
qed

lemma Resize_job_ok:
  assumes ok: "daemon_ok_but {} d"
  shows "daemon_ok_but {} (fst (Resize_job jid f m now w d))"
proof (cases "\<exists>job s' pl. map_of (dm_jobs d) jid = Some job \<and> jb_State job = ''running'' \<and> Resize jid f m (dm_sched d) = (s', Inr pl)")
  case True
  then obtain job s' pl where job: "map_of (dm_jobs d) jid = Some job" "jb_State job = ''running''"
    and rs: "Resize jid f m (dm_sched d) = (s', Inr pl)" by auto
  note jok = daemon_okD(3,4) [OF ok job(1)]
  from daemon_okD(1) [OF ok] rs obtain p where s': "s' = (dm_sched d)\<lparr>s_running :=
      AList.update jid (p\<lparr>p_req := resize_req p f m, p_slots := pl_Slots pl\<rparr>) (s_running (dm_sched d))\<rparr>"
    and p: "map_of (s_running (dm_sched d)) jid = Some p" "pl_JobID pl = jid" by (rule Resize_OK)
  have "sched_inv s'" using Resize_inv [OF daemon_okD(1) [OF ok], of jid f m] rs by simp
  moreover have "jid \<in> fst ` set (s_running (dm_sched d))" using p(1) by (simp add: dom_fst domI)
  then have "fst ` set (s_running s') = fst ` set (s_running (dm_sched d))" by (simp add: s' keys_update insert_absorb)
  then have "queue_ok s' (fst ` set (dm_jobs d))" using daemon_okD(2) [OF ok] by (simp add: queue_ok_def s')
  ultimately have "daemon_ok_but {jid} (d\<lparr>dm_sched := s'\<rparr>)"
    using ok by (auto simp: daemon_ok_but_def placed_as_def s' AList.update_conv' job_rec_def)
  then have "daemon_ok_but {} (d\<lparr>dm_sched := s', dm_jobs := AList.update jid (job\<lparr>jb_Share := f, jb_Placement := Some pl\<rparr>) (dm_jobs d), dm_ledger := l\<rparr>)" for l
    using daemon_ok_job [of "{jid}" "d\<lparr>dm_sched := s'\<rparr>" jid "job\<lparr>jb_Share := f, jb_Placement := Some pl\<rparr>" "{}" l] jok job(2) p
    by (cases pl) (auto simp: job_rec_def placed_as_def s' AList.update_conv')
  then show ?thesis using job rs by (cases d) (simp add: Resize_job_def)
next
  case False
  have "s' = dm_sched d" if "Resize jid f m (dm_sched d) = (s', Inl e)" for s' e
    using that by (auto simp: Resize_eq split: option.splits sum.splits)
  then show ?thesis using False ok by (auto simp: Resize_job_def split: option.split prod.split sum.split)
qed

end
