(* ===== verification/Daemon_Properties.thy ===== *)
theory Daemon_Properties
  imports Daemon_Invariant
begin

text \<open>
  The daemon as a system of operations: whatever clients ask and whenever processes end, what the daemon says of a running job is what
  the scheduler has reserved for it. Then three things its operations do not get right: a job pushed off is not resumed but
  started again, a stopped job that was paused can keep seats for ever, and a job on several cards is told of the last one only.
\<close>

subsection \<open>The daemon's operations\<close>

datatype daemon_op =
    DSubmit SubmitRequest string int bool "(nat \<times> int) option"
  | DReap string nat int int bool "string \<Rightarrow> (nat \<times> int) option"
  | DStop string
  | DResize string float64 int int bool
  | DHook "nat option"

fun daemon_step :: "daemon_op \<Rightarrow> Daemon \<Rightarrow> Daemon" where
  "daemon_step (DSubmit r jid now w lo) d = fst (Submit r jid now w lo d)"
| "daemon_step (DReap jid proc code now w lo) d = fst (reap jid proc code now w lo d)"
| "daemon_step (DStop jid) d = fst (Stop jid d)"
| "daemon_step (DResize jid f m now w) d = fst (Resize_job jid f m now w d)"
| "daemon_step (DHook h) d = set_hook h d"

text \<open>New ids are new (\<^verbatim>\<open>newID\<close> takes them from the clock) and no client asks for a negative amount of memory.\<close>

fun daemon_guard :: "daemon_op \<Rightarrow> Daemon \<Rightarrow> bool" where
  "daemon_guard (DSubmit r jid now w lo) d \<longleftrightarrow> jid \<notin> fst ` set (dm_jobs d) \<and> 0 \<le> sr_MemMiB r"
| "daemon_guard _ d \<longleftrightarrow> True"

lemma set_hook_ok: "daemon_ok d \<Longrightarrow> daemon_ok (set_hook h d)"
  by (simp add: daemon_ok_def daemon_ok_but_def set_hook_def)

interpretation daemon: invariant_system daemon_step daemon_guard daemon_ok
proof
  fix d and l :: daemon_op
  assume "daemon_ok d" and "daemon_guard l d"
  then show "daemon_ok (daemon_step l d)"
    by (cases l) (auto simp: set_hook_ok, auto simp: daemon_ok_def Submit_ok reap_ok Stop_ok Resize_job_ok)
qed

lemma zip_first: "length xs = length ys \<Longrightarrow> map (\<lambda>(i, v, dv). i) (zip xs ys) = xs"
  by (induction xs ys rule: list_induct2) auto

lemma New_daemon_ok:
  assumes "\<forall>(v, b, ds) \<in> set found. \<forall>dv \<in> set ds. 0 \<le> dv_MemMiB dv"
  shows "daemon_ok (New_daemon stateDir seats found lines)"
proof -
  define devs where "devs = concat (map (\<lambda>(v, b, ds). map (\<lambda>dv. (v, dv)) ds) found)"
  define n where "n = (if seats \<le> 0 then DefaultSeats else seats)"
  let ?cards = "map (\<lambda>(i, v, dv). \<lparr>c_Index = i, c_Name = dv_Name dv, c_MemMiB = dv_MemMiB dv, c_Seats = n, c_Down = False\<rparr>)
      (zip (map int [0..<length devs]) devs)"
  have "map c_Index ?cards = map (\<lambda>(i, v, dv). i) (zip (map int [0..<length devs]) devs)" by (simp add: case_prod_beta' comp_def)
  then have i: "map c_Index ?cards = map int [0..<length devs]" by (simp only: zip_first length_map length_upt diff_zero)
  have "distinct (map c_Index ?cards)" unfolding i by (simp add: distinct_map)
  moreover have "0 \<le> dv_MemMiB dv" if "(v, dv) \<in> set devs" for v dv using that assms by (fastforce simp: devs_def)
  then have "\<forall>c \<in> set ?cards. 0 \<le> c_MemMiB c" by (auto dest: set_zip_rightD)
  ultimately have "sched_inv (New ?cards)" by (rule sched_inv_New)
  then have "sched_inv (dm_sched (New_daemon stateDir seats found lines))"
    by (simp only: New_daemon_def Let_def devs_def [symmetric] n_def [symmetric] Daemon.Daemon.select_convs)
  then show ?thesis
    by (simp add: daemon_ok_def daemon_ok_but_def queue_ok_def) (simp add: New_daemon_def New_def Let_def)
qed

text \<open>
  C6: after any sequence of submissions, ends of processes, stops and resizes (ids are new, memory is not negative), a job the daemon
  calls running has a process, the placement the daemon shows for it is the one the scheduler holds, and no other running job
  has a seat of it.
\<close>

theorem running_jobs_placed:
  assumes "\<forall>(v, b, ds) \<in> set found. \<forall>dv \<in> set ds. 0 \<le> dv_MemMiB dv"
    and "guarded_ops daemon_step daemon_guard ops (New_daemon stateDir seats found lines)"
    and "d = run_ops daemon_step ops (New_daemon stateDir seats found lines)"
    and "map_of (dm_jobs d) j = Some job" and "jb_State job = ''running''"
  shows "jb_proc job \<noteq> None \<and> jb_Placement job = Placement_of j (dm_sched d) \<and>
    (\<exists>slots. jb_Placement job = Some \<lparr>pl_JobID = j, pl_Slots = slots\<rparr> \<and>
      (\<forall>k job' pl' sl sl'. k \<noteq> j \<and> map_of (dm_jobs d) k = Some job' \<and> jb_State job' = ''running'' \<and> jb_Placement job' = Some pl' \<and>
         sl \<in> set slots \<and> sl' \<in> set (pl_Slots pl') \<and> sl_Card sl = sl_Card sl' \<longrightarrow> set (sl_SeatIDs sl) \<inter> set (sl_SeatIDs sl') = {}))"
proof -
  have ok: "daemon_ok_but {} d"
    using daemon.run_inv [OF New_daemon_ok [OF assms(1)] assms(2)] assms(3) by (simp add: daemon_ok_def)
  have at: "jb_proc x \<noteq> None \<and> (\<exists>p. map_of (s_running (dm_sched d)) k = Some p \<and> jb_Placement x = Some \<lparr>pl_JobID = k, pl_Slots = p_slots p\<rparr>)"
    if "map_of (dm_jobs d) k = Some x" "jb_State x = ''running''" for k x
    using daemon_okD(3,4) [OF ok that(1)] that(2) by (auto simp: placed_as_def job_rec_def)
  from at [OF assms(4,5)] obtain p where p: "map_of (s_running (dm_sched d)) j = Some p"
      "jb_Placement job = Some \<lparr>pl_JobID = j, pl_Slots = p_slots p\<rparr>" "jb_proc job \<noteq> None" by blast
  have "set (sl_SeatIDs sl) \<inter> set (sl_SeatIDs sl') = {}"
    if k: "k \<noteq> j" "map_of (dm_jobs d) k = Some job'" "jb_State job' = ''running''" "jb_Placement job' = Some pl'"
      and sl: "sl \<in> set (p_slots p)" "sl' \<in> set (pl_Slots pl')" "sl_Card sl = sl_Card sl'" for k job' pl' sl sl'
  proof -
    from at [OF k(2,3)] k(4) obtain q where q: "map_of (s_running (dm_sched d)) k = Some q" "pl_Slots pl' = p_slots q" by auto
    show ?thesis using seats_apart [OF daemon_okD(1) [OF ok] p(1) q(1) _ sl(1) _ sl(3)] sl(2) q(2) k(1) by simp
  qed
  then have "\<forall>k job' pl' sl sl'. k \<noteq> j \<and> map_of (dm_jobs d) k = Some job' \<and> jb_State job' = ''running'' \<and> jb_Placement job' = Some pl' \<and>
      sl \<in> set (p_slots p) \<and> sl' \<in> set (pl_Slots pl') \<and> sl_Card sl = sl_Card sl' \<longrightarrow> set (sl_SeatIDs sl) \<inter> set (sl_SeatIDs sl') = {}"
    by (intro allI impI) (elim conjE)
  then show ?thesis using p by (simp add: Placement_of_def)
qed

subsection \<open>A small daemon\<close>

definition demo_dev :: Device where
  "demo_dev = zero_dev\<lparr>dv_Name := ''g'', dv_Vendor := ''fake'', dv_MemMiB := 1000\<rparr>"

definition demo_found :: "(string \<times> backend \<times> Device list) list" where
  "demo_found = [(''fake'', \<lparr>be_JobEnv = fake_JobEnv, be_Caps = fake_Caps\<rparr>, [demo_dev])]"

definition demo_sub :: "int \<Rightarrow> SubmitRequest" where
  "demo_sub prio = \<lparr>sr_Command = [''train''], sr_Name = [], sr_Owner = ''ann'', sr_Share = Fin (1/2), sr_MemMiB = 100, sr_GPUs = 1,
     sr_Priority = prio, sr_Preemptible = True, sr_Burst = False, sr_Wait = True, sr_Allow = [], sr_DenyNet = False, sr_Dir = []\<rparr>"

definition demo_daemon :: Daemon where
  "demo_daemon = New_daemon ''/tmp'' 2 demo_found []"

lemma demo_request: "request_of jid (demo_sub prio) = demo_req jid prio"
  by (simp add: request_of_def demo_sub_def demo_req_def)

lemma demo_share_pos: "f64_le (sr_Share (demo_sub prio)) (Fin 0) = False" "sr_Command (demo_sub prio) \<noteq> []"
  by (simp_all add: demo_sub_def) code_simp?

lemma demo_daemon_sched: "dm_sched demo_daemon = New [demo_card 0]" "dm_jobs demo_daemon = []"
  by (simp_all add: demo_daemon_def New_daemon_def demo_found_def demo_dev_def zero_dev_def demo_card_def)

definition demo_one :: Scheduler where
  "demo_one = \<lparr>s_cards = [demo_card 0], s_running = [demo_job ''a'' 0 [0] 1], s_queue = [], s_next = 1\<rparr>"

lemma demo_first: "Admit (demo_req ''a'' 0) (New [demo_card 0]) =
    (demo_one,
     Inr \<lparr>d_Placement = Some \<lparr>pl_JobID = ''a'', pl_Slots = [demo_slot 0 [0]]\<rparr>, d_Preempt = [], d_Queued = False\<rparr>)"
  by (simp add: demo_eval demo_one_def demo_full_def)

lemma demo_second: "Admit (demo_req ''b'' 0) demo_one =
    (demo_full, Inr \<lparr>d_Placement = Some \<lparr>pl_JobID = ''b'', pl_Slots = [demo_slot 0 [1]]\<rparr>, d_Preempt = [], d_Queued = False\<rparr>)"
  by (simp add: demo_eval demo_one_def demo_full_def)

definition demo_dops :: "daemon_op list" where
  "demo_dops = [DSubmit (demo_sub 0) ''a'' 10 True (Some (1, 10)), DSubmit (demo_sub 0) ''b'' 20 True (Some (2, 20))]"

definition demo_rec :: "string \<Rightarrow> int list \<Rightarrow> nat \<Rightarrow> int \<Rightarrow> Job" where
  "demo_rec jid ids proc t = (new_job jid (demo_sub 0) None)\<lparr>jb_proc := Some proc, jb_State := ''running'',
     jb_Placement := Some \<lparr>pl_JobID = jid, pl_Slots = [demo_slot 0 ids]\<rparr>, jb_Started := t\<rparr>"

lemma demo_hook: "dm_hook demo_daemon = None"
  by (simp add: demo_daemon_def New_daemon_def Let_def)

lemma demo_submit:
  assumes "Admit (demo_req jid 0) (dm_sched d) = (s', Inr \<lparr>d_Placement = Some \<lparr>pl_JobID = jid, pl_Slots = [demo_slot 0 ids]\<rparr>,
      d_Preempt = [], d_Queued = False\<rparr>)" and "dm_hook d = None"
  shows "dm_sched (fst (Submit (demo_sub 0) jid now w (Some (proc, t)) d)) = s' \<and>
    dm_jobs (fst (Submit (demo_sub 0) jid now w (Some (proc, t)) d)) = AList.update jid (demo_rec jid ids proc t) (dm_jobs d) \<and>
    dm_hook (fst (Submit (demo_sub 0) jid now w (Some (proc, t)) d)) = None"
  using assms by (simp add: Submit_def Let_def demo_request demo_share_pos startLocked_def demo_rec_def new_job_def)

lemma demo_drun:
  "dm_jobs (run_ops daemon_step demo_dops demo_daemon) = [(''a'', demo_rec ''a'' [0] 1 10), (''b'', demo_rec ''b'' [1] 2 20)] \<and>
   dm_sched (run_ops daemon_step demo_dops demo_daemon) = demo_full \<and> guarded_ops daemon_step daemon_guard demo_dops demo_daemon"
proof -
  let ?d = "fst (Submit (demo_sub 0) ''a'' 10 True (Some (1, 10)) demo_daemon)"
  have d: "dm_sched ?d = demo_one \<and> dm_jobs ?d = [(''a'', demo_rec ''a'' [0] 1 10)] \<and> dm_hook ?d = None"
    using demo_submit [of "''a''" demo_daemon] by (simp add: demo_daemon_sched demo_first demo_hook)
  then show ?thesis using demo_submit [of "''b''" ?d demo_full "[1]" 20 True 2 20]
    by (simp add: demo_second demo_dops_def demo_daemon_sched) (simp add: demo_sub_def)
qed

theorem running_jobs_placed_witness:
  "Placement_of ''a'' demo_full = Some \<lparr>pl_JobID = ''a'', pl_Slots = [demo_slot 0 [0]]\<rparr>"
proof -
  have "jb_proc (demo_rec ''a'' [0] 1 10) \<noteq> None \<and> jb_Placement (demo_rec ''a'' [0] 1 10) = Placement_of ''a'' demo_full"
    using running_jobs_placed [of demo_found demo_dops "''/tmp''" 2 "[]" "run_ops daemon_step demo_dops demo_daemon" "''a''" "demo_rec ''a'' [0] 1 10"]
    by (simp add: demo_drun demo_daemon_def [symmetric]) (simp add: demo_found_def demo_dev_def demo_rec_def)
  then show ?thesis by (simp add: demo_rec_def)
qed

subsection \<open>A job on several cards\<close>

text \<open>
  What the daemon relies on of a backend: the environment is a map, and one variable of it names the card the job may use.
\<close>

locale card_env =
  fixes job_env_of :: "Device \<Rightarrow> gpu_Slot \<Rightarrow> string \<Rightarrow> env"
    and var :: string
    and card_name :: "Device \<Rightarrow> string"
  assumes names_card: "map_of (job_env_of dev s dir) var = Some (card_name dev)"
    and keys_distinct: "distinct (map fst (job_env_of dev s dir))"
begin

lemma last_card_wins:
  assumes "map_of (dm_backends d) (cr_vendor (card_ref d (sl_Card sl))) = Some b" and "be_JobEnv b = job_env_of"
  shows "map_of (job_env d (slots @ [sl])) var = Some (card_name (cr_dev (card_ref d (sl_Card sl))))"
proof -
  have "map_of (merge_env extra e) k = (case map_of extra k of Some v \<Rightarrow> Some v | None \<Rightarrow> map_of e k)"
    if "distinct (map fst extra)" for extra e k
    using that by (simp add: merge_env_def map_of_fold_update)
  then show ?thesis using assms by (simp add: job_env_def slot_env_def Let_def names_card keys_distinct)
qed

end

interpretation nvidia: card_env nvidia_JobEnv "''CUDA_VISIBLE_DEVICES''" "\<lambda>dev. Itoa (dv_Index dev)"
  by standard (simp_all add: nvidia_JobEnv_def case_prod_beta)

interpretation intel: card_env intel_JobEnv "''ZE_AFFINITY_MASK''" "\<lambda>dev. Itoa (dv_Index dev)"
  by standard (simp_all add: intel_JobEnv_def)

interpretation fake: card_env fake_JobEnv "''GMUX_FAKE_GPU''" "\<lambda>dev. Itoa (dv_Index dev)"
  by standard (simp_all add: fake_JobEnv_def)

interpretation amd: card_env "amd_JobEnv uni shim" "''ROCR_VISIBLE_DEVICES''"
    "\<lambda>dev. if TrimPrefix (ToLower uni (dv_UUID dev)) ''0x'' \<noteq> [] then ''GPU-'' @ TrimPrefix (ToLower uni (dv_UUID dev)) ''0x'' else Itoa (dv_Index dev)"
  for uni shim
  by standard (auto simp: amd_JobEnv_def Let_def)

text \<open>
  A job on several cards is given the environment of its last slot only. The variable that names its card, whichever the vendor,
  is that of the last card, whatever the other slots are: the other cards are reserved for it and it cannot see them.
\<close>

theorem several_cards_last_visible:
  assumes "map_of (dm_backends d) (cr_vendor (card_ref d (sl_Card sl))) = Some b"
  shows "(be_JobEnv b = nvidia_JobEnv \<longrightarrow>
      map_of (job_env d (slots @ [sl])) ''CUDA_VISIBLE_DEVICES'' = Some (Itoa (dv_Index (cr_dev (card_ref d (sl_Card sl)))))) \<and>
    (be_JobEnv b = intel_JobEnv \<longrightarrow>
      map_of (job_env d (slots @ [sl])) ''ZE_AFFINITY_MASK'' = Some (Itoa (dv_Index (cr_dev (card_ref d (sl_Card sl)))))) \<and>
    (be_JobEnv b = amd_JobEnv uni shim \<and> dv_UUID (cr_dev (card_ref d (sl_Card sl))) = [] \<longrightarrow>
      map_of (job_env d (slots @ [sl])) ''ROCR_VISIBLE_DEVICES'' = Some (Itoa (dv_Index (cr_dev (card_ref d (sl_Card sl))))))"
proof -
  have "TrimPrefix (ToLower uni []) ''0x'' = []" by (simp add: ToLower_def TrimPrefix_def is_ascii_def)
  then show ?thesis
    using nvidia.last_card_wins [OF assms] intel.last_card_wins [OF assms] amd.last_card_wins [OF assms, of uni shim] by simp
qed

theorem several_cards_last_visible_witness:
  "let d = New_daemon ''/tmp'' 2 [(''nvidia'', \<lparr>be_JobEnv = nvidia_JobEnv, be_Caps = nvidia_Caps True\<rparr>, [demo_dev, demo_dev\<lparr>dv_Index := 1\<rparr>])] []
   in map_of (job_env d [demo_slot 0 [0], demo_slot 1 [0]]) ''CUDA_VISIBLE_DEVICES'' = Some ''1''"
proof -
  let ?b = "\<lparr>be_JobEnv = nvidia_JobEnv, be_Caps = nvidia_Caps True\<rparr>"
  let ?d = "New_daemon ''/tmp'' 2 [(''nvidia'', ?b, [demo_dev, demo_dev\<lparr>dv_Index := 1\<rparr>])] []"
  have r: "card_ref ?d 1 = \<lparr>cr_vendor = ''nvidia'', cr_dev = demo_dev\<lparr>dv_Index := 1\<rparr>\<rparr>"
    by (simp add: New_daemon_def Let_def card_ref_def)
  have b: "map_of (dm_backends ?d) ''nvidia'' = Some ?b" by (simp add: New_daemon_def Let_def)
  have i: "Itoa 1 = ''1''" by code_simp
  show ?thesis
    using several_cards_last_visible [of ?d "demo_slot 1 [0]" ?b "[demo_slot 0 [0]]"] r b i
    by (simp add: Let_def demo_slot_def)
qed

subsection \<open>Pausing is not resumed\<close>

text \<open>
  When room comes back for a job that was pushed off, the daemon launches its command again as a new process. The suspended
  process is forgotten: nothing is sent to it, its exit is not noticed, and stopping the job stops the new process only.
\<close>

theorem pushed_off_process_is_abandoned:
  assumes "start_one lo now dec (d, effs) = (d', effs')" and "d_Placement dec = Some pl"
    and "map_of (dm_jobs d) (pl_JobID pl) = Some q" and "jb_State q = ''paused''" and "jb_ID q = pl_JobID pl"
    and "jb_proc q = Some old" and "lo (pl_JobID pl) = Some (new, t)" and "new \<noteq> old"
  shows "effs' = effs @ [Launch (jb_ID q) (jb_Command q) (job_env d (pl_Slots pl))] \<and>
    reap (pl_JobID pl) old code now' w lo' d' = (d', []) \<and>
    Stop (pl_JobID pl) d' = (d', Inr (), [Terminate new])"
  using assms by (auto simp: start_one_def startLocked_def Let_def reap_def Stop_def AList.update_conv')

theorem pushed_off_process_is_abandoned_witness:
  "let q = (demo_rec ''a'' [0] 1 10)\<lparr>jb_State := ''paused''\<rparr>;
       d = demo_daemon\<lparr>dm_jobs := [(''a'', q)]\<rparr>;
       dec = \<lparr>d_Placement = Some \<lparr>pl_JobID = ''a'', pl_Slots = [demo_slot 0 [1]]\<rparr>, d_Preempt = [], d_Queued = False\<rparr>;
       d' = fst (start_one (\<lambda>_. Some (7, 30)) 30 dec (d, []))
   in reap ''a'' 1 0 40 True (\<lambda>_. None) d' = (d', []) \<and> Stop ''a'' d' = (d', Inr (), [Terminate 7])"
proof -
  define q where "q = (demo_rec ''a'' [0] 1 10)\<lparr>jb_State := ''paused''\<rparr>"
  define d where "d = demo_daemon\<lparr>dm_jobs := [(''a'', q)]\<rparr>"
  define pl where "pl = \<lparr>pl_JobID = ''a'', pl_Slots = [demo_slot 0 [1]]\<rparr>"
  define dec where "dec = \<lparr>d_Placement = Some pl, d_Preempt = [], d_Queued = False\<rparr>"
  obtain d' effs' where s: "start_one (\<lambda>_. Some (7, 30)) 30 dec (d, []) = (d', effs')" by fastforce
  have q: "jb_State q = ''paused''" "jb_ID q = ''a''" "jb_proc q = Some 1" by (simp_all add: q_def demo_rec_def new_job_def)
  have "reap (pl_JobID pl) 1 0 40 True (\<lambda>_. None) d' = (d', []) \<and> Stop (pl_JobID pl) d' = (d', Inr (), [Terminate 7])"
    using pushed_off_process_is_abandoned [OF s, of pl q 1 7 30 0 40 True "\<lambda>_. None"] q by (simp add: dec_def pl_def d_def)
  then show ?thesis using s by (simp add: Let_def q_def d_def dec_def pl_def)
qed

subsection \<open>Stopping a paused job\<close>

lemma start_one_exited:
  assumes "map_of (dm_jobs d) j = Some x" and "jb_State x = ''exited''" and "\<forall>k y. map_of (dm_jobs d) k = Some y \<longrightarrow> jb_ID y = k"
  shows "map_of (dm_jobs (fst (start_one lo now dec (d, effs)))) j = Some x \<and>
    dm_sched (fst (start_one lo now dec (d, effs))) = dm_sched d \<and>
    (\<forall>k y. map_of (dm_jobs (fst (start_one lo now dec (d, effs)))) k = Some y \<longrightarrow> jb_ID y = k)"
  using assms by (auto simp: start_one_def startLocked_def Let_def AList.update_conv' split: option.split)

lemma start_all_exited:
  assumes "map_of (dm_jobs d) j = Some x" and "jb_State x = ''exited''" and "\<forall>k y. map_of (dm_jobs d) k = Some y \<longrightarrow> jb_ID y = k"
  shows "map_of (dm_jobs (fst (fold (start_one lo now) ds (d, effs)))) j = Some x \<and>
    dm_sched (fst (fold (start_one lo now) ds (d, effs))) = dm_sched d"
  using assms
proof (induction ds arbitrary: d effs)
  case (Cons dec ds)
  obtain d' effs' where o: "start_one lo now dec (d, effs) = (d', effs')" by fastforce
  show ?case using start_one_exited [OF Cons.prems, of lo now dec effs] o Cons.IH [of d' effs'] Cons.prems(2) by simp
qed simp

text \<open>
  A paused job still waits in the scheduler's queue. When its process ends (a stop kills it), the release that follows may
  start that queue entry: the scheduler then holds seats for a job the daemon calls exited, which has no process
  whose end could give them back.
\<close>

theorem stopped_paused_job_keeps_seats:
  assumes "daemon_ok d" and "map_of (dm_jobs d) jid = Some job" and "jb_State job = ''paused''" and "jb_proc job = Some proc"
    and "Release jid (dm_sched d) = (s', ds)" and "jid \<in> started_id ` set ds"
  shows "\<exists>job'. map_of (dm_jobs (fst (reap jid proc code now w lo d))) jid = Some job' \<and> jb_State job' = ''exited'' \<and> jb_proc job' = None \<and>
    Placement_of jid (dm_sched (fst (reap jid proc code now w lo d))) \<noteq> None"
proof -
  have ok: "daemon_ok_but {} d" using assms(1) by (simp add: daemon_ok_def)
  have q: "distinct (map r_ID (s_queue (dm_sched d)))" "r_ID ` set (s_queue (dm_sched d)) \<inter> fst ` set (s_running (dm_sched d)) = {}"
    using daemon_okD(2) [OF ok] by (auto simp: queue_ok_def)
  have "\<forall>dec \<in> set ds. started_ok s' dec" using Release_spec [OF daemon_okD(1) [OF ok] q assms(5)] by blast
  then have run: "map_of (s_running s') jid \<noteq> None" using assms(6) by (fastforce simp: started_ok_def started_id_def)
  let ?job = "job\<lparr>jb_State := ''exited'', jb_ExitCode := Some code, jb_done := None, jb_proc := None\<rparr>"
  let ?d = "d\<lparr>dm_jobs := AList.update jid ?job (dm_jobs d), dm_ledger := fst (End jid now w (dm_ledger d)), dm_sched := s'\<rparr>"
  have ids: "\<forall>k y. map_of (dm_jobs ?d) k = Some y \<longrightarrow> jb_ID y = k"
    using daemon_okD(3) [OF ok] assms(2) by (auto simp: AList.update_conv' job_rec_def)
  have x: "map_of (dm_jobs ?d) jid = Some ?job" "jb_State ?job = ''exited''" by (simp_all add: AList.update_conv')
  have r: "\<exists>effs. reap jid proc code now w lo d = fold (start_one lo now) ds (?d, effs)"
    using assms(2,4,5) by (auto simp: reap_def Let_def)
  then obtain effs where r: "reap jid proc code now w lo d = fold (start_one lo now) ds (?d, effs)" by blast
  show ?thesis using start_all_exited [OF x ids, of lo now ds effs] run unfolding r by (auto simp: Placement_of_def)
qed

definition demo_paused :: Daemon where
  "demo_paused = demo_daemon\<lparr>dm_sched := Requeue (demo_req ''a'' 0) (Evict ''a'' demo_full),
     dm_jobs := [(''a'', (demo_rec ''a'' [0] 1 10)\<lparr>jb_State := ''paused''\<rparr>), (''b'', demo_rec ''b'' [1] 2 20)]\<rparr>"

lemma demo_paused_sched:
  "dm_sched demo_paused = \<lparr>s_cards = [demo_card 0], s_running = [demo_job ''b'' 0 [1] 2], s_queue = [demo_req ''a'' 0], s_next = 2\<rparr>"
  by (simp add: demo_paused_def Requeue_def Evict_def demo_full_def demo_job_def demo_req_def)

lemma demo_req_ok: "req_ok (demo_req jid p)" if "jid \<noteq> []"
  using that by (simp add: req_ok_def validate_def demo_req_def demo_share)

lemma demo_paused_ok: "daemon_ok demo_paused"
proof -
  have "sched_inv (dm_sched demo_paused)"
    using Requeue_inv [OF Evict_inv [OF demo_inv], of "demo_req ''a'' 0" "''a''"] demo_req_ok by (simp add: demo_paused_def)
  moreover have "queue_ok (dm_sched demo_paused) (fst ` set (dm_jobs demo_paused))"
    unfolding demo_paused_sched queue_ok_def by (simp add: demo_paused_def demo_job_def demo_req_def)
  moreover have "placed_as (dm_sched demo_paused) (demo_rec ''b'' [1] 2 20)"
    unfolding demo_paused_sched placed_as_def by (simp add: demo_job_def demo_rec_def new_job_def)
  moreover have "job_rec j (demo_rec j ids p t)" "jb_State (demo_rec j ids p t) = ''running''" "jb_proc (demo_rec j ids p t) = Some p"
    if "j \<noteq> []" for j ids p t
    using that demo_req_ok by (simp_all add: job_rec_def demo_rec_def new_job_def demo_request, simp add: demo_req_def)
  ultimately show ?thesis
    by (auto simp: daemon_ok_def daemon_ok_but_def) (auto simp: demo_paused_def job_rec_def split: if_splits)
qed

theorem stopped_paused_job_keeps_seats_witness:
  "\<exists>job'. map_of (dm_jobs (fst (reap ''a'' 1 137 50 True (\<lambda>_. None) demo_paused))) ''a'' = Some job' \<and> jb_State job' = ''exited'' \<and>
     Placement_of ''a'' (dm_sched (fst (reap ''a'' 1 137 50 True (\<lambda>_. None) demo_paused))) \<noteq> None"
proof -
  let ?d = "[\<lparr>d_Placement = Some \<lparr>pl_JobID = ''a'', pl_Slots = [demo_slot 0 [0]]\<rparr>, d_Preempt = [], d_Queued = False\<rparr>]"
  have "snd (Release ''a'' (dm_sched demo_paused)) = ?d"
    unfolding demo_paused_sched by (simp add: Release_def drain_def sort_queue_def start_job_def demo_eval)
  then obtain s' where r: "Release ''a'' (dm_sched demo_paused) = (s', ?d)" by (cases "Release ''a'' (dm_sched demo_paused)") auto
  have j: "map_of (dm_jobs demo_paused) ''a'' = Some ((demo_rec ''a'' [0] 1 10)\<lparr>jb_State := ''paused''\<rparr>)" by (simp add: demo_paused_def)
  show ?thesis
    using stopped_paused_job_keeps_seats [OF demo_paused_ok j _ _ r, of 1 137 50 True "\<lambda>_. None"]
    by (auto simp: started_id_def demo_rec_def)
qed

subsection \<open>Two clients at once\<close>

lemma preempt_keeps_out:
  "map_of (dm_jobs (fst (preempt_one now w v (d, effs)))) k = map_of (dm_jobs d) k \<or>
    (\<exists>job. map_of (dm_jobs d) k = Some job \<and> map_of (dm_jobs (fst (preempt_one now w v (d, effs)))) k = Some (job\<lparr>jb_State := ''paused''\<rparr>))"
  by (auto simp: preempt_one_def pauseLocked_def AList.update_conv' split: option.split)

lemma preempt_all_out:
  assumes "map_of (dm_jobs d) k = Some job"
  shows "\<exists>job'. map_of (dm_jobs (fst (fold (preempt_one now w) vs (d, effs)))) k = Some job' \<and> jb_out job' = jb_out job \<and> jb_ID job' = jb_ID job"
  using assms
proof (induction vs arbitrary: d effs job)
  case (Cons v vs)
  obtain d1 effs1 where o: "preempt_one now w v (d, effs) = (d1, effs1)" by fastforce
  have "\<exists>job1. map_of (dm_jobs d1) k = Some job1 \<and> jb_out job1 = jb_out job \<and> jb_ID job1 = jb_ID job"
    using preempt_keeps_out [of now w v d effs k] o Cons.prems by auto
  then show ?case using Cons.IH [of d1 _ effs1] o by fastforce
qed simp

lemma preempt_all_hook: "dm_hook (fst (fold (preempt_one now w) vs (d, effs))) = dm_hook d"
proof (induction vs arbitrary: d effs)
  case (Cons v vs)
  obtain d1 effs1 where o: "preempt_one now w v (d, effs) = (d1, effs1)" by fastforce
  then have "dm_hook d1 = dm_hook d" by (auto simp: preempt_one_def pauseLocked_def split: option.splits if_splits)
  then show ?case using Cons.IH [of d1 effs1] o by simp
qed simp

text \<open>
  The hook that hands a client's stream to its job is taken by whichever submission comes next. When another client's
  submission is served between \<^verbatim>\<open>SubmitStreaming\<close>'s first and second critical section, that client's job writes to the
  stream of the first client, and the first client's own job is submitted without one.
\<close>

theorem stream_goes_to_another_job:
  assumes "Submit r jid now w lo (set_hook (Some h) d) = (d', Inr jid', effs)"
  shows "(\<exists>job. map_of (dm_jobs d') jid = Some job \<and> outWriter job = h) \<and> dm_hook d' = None"
proof -
  define r' where "r' = (if f64_le (sr_Share r) (Fin 0) then r\<lparr>sr_Share := Fin 1\<rparr> else r)"
  let ?d = "set_hook (Some h) d"
  from assms obtain s' dec where ad: "Admit (request_of jid r') (dm_sched ?d) = (s', Inr dec)" and c: "sr_Command r \<noteq> []"
    by (auto simp: Submit_def Let_def r'_def [symmetric] split: if_splits sum.splits prod.splits)
  have hk: "dm_hook ?d = Some h" by (simp add: set_hook_def)
  let ?job = "new_job jid r' (Some h)"
  let ?d1 = "?d\<lparr>dm_sched := s', dm_jobs := AList.update jid ?job (dm_jobs ?d), dm_hook := None\<rparr>"
  obtain d2 effs2 where f: "fold (preempt_one now w) (d_Preempt dec) (?d1, []) = (d2, effs2)" by fastforce
  have h2: "dm_hook d2 = None" using preempt_all_hook [of now w "d_Preempt dec" ?d1 "[]"] f by simp
  have "map_of (dm_jobs ?d1) jid = Some ?job" by (simp add: AList.update_conv')
  then obtain job2 where j2: "map_of (dm_jobs d2) jid = Some job2" "jb_out job2 = Some h"
    using preempt_all_out [of ?d1 jid ?job now w "d_Preempt dec" "[]"] f by (auto simp: new_job_def)
  have e: "Submit r jid now w lo ?d = (if d_Queued dec then (set_state jid ''queued'' d2, Inr jid, effs2)
      else (case d_Placement dec of None \<Rightarrow> (d2, Inr jid, effs2)
        | Some pl \<Rightarrow> (case startLocked ?job pl lo now d2 of (d3, ok, eff) \<Rightarrow> if ok then (d3, Inr jid, effs2 @ eff)
            else (d3\<lparr>dm_sched := fst (Release jid (dm_sched d3)), dm_jobs := AList.delete jid (dm_jobs d3)\<rparr>, Inl LaunchFailed, effs2 @ eff))))"
    using c ad f unfolding Submit_def Let_def r'_def [symmetric] hk by simp
  have st: "map_of (dm_jobs d3) jid = Some (?job\<lparr>jb_proc := Some p, jb_State := ''running'', jb_Placement := Some pl, jb_Started := t\<rparr>) \<and> dm_hook d3 = None"
    if "startLocked ?job pl (Some (p, t)) now d2 = (d3, ok, eff)" for d3 ok eff pl p t
    using that h2 by (auto simp: startLocked_def Let_def AList.update_conv' new_job_def)
  show ?thesis
    using assms [unfolded e] j2 h2 st
    by (cases lo) (auto simp: set_state_def outWriter_def AList.update_conv' new_job_def startLocked_def Let_def split: if_splits option.splits prod.splits)
qed

theorem stream_goes_to_another_job_witness:
  "outWriter ((demo_rec ''a'' [0] 1 10)\<lparr>jb_out := Some 9\<rparr>) = 9 \<and>
   (\<exists>job. map_of (dm_jobs (fst (Submit (demo_sub 0) ''a'' 10 True (Some (1, 10)) (set_hook (Some 9) demo_daemon)))) ''a'' = Some job \<and> outWriter job = 9)"
proof -
  have "\<exists>d' effs. Submit (demo_sub 0) ''a'' 10 True (Some (1, 10)) (set_hook (Some 9) demo_daemon) = (d', Inr ''a'', effs)"
    by (simp add: Submit_def Let_def demo_request demo_share_pos startLocked_def set_hook_def demo_daemon_sched demo_first)
  then obtain d' effs where s: "Submit (demo_sub 0) ''a'' 10 True (Some (1, 10)) (set_hook (Some 9) demo_daemon) = (d', Inr ''a'', effs)" by blast
  show ?thesis using stream_goes_to_another_job [OF s] s by (simp add: outWriter_def)
qed

end
