(* ===== verification/Daemon_Lifecycle.thy ===== *)
theory Daemon_Lifecycle
  imports Daemon_Properties
begin

text \<open>
  The states of a job. \<^verbatim>\<open>daemon.Job\<close> keeps its state as a string, one of four, beside a process, a placement and an exit code that are set or nil; this theory shows which combinations occur, and that
  an ended job stays as it is.
\<close>

subsection \<open>Well-formed jobs\<close>

definition job_typed :: "string \<Rightarrow> Job \<Rightarrow> bool" where
  "job_typed k job \<longleftrightarrow> jb_ID job = k \<and>
     (jb_State job = ''queued'' \<and> jb_proc job = None \<and> jb_Placement job = None \<and> jb_ExitCode job = None \<or>
      jb_State job = ''running'' \<and> jb_proc job \<noteq> None \<and> jb_Placement job \<noteq> None \<and> jb_ExitCode job = None \<or>
      jb_State job = ''paused'' \<and> jb_proc job \<noteq> None \<and> jb_Placement job \<noteq> None \<and> jb_ExitCode job = None \<or>
      jb_State job = ''exited'' \<and> jb_proc job = None \<and> jb_ExitCode job \<noteq> None \<and> jb_done job = None)"

text \<open>All jobs but those with an id of \<open>B\<close>.\<close>

definition jobs_typed_but :: "string set \<Rightarrow> Daemon \<Rightarrow> bool" where
  "jobs_typed_but B d \<longleftrightarrow> (\<forall>k job. k \<notin> B \<and> map_of (dm_jobs d) k = Some job \<longrightarrow> job_typed k job)"

definition jobs_typed :: "Daemon \<Rightarrow> bool" where
  "jobs_typed d = jobs_typed_but {} d"

lemma jobs_typed_update:
  "jobs_typed_but B d \<Longrightarrow> k \<in> B \<or> job_typed k job \<Longrightarrow> jobs_typed_but B (d\<lparr>dm_jobs := AList.update k job (dm_jobs d)\<rparr>)"
  by (auto simp: jobs_typed_but_def AList.update_conv')

lemma jobs_typed_cong: "dm_jobs d' = dm_jobs d \<Longrightarrow> jobs_typed_but B d' = jobs_typed_but B d"
  by (simp add: jobs_typed_but_def)

lemma jobs_typed_settle:
  "jobs_typed_but (insert k B) d \<Longrightarrow> job_typed k job \<Longrightarrow> jobs_typed_but B (d\<lparr>dm_jobs := AList.update k job (dm_jobs d)\<rparr>)"
  by (auto simp: jobs_typed_but_def AList.update_conv')

lemma jobs_typed_delete: "jobs_typed_but (insert k B) d \<Longrightarrow> jobs_typed_but B (d\<lparr>dm_jobs := AList.delete k (dm_jobs d)\<rparr>)"
  by (auto simp: jobs_typed_but_def AList.delete_conv' split: if_splits)

subsection \<open>The operations keep them\<close>

lemma pauseLocked_jobs: "dm_jobs (fst (pauseLocked job now w d)) = dm_jobs d"
  by (simp add: pauseLocked_def split: option.split)

lemma preempt_one_typed:
  assumes "jobs_typed_but B d"
  shows "jobs_typed_but B (fst (preempt_one now w victim (d, effs)))"
proof (cases "map_of (dm_jobs d) victim")
  case (Some v)
  obtain d' eff where p: "pauseLocked v now w d = (d', eff)" by fastforce
  have j: "dm_jobs d' = dm_jobs d" using pauseLocked_jobs [of v now w d] p by simp
  have "victim \<in> B \<or> job_typed victim (v\<lparr>jb_State := ''paused''\<rparr>)" if "jb_proc v \<noteq> None"
  proof (cases "victim \<in> B")
    case False
    then have "job_typed victim v" using assms Some by (auto simp: jobs_typed_but_def)
    then show ?thesis using that by (auto simp: job_typed_def)
  qed simp
  then have "jobs_typed_but B (d'\<lparr>dm_jobs := AList.update victim (v\<lparr>jb_State := ''paused''\<rparr>) (dm_jobs d')\<rparr>)" if "jb_proc v \<noteq> None"
    using jobs_typed_update [of B d'] that assms jobs_typed_cong [OF j] by blast
  then show ?thesis using assms Some p by (auto simp: preempt_one_def jobs_typed_but_def)
qed (simp add: preempt_one_def assms)

lemma preempt_one_spares:
  "map_of (dm_jobs d) j = Some job \<Longrightarrow> jb_proc job = None \<Longrightarrow> map_of (dm_jobs (fst (preempt_one now w victim (d, effs)))) j = Some job"
  using pauseLocked_jobs [of "the (map_of (dm_jobs d) victim)" now w d]
  by (auto simp: preempt_one_def AList.update_conv' split: option.splits prod.splits)

lemma preempt_all_typed:
  assumes "jobs_typed_but B d" and "map_of (dm_jobs d) j = Some job" and "jb_proc job = None"
  shows "jobs_typed_but B (fst (fold (preempt_one now w) vs (d, effs))) \<and> map_of (dm_jobs (fst (fold (preempt_one now w) vs (d, effs)))) j = Some job"
  using assms
proof (induction vs arbitrary: d effs)
  case (Cons v vs)
  obtain d' effs' where p: "preempt_one now w v (d, effs) = (d', effs')" by fastforce
  then have "jobs_typed_but B d'" "map_of (dm_jobs d') j = Some job"
    using preempt_one_typed [OF Cons.prems(1), of now w v effs] preempt_one_spares [OF Cons.prems(2,3), of now w v effs] by simp_all
  then show ?case using Cons.IH Cons.prems(3) p by simp
qed simp

lemma startLocked_typed:
  assumes "jobs_typed_but (insert (jb_ID job) B) d" and "jb_ExitCode job = None" and "startLocked job pl (Some lo) now d = (d', ok, eff)"
  shows "jobs_typed_but B d'"
proof -
  obtain proc t where lo: "lo = (proc, t)" by fastforce
  let ?job = "job\<lparr>jb_proc := Some proc, jb_State := ''running'', jb_Placement := Some pl, jb_Started := t\<rparr>"
  have "job_typed (jb_ID job) ?job" using assms(2) by (simp add: job_typed_def)
  from jobs_typed_settle [OF assms(1) this] show ?thesis
    using assms(3) by (auto simp: startLocked_def lo jobs_typed_but_def)
qed

lemma startLocked_failed: "startLocked job pl None now d = (d, False, [Launch (jb_ID job) (jb_Command job) (job_env d (pl_Slots pl))])"
  by (simp add: startLocked_def)

lemma Admit_decides: "Admit r s = (s', Inr dec) \<Longrightarrow> d_Queued dec \<or> d_Placement dec \<noteq> None"
  by (auto simp: Admit_def Let_def split: option.splits if_splits sum.splits)

text \<open>\<^verbatim>\<open>Submit\<close> refuses and leaves the jobs alone, or it admits: then the new job is there, the pushed off are paused, and the job waits, starts, or is dropped again.\<close>

definition submit_end :: "string \<Rightarrow> Job \<Rightarrow> Decision \<Rightarrow> (nat \<times> int) option \<Rightarrow> int \<Rightarrow> Daemon \<Rightarrow> Daemon" where
  "submit_end jid job dec lo now d2 =
     (if d_Queued dec then set_state jid ''queued'' d2
      else case d_Placement dec of None \<Rightarrow> d2
        | Some pl \<Rightarrow> (case startLocked job pl lo now d2 of (d3, ok, _) \<Rightarrow>
            if ok then d3 else d3\<lparr>dm_sched := fst (Release jid (dm_sched d3)), dm_jobs := AList.delete jid (dm_jobs d3)\<rparr>))"

lemma Submit_cases:
  obtains (refused) "dm_jobs (fst (Submit r0 jid now w lo d)) = dm_jobs d"
  | (admitted) r s' dec d2 effs where "Admit (request_of jid r) (dm_sched d) = (s', Inr dec)"
      "fold (preempt_one now w) (d_Preempt dec) (d\<lparr>dm_sched := s', dm_jobs := AList.update jid (new_job jid r (dm_hook d)) (dm_jobs d), dm_hook := None\<rparr>, []) = (d2, effs)"
      "fst (Submit r0 jid now w lo d) = submit_end jid (new_job jid r (dm_hook d)) dec lo now d2"
proof (cases "sr_Command r0 = []")
  case True
  then show thesis using refused by (simp add: Submit_def)
next
  case False
  define r where "r = (if f64_le (sr_Share r0) (Fin 0) then r0\<lparr>sr_Share := Fin 1\<rparr> else r0)"
  obtain s' x where ad: "Admit (request_of jid r) (dm_sched d) = (s', x)" by fastforce
  show thesis
  proof (cases x)
    case (Inl e)
    then show thesis using False refused ad by (simp add: Submit_def Let_def r_def [symmetric])
  next
    case (Inr dec)
    obtain d2 effs where p: "fold (preempt_one now w) (d_Preempt dec)
        (d\<lparr>dm_sched := s', dm_jobs := AList.update jid (new_job jid r (dm_hook d)) (dm_jobs d), dm_hook := None\<rparr>, []) = (d2, effs)" by fastforce
    have "fst (Submit r0 jid now w lo d) = submit_end jid (new_job jid r (dm_hook d)) dec lo now d2"
      using False ad Inr p by (simp add: Submit_def submit_end_def Let_def r_def [symmetric] split: option.split prod.split)
    then show thesis using admitted ad Inr p by blast
  qed
qed

lemma new_job_fields: "jb_ID (new_job jid r h) = jid" "jb_proc (new_job jid r h) = None" "jb_ExitCode (new_job jid r h) = None" "jb_Placement (new_job jid r h) = None"
  by (simp_all add: new_job_def)

lemma Submit_typed:
  assumes "jobs_typed d"
  shows "jobs_typed (fst (Submit r0 jid now w lo d))"
proof (cases r0 jid now w lo d rule: Submit_cases)
  case refused
  then show ?thesis using assms by (simp add: jobs_typed_def jobs_typed_but_def)
next
  case (admitted r s' dec d2 effs)
  let ?job = "new_job jid r (dm_hook d)"
  let ?d1 = "d\<lparr>dm_sched := s', dm_jobs := AList.update jid ?job (dm_jobs d), dm_hook := None\<rparr>"
  have "jobs_typed_but {jid} ?d1" using assms by (auto simp: jobs_typed_def jobs_typed_but_def AList.update_conv')
  moreover have "map_of (dm_jobs ?d1) jid = Some ?job" by (simp add: AList.update_conv')
  ultimately have t: "jobs_typed_but {jid} d2" "map_of (dm_jobs d2) jid = Some ?job"
    using preempt_all_typed [of "{jid}" ?d1 jid ?job now w "d_Preempt dec" "[]"] new_job_fields(2) admitted(2) by simp_all
  show ?thesis
  proof (cases "d_Queued dec")
    case True
    have "job_typed jid (?job\<lparr>jb_State := ''queued''\<rparr>)" using new_job_fields by (simp add: job_typed_def)
    then show ?thesis using jobs_typed_settle [OF t(1)] True admitted(3) t(2) by (simp add: submit_end_def jobs_typed_def set_state_def)
  next
    case nq: False
    then obtain pl where pl: "d_Placement dec = Some pl" using Admit_decides [OF admitted(1)] by auto
    show ?thesis
    proof (cases lo)
      case None
      then show ?thesis using admitted(3) nq pl jobs_typed_delete [OF t(1)] by (simp add: submit_end_def startLocked_failed jobs_typed_def jobs_typed_but_def)
    next
      case (Some l)
      obtain d3 ok eff where s: "startLocked ?job pl (Some l) now d2 = (d3, ok, eff)" by (metis prod_cases3)
      then have "ok" by (auto simp: startLocked_def split: prod.splits)
      then show ?thesis using admitted(3) nq pl Some s startLocked_typed [of ?job "{}" d2 pl l now d3 ok eff] t(1) new_job_fields
        by (simp add: submit_end_def jobs_typed_def)
    qed
  qed
qed

lemma start_one_typed:
  assumes "jobs_typed d"
  shows "jobs_typed (fst (start_one lo now dec (d, effs)))"
proof (cases "d_Placement dec")
  case (Some pl)
  show ?thesis
  proof (cases "map_of (dm_jobs d) (pl_JobID pl)")
    case q: (Some q)
    then have ty: "job_typed (pl_JobID pl) q" using assms by (auto simp: jobs_typed_def jobs_typed_but_def)
    show ?thesis
    proof (cases "lo (pl_JobID pl)")
      case None
      then show ?thesis using Some q assms by (simp add: start_one_def startLocked_failed)
    next
      case (Some l)
      obtain d' ok eff where s: "startLocked q pl (Some l) now d = (d', ok, eff)" by (metis prod_cases3)
      have "jobs_typed_but (insert (jb_ID q) {}) d" using assms by (auto simp: jobs_typed_def jobs_typed_but_def)
      from startLocked_typed [OF this _ s] have "jobs_typed d'" if "jb_State q = ''queued'' \<or> jb_State q = ''paused''"
        using ty that by (auto simp: jobs_typed_def job_typed_def)
      then show ?thesis using \<open>d_Placement dec = Some pl\<close> q Some s assms by (simp add: start_one_def)
    qed
  qed (simp add: start_one_def Some assms)
qed (simp add: start_one_def assms)

lemma start_all_typed: "jobs_typed d \<Longrightarrow> jobs_typed (fst (fold (start_one lo now) decs (d, effs)))"
proof (induction decs arbitrary: d effs)
  case (Cons dec decs)
  obtain d' effs' where p: "start_one lo now dec (d, effs) = (d', effs')" by fastforce
  then have "jobs_typed d'" using start_one_typed [OF Cons.prems, of lo now dec effs] by simp
  then show ?case using Cons.IH p by simp
qed simp

lemma reap_typed: "jobs_typed d \<Longrightarrow> jobs_typed (fst (reap jid proc code now w lo d))"
proof (cases "map_of (dm_jobs d) jid")
  case (Some job)
  assume t: "jobs_typed d"
  let ?job = "job\<lparr>jb_State := ''exited'', jb_ExitCode := Some code, jb_done := None, jb_proc := None\<rparr>"
  have "job_typed jid ?job" using t Some by (auto simp: jobs_typed_def jobs_typed_but_def job_typed_def)
  then have "jobs_typed (d\<lparr>dm_jobs := AList.update jid ?job (dm_jobs d)\<rparr>)" using jobs_typed_update [of "{}" d jid ?job] t by (simp add: jobs_typed_def)
  then have "jobs_typed (d\<lparr>dm_jobs := AList.update jid ?job (dm_jobs d), dm_ledger := l, dm_sched := s\<rparr>)" for l s by (simp add: jobs_typed_def jobs_typed_but_def)
  then show ?thesis using Some t start_all_typed by (simp add: reap_def Let_def split: prod.split)
qed (simp add: reap_def)

lemma Stop_typed: "jobs_typed d \<Longrightarrow> jobs_typed (fst (Stop jid d))"
  using jobs_typed_delete [of jid "{}" d] by (auto simp: Stop_def jobs_typed_def jobs_typed_but_def split: option.split)

lemma Resize_typed:
  assumes "jobs_typed d"
  shows "jobs_typed (fst (Resize_job jid f m now w d))"
proof (cases "map_of (dm_jobs d) jid")
  case (Some job)
  then have "job_typed jid job" using assms by (auto simp: jobs_typed_def jobs_typed_but_def)
  then have "job_typed jid (job\<lparr>jb_Share := f, jb_Placement := Some pl\<rparr>)" if "jb_State job = ''running''" for pl
    using that by (auto simp: job_typed_def)
  then show ?thesis using Some assms
    by (auto simp: Resize_job_def jobs_typed_def jobs_typed_but_def AList.update_conv' split: sum.split prod.split)
qed (simp add: Resize_job_def assms)

lemma daemon_step_typed: "jobs_typed d \<Longrightarrow> daemon_guard l d \<Longrightarrow> jobs_typed (daemon_step l d)"
proof (cases l)
  case (DHook h)
  assume "jobs_typed d"
  then show ?thesis by (simp add: DHook set_hook_def jobs_typed_def jobs_typed_but_def)
qed (simp_all add: Submit_typed reap_typed Stop_typed Resize_typed)

interpretation typed: invariant_system daemon_step daemon_guard jobs_typed
  by unfold_locales (rule daemon_step_typed)


subsection \<open>An ended job stays as it is\<close>

lemma preempt_all_spares:
  "map_of (dm_jobs d) j = Some job \<Longrightarrow> jb_proc job = None \<Longrightarrow> map_of (dm_jobs (fst (fold (preempt_one now w) vs (d, effs)))) j = Some job"
proof (induction vs arbitrary: d effs)
  case (Cons v vs)
  obtain d' effs' where p: "preempt_one now w v (d, effs) = (d', effs')" by fastforce
  then show ?case using Cons preempt_one_spares [OF Cons.prems, of now w v effs] by simp
qed simp

lemma startLocked_spares: "k \<noteq> jb_ID job \<Longrightarrow> map_of (dm_jobs (fst (startLocked job pl lo now d))) k = map_of (dm_jobs d) k"
  by (simp add: startLocked_def Let_def AList.update_conv' split: option.split prod.split)

lemma submit_end_spares: "k \<noteq> jid \<Longrightarrow> jb_ID job = jid \<Longrightarrow> map_of (dm_jobs (submit_end jid job dec lo now d2)) k = map_of (dm_jobs d2) k"
  using startLocked_spares [of k job "the (d_Placement dec)" lo now d2]
  by (auto simp: submit_end_def set_state_def AList.update_conv' AList.delete_conv' split: option.split prod.split)

lemma Submit_spares:
  assumes "map_of (dm_jobs d) k = Some job" and "jb_proc job = None" and "jid \<notin> fst ` set (dm_jobs d)"
  shows "map_of (dm_jobs (fst (Submit r0 jid now w lo d))) k = Some job"
proof (cases r0 jid now w lo d rule: Submit_cases)
  case (admitted r s' dec d2 effs)
  have k: "k \<noteq> jid" using assms(1,3) by (metis dom_fst domI)
  then have "map_of (dm_jobs (d\<lparr>dm_sched := s', dm_jobs := AList.update jid (new_job jid r (dm_hook d)) (dm_jobs d), dm_hook := None\<rparr>)) k = Some job"
    using assms(1) by (simp add: AList.update_conv')
  from preempt_all_spares [OF this assms(2), of now w "d_Preempt dec" "[]"] have "map_of (dm_jobs d2) k = Some job" using admitted(2) by simp
  then show ?thesis using admitted(3) submit_end_spares [OF k new_job_fields(1)] by simp
qed (simp add: assms)

lemma start_one_spares:
  assumes "jobs_typed d" and "map_of (dm_jobs d) k = Some job" and "jb_State job = ''exited''"
  shows "map_of (dm_jobs (fst (start_one lo now dec (d, effs)))) k = Some job"
proof (cases "d_Placement dec")
  case (Some pl)
  show ?thesis
  proof (cases "map_of (dm_jobs d) (pl_JobID pl)")
    case q: (Some q)
    then have "jb_ID q = pl_JobID pl" using assms(1) by (auto simp: jobs_typed_def jobs_typed_but_def job_typed_def)
    then have "map_of (dm_jobs (fst (startLocked q pl l now d))) k = Some job" if "jb_State q \<noteq> ''exited''" for l
      using startLocked_spares [of k q pl l now d] assms(2,3) q that by (cases "k = pl_JobID pl") auto
    then show ?thesis using Some q assms(2) by (auto simp: start_one_def split_beta)
  qed (simp add: start_one_def Some assms)
qed (simp add: start_one_def assms)

lemma start_all_spares:
  "jobs_typed d \<Longrightarrow> map_of (dm_jobs d) k = Some job \<Longrightarrow> jb_State job = ''exited'' \<Longrightarrow> map_of (dm_jobs (fst (fold (start_one lo now) decs (d, effs)))) k = Some job"
proof (induction decs arbitrary: d effs)
  case (Cons dec decs)
  obtain d' effs' where p: "start_one lo now dec (d, effs) = (d', effs')" by fastforce
  then show ?case using Cons.IH [of d' effs'] start_one_typed [OF Cons.prems(1), of lo now dec effs] start_one_spares [OF Cons.prems, of lo now dec effs] Cons.prems by simp
qed simp


lemma exited_kept:
  assumes t: "jobs_typed d" and g: "daemon_guard l d" and j: "map_of (dm_jobs d) k = Some job" "jb_State job = ''exited''"
  shows "map_of (dm_jobs (daemon_step l d)) k = Some job"
proof -
  have ty: "job_typed k job" using t j(1) by (auto simp: jobs_typed_def jobs_typed_but_def)
  then have p: "jb_proc job = None" using j(2) by (auto simp: job_typed_def)
  show ?thesis
  proof (cases l)
    case (DSubmit r jid now w lo)
    then show ?thesis using Submit_spares [OF j(1) p] g by simp
  next
    case (DReap jid proc code now w lo)
    show ?thesis
    proof (cases "map_of (dm_jobs d) jid")
      case (Some x)
      show ?thesis
      proof (cases "jb_proc x = Some proc")
        case True
        then have k: "k \<noteq> jid" using j(1) p Some by auto
        let ?x = "x\<lparr>jb_State := ''exited'', jb_ExitCode := Some code, jb_done := None, jb_proc := None\<rparr>"
        have "job_typed jid ?x" using t Some by (auto simp: jobs_typed_def jobs_typed_but_def job_typed_def)
        then have "jobs_typed (d\<lparr>dm_jobs := AList.update jid ?x (dm_jobs d)\<rparr>)" using jobs_typed_update [of "{}" d jid ?x] t by (simp add: jobs_typed_def)
        then have "jobs_typed (d\<lparr>dm_jobs := AList.update jid ?x (dm_jobs d), dm_ledger := lg, dm_sched := s\<rparr>)" for lg s by (simp add: jobs_typed_def jobs_typed_but_def)
        moreover have "map_of (AList.update jid ?x (dm_jobs d)) k = Some job" using j(1) k by (simp add: AList.update_conv')
        ultimately show ?thesis using True Some j(2) start_all_spares by (simp add: DReap reap_def Let_def split: prod.split)
      qed (simp add: DReap reap_def Some j)
    qed (simp add: DReap reap_def j)
  next
    case (DStop jid)
    then show ?thesis using j by (cases "k = jid") (auto simp: Stop_def AList.delete_conv' split: option.split)
  next
    case (DResize jid f m now w)
    then show ?thesis using j by (cases "k = jid") (auto simp: Resize_job_def AList.update_conv' split: option.split sum.split prod.split)
  next
    case (DHook h)
    then show ?thesis using j by (simp add: set_hook_def)
  qed
qed

lemma exited_kept_run:
  "jobs_typed d \<Longrightarrow> guarded_ops daemon_step daemon_guard ops d \<Longrightarrow> map_of (dm_jobs d) k = Some job \<Longrightarrow> jb_State job = ''exited'' \<Longrightarrow>
   map_of (dm_jobs (run_ops daemon_step ops d)) k = Some job"
proof (induction ops arbitrary: d)
  case (Cons l ls)
  then have "daemon_guard l d" "guarded_ops daemon_step daemon_guard ls (daemon_step l d)" by simp_all
  then show ?case using Cons exited_kept [of d l k job] daemon_step_typed [of d l] by simp
qed simp

text \<open>
  C18: after any sequence of operations (ids are new, memory is not negative) every job is in one of the four states its type names, with what belongs to it: a queued job has neither process nor placement, a running or paused one has
  both, and exactly an exited job has an exit code, and no process. Once a job is exited nothing changes it any more, so an exit code that was read stays true.
\<close>

theorem jobs_keep_to_their_states:
  assumes "guarded_ops daemon_step daemon_guard (xs @ ys) (New_daemon sdir seats found lines)"
  defines "d \<equiv> run_ops daemon_step xs (New_daemon sdir seats found lines)"
  shows "(\<forall>k job. map_of (dm_jobs d) k = Some job \<longrightarrow> job_typed k job) \<and>
    (\<forall>k job. map_of (dm_jobs d) k = Some job \<and> jb_State job = ''exited'' \<longrightarrow> map_of (dm_jobs (run_ops daemon_step ys d)) k = Some job)"
proof -
  have "jobs_typed (New_daemon sdir seats found lines)" by (simp add: jobs_typed_def jobs_typed_but_def New_daemon_def Let_def)
  then have t: "jobs_typed d" unfolding d_def using typed.run_inv_prefix assms(1) by blast
  have "guarded_ops step ok (xs @ ys) s \<Longrightarrow> guarded_ops step ok ys (run_ops step xs s)" for step ok and s :: Daemon and xs ys :: "daemon_op list"
    by (induction xs arbitrary: s) simp_all
  then have "guarded_ops daemon_step daemon_guard ys d" unfolding d_def using assms(1) by blast
  then show ?thesis using t exited_kept_run unfolding jobs_typed_def jobs_typed_but_def by blast
qed

theorem jobs_keep_to_their_states_witness:
  "map_of (dm_jobs (run_ops daemon_step demo_dops demo_daemon)) ''a'' = Some (demo_rec ''a'' [0] 1 10) \<and> job_typed ''a'' (demo_rec ''a'' [0] 1 10)"
proof -
  have "guarded_ops daemon_step daemon_guard (demo_dops @ []) (New_daemon ''/tmp'' 2 demo_found [])" using demo_drun by (simp add: demo_daemon_def)
  from jobs_keep_to_their_states [OF this] show ?thesis using demo_drun by (auto simp: demo_daemon_def)
qed

end
