(* ===== verification/Session.thy ===== *)
theory Session
  imports Gmux_Prelude Go_Paths
begin

text \<open>
  Package \<^verbatim>\<open>internal/session\<close>: the store of content-addressed blobs and the workspaces of the sessions. The part of the file system the store owns is
  its state: the blobs by name, and per session the regular files of its workspace by clean relative path and the record of what the
  last \<^verbatim>\<open>Apply\<close> wrote. \<open>sha256\<close> is the hex encoding of the SHA-256 sum, a parameter. What the disk answers is an argument: a write of a file
  gives its modification time or fails. Directories, symbolic links and the tar and gzip formats are not modelled.
\<close>

subsection \<open>Types\<close>

record File =
  fl_Path :: string
  fl_SHA :: string
  fl_Size :: int
  fl_X :: bool

record wsfile =
  wf_Data :: string
  wf_X :: bool
  wf_Mtime :: int

record appliedFile =
  ap_SHA :: string
  ap_Size :: int
  ap_Mtime :: int

record session_dir =
  sd_ws :: "(string, wsfile) gomap"
  sd_applied :: "(string, appliedFile) gomap"

record Store =
  st_root :: string
  st_blobs :: "(string, string) gomap"
  st_sessions :: "(string, session_dir) gomap"
  st_seen :: "(string, int) gomap"

datatype serror = BadSHA | BlobMismatch | DiskError | BadSession string | UnsafePath string | MissingBlob string | UnsafeGlob string

definition Open_store :: "string \<Rightarrow> Store" where
  "Open_store base = \<lparr>st_root = base, st_blobs = [], st_sessions = [], st_seen = []\<rparr>"

subsection \<open>Names\<close>

definition validSHA :: "string \<Rightarrow> bool" where
  "validSHA s \<longleftrightarrow> length s = 64 \<and> list_all (\<lambda>c. (CHR ''0'' \<le> c \<and> c \<le> CHR ''9'') \<or> (CHR ''a'' \<le> c \<and> c \<le> CHR ''f'')) s"

definition safeID :: "string \<Rightarrow> bool" where
  "safeID sid \<longleftrightarrow> sid \<noteq> [] \<and> list_all (\<lambda>c. c \<noteq> CHR ''/'' \<and> c \<noteq> char_of (92 :: nat) \<and> c \<noteq> CHR ''.'') sid"

definition safeRel :: "string \<Rightarrow> string option" where
  "safeRel rel = (if rel = [] \<or> HasPrefix rel ''/'' \<or> Contains rel ''..'' then None else Some rel)"

definition ws_path :: "string \<Rightarrow> string \<Rightarrow> string" where
  "ws_path base sid = Join [base, ''sessions'', sid, ''ws'']"

definition blobPath :: "string \<Rightarrow> string \<Rightarrow> string" where
  "blobPath base sha = Join [base, ''blobs'', sha]"

definition session_of :: "Store \<Rightarrow> string \<Rightarrow> session_dir" where
  "session_of st sid = (case map_of (st_sessions st) sid of Some s \<Rightarrow> s | None \<Rightarrow> \<lparr>sd_ws = [], sd_applied = []\<rparr>)"

definition Workspace :: "string \<Rightarrow> bool \<Rightarrow> int \<Rightarrow> bool \<Rightarrow> Store \<Rightarrow> Store \<times> (serror + string)" where
  "Workspace sid create now disk st =
     (if \<not> safeID sid then (st, Inl (BadSession sid))
      else if \<not> create then (st, Inr (ws_path (st_root st) sid))
      else if \<not> disk then (st, Inl DiskError)
      else (st\<lparr>st_sessions := AList.update sid (session_of st sid) (st_sessions st), st_seen := AList.update sid now (st_seen st)\<rparr>,
            Inr (ws_path (st_root st) sid)))"

subsection \<open>Blobs\<close>

definition HasBlob :: "Store \<Rightarrow> string \<Rightarrow> bool" where
  "HasBlob st sha \<longleftrightarrow> validSHA sha \<and> map_of (st_blobs st) sha \<noteq> None"

definition Missing :: "File list \<Rightarrow> Store \<Rightarrow> string list" where
  "Missing files st = sort (remdups (filter (\<lambda>sha. \<not> HasBlob st sha) (filter validSHA (map fl_SHA files))))"

definition PutBlob :: "(string \<Rightarrow> string) \<Rightarrow> string \<Rightarrow> string \<Rightarrow> bool \<Rightarrow> Store \<Rightarrow> Store \<times> serror option" where
  "PutBlob sha256 sha data disk st =
     (if \<not> validSHA sha then (st, Some BadSHA)
      else if sha256 data \<noteq> sha then (st, Some BlobMismatch)
      else if map_of (st_blobs st) sha \<noteq> None then (st, None)
      else if \<not> disk then (st, Some DiskError)
      else (st\<lparr>st_blobs := AList.update sha data (st_blobs st)\<rparr>, None))"

text \<open>The upload delivers \<open>data\<close> and then ends, or fails (\<open>whole\<close>); the result is the number of bytes read.\<close>

definition PutBlobFrom :: "(string \<Rightarrow> string) \<Rightarrow> string \<Rightarrow> string \<Rightarrow> bool \<Rightarrow> bool \<Rightarrow> Store \<Rightarrow> Store \<times> (serror + nat)" where
  "PutBlobFrom sha256 sha data whole disk st =
     (if \<not> validSHA sha then (st, Inl BadSHA)
      else if \<not> disk \<or> \<not> whole then (st, Inl DiskError)
      else if sha256 data \<noteq> sha then (st, Inl BlobMismatch)
      else (st\<lparr>st_blobs := AList.update sha data (st_blobs st)\<rparr>, Inr (length data)))"

subsection \<open>Workspaces\<close>

text \<open>What writing one file does: it gets a modification time, its directory cannot be made, or the copy breaks and leaves something.\<close>

datatype wres = Written int | NoDirectory | Broken "wsfile option"

definition copied :: "string \<Rightarrow> bool \<Rightarrow> int \<Rightarrow> wsfile" where
  "copied data x mt = \<lparr>wf_Data = data, wf_X = x, wf_Mtime = mt\<rparr>"

definition unchanged :: "(string, appliedFile) gomap \<Rightarrow> (string, wsfile) gomap \<Rightarrow> File \<Rightarrow> (appliedFile \<times> wsfile) option" where
  "unchanged applied ws f =
     (case map_of applied (fl_Path f) of None \<Rightarrow> None
      | Some prev \<Rightarrow>
          if ap_SHA prev \<noteq> fl_SHA f then None
          else case map_of ws (Clean (fl_Path f)) of None \<Rightarrow> None
            | Some fi \<Rightarrow> if int (length (wf_Data fi)) = ap_Size prev \<and> wf_Mtime fi = ap_Mtime prev then Some (prev, fi) else None)"

text \<open>The loop of \<^verbatim>\<open>Apply\<close>: the workspace, the next record and the wanted paths so far; it stops at the first error.\<close>

type_synonym apply_state = "(string, wsfile) gomap \<times> (string, appliedFile) gomap \<times> string list"

fun apply_files :: "(string \<Rightarrow> wres) \<Rightarrow> Store \<Rightarrow> (string, appliedFile) gomap \<Rightarrow> File list \<Rightarrow> apply_state \<Rightarrow> apply_state \<times> serror option" where
  "apply_files wr st applied [] a = (a, None)"
| "apply_files wr st applied (f # fs) (ws, next, wanted) =
     (case safeRel (fl_Path f) of
        None \<Rightarrow> ((ws, next, wanted), Some (UnsafePath (fl_Path f)))
      | Some rel \<Rightarrow>
          if \<not> HasBlob st (fl_SHA f) then ((ws, next, wanted), Some (MissingBlob rel))
          else let wanted' = rel # wanted; dst = Clean rel
               in case unchanged applied ws f of
                   Some (prev, fi) \<Rightarrow>
                     apply_files wr st applied fs (AList.update dst (fi\<lparr>wf_X := fl_X f\<rparr>) ws, AList.update rel prev next, wanted')
                 | None \<Rightarrow>
                     (case wr rel of
                        NoDirectory \<Rightarrow> ((ws, next, wanted'), Some DiskError)
                      | Broken left \<Rightarrow>
                          ((case left of Some w \<Rightarrow> AList.update dst w ws | None \<Rightarrow> AList.delete dst ws, next, wanted'), Some DiskError)
                      | Written mt \<Rightarrow>
                          let w = copied (the (map_of (st_blobs st) (fl_SHA f))) (fl_X f) mt
                          in apply_files wr st applied fs
                               (AList.update dst w ws,
                                AList.update rel \<lparr>ap_SHA = fl_SHA f, ap_Size = int (length (wf_Data w)), ap_Mtime = mt\<rparr> next, wanted')))"

text \<open>What becomes of \<^verbatim>\<open>applied.json\<close>: a failed write is ignored, and leaves the old record or one that cannot be read.\<close>

datatype rec_res = RecWritten | RecKept | RecBroken

definition prune_ws :: "bool \<Rightarrow> string list \<Rightarrow> (string, wsfile) gomap \<Rightarrow> (string, wsfile) gomap" where
  "prune_ws prune wanted ws = (if prune then filter (\<lambda>e. fst e \<in> set wanted) ws else ws)"

definition Apply :: "string \<Rightarrow> File list \<Rightarrow> bool \<Rightarrow> int \<Rightarrow> bool \<Rightarrow> (string \<Rightarrow> wres) \<Rightarrow> rec_res \<Rightarrow> Store \<Rightarrow> Store \<times> serror option" where
  "Apply sid files prune now disk wr rc st =
     (case Workspace sid True now disk st of
        (st1, Inl e) \<Rightarrow> (st1, Some e)
      | (st1, Inr _) \<Rightarrow>
          let s = session_of st1 sid
          in case apply_files wr st1 (sd_applied s) files (sd_ws s, [], []) of
              ((ws, next, wanted), Some e) \<Rightarrow> (st1\<lparr>st_sessions := AList.update sid (s\<lparr>sd_ws := ws\<rparr>) (st_sessions st1)\<rparr>, Some e)
            | ((ws, next, wanted), None) \<Rightarrow>
                (st1\<lparr>st_sessions := AList.update sid
                      \<lparr>sd_ws = prune_ws prune wanted ws,
                       sd_applied = (case rc of RecWritten \<Rightarrow> next | RecKept \<Rightarrow> sd_applied s | RecBroken \<Rightarrow> [])\<rparr> (st_sessions st1),
                     st_seen := AList.update sid now (st_seen st1)\<rparr>, None))"

text \<open>\<open>glob\<close> gives the workspace paths a pattern matches (\<^verbatim>\<open>filepath.Glob\<close>); the archive is the list of its entries.\<close>

definition Fetch :: "(string \<Rightarrow> string list) \<Rightarrow> string \<Rightarrow> string list \<Rightarrow> Store \<Rightarrow> serror + (string \<times> string) list" where
  "Fetch glob sid globs st =
     (if \<not> safeID sid then Inl (BadSession sid)
      else case find (\<lambda>g. Contains g ''..'' \<or> HasPrefix g ''/'') globs of
          Some g \<Rightarrow> Inl (UnsafeGlob g)
        | None \<Rightarrow>
            let ws = sd_ws (session_of st sid);
                paths = sort (remdups (filter (\<lambda>p. map_of ws p \<noteq> None) (concat (map glob globs))))
            in Inr (map (\<lambda>p. (p, wf_Data (the (map_of ws p)))) paths))"

definition Delete_session :: "string \<Rightarrow> Store \<Rightarrow> Store \<times> serror option" where
  "Delete_session sid st =
     (if \<not> safeID sid then (st, Some (BadSession sid))
      else (st\<lparr>st_seen := AList.delete sid (st_seen st), st_sessions := AList.delete sid (st_sessions st)\<rparr>, None))"

end
