(* ===== verification/Session_Properties.thy ===== *)
theory Session_Properties
  imports Session
begin

text \<open>
  What the session store promises. Every blob is stored under the sum of its bytes, whatever clients upload. \<^verbatim>\<open>Apply\<close> with pruning refines an
  abstract assignment: the workspace becomes the manifest, as a map from paths to sum and execute bit. And the paths it builds from
  what a client sends stay inside the session's directory.
\<close>

subsection \<open>Blobs are stored under their sum\<close>

definition blobs_ok :: "(string \<Rightarrow> string) \<Rightarrow> Store \<Rightarrow> bool" where
  "blobs_ok sha256 st \<longleftrightarrow> (\<forall>k d. map_of (st_blobs st) k = Some d \<longrightarrow> validSHA k \<and> sha256 d = k)"

text \<open>The operations on a store; \<open>StJob\<close> is a job doing what it likes in its own workspace.\<close>

datatype store_op =
    StCreate string int bool
  | StPut string string bool
  | StUpload string string bool bool
  | StApply string "File list" bool int bool "string \<Rightarrow> wres" rec_res
  | StDelete string
  | StJob string "(string, wsfile) gomap"

fun store_step :: "(string \<Rightarrow> string) \<Rightarrow> store_op \<Rightarrow> Store \<Rightarrow> Store" where
  "store_step sha256 (StCreate sid now disk) st = fst (Workspace sid True now disk st)"
| "store_step sha256 (StPut sha data disk) st = fst (PutBlob sha256 sha data disk st)"
| "store_step sha256 (StUpload sha data whole disk) st = fst (PutBlobFrom sha256 sha data whole disk st)"
| "store_step sha256 (StApply sid files prune now disk wr rc) st = fst (Apply sid files prune now disk wr rc st)"
| "store_step sha256 (StDelete sid) st = fst (Delete_session sid st)"
| "store_step sha256 (StJob sid ws) st = st\<lparr>st_sessions := AList.update sid ((session_of st sid)\<lparr>sd_ws := ws\<rparr>) (st_sessions st)\<rparr>"

lemma Workspace_blobs [simp]: "st_blobs (fst (Workspace sid create now disk st)) = st_blobs st"
  by (simp add: Workspace_def)

lemma Apply_blobs [simp]: "st_blobs (fst (Apply sid files prune now disk wr rc st)) = st_blobs st"
proof -
  obtain st1 r where w: "Workspace sid True now disk st = (st1, r)" by fastforce
  then have "st_blobs st1 = st_blobs st" using Workspace_blobs [of sid True now disk st] by simp
  then show ?thesis using w by (auto simp: Apply_def Let_def split: sum.split prod.split option.split)
qed

lemma blobs_put: "blobs_ok sha256 st \<Longrightarrow> validSHA sha \<Longrightarrow> sha256 data = sha \<Longrightarrow> blobs_ok sha256 (st\<lparr>st_blobs := AList.update sha data (st_blobs st)\<rparr>)"
  by (auto simp: blobs_ok_def AList.update_conv')

interpretation store: invariant_system "store_step sha256" "\<lambda>_ _. True" "blobs_ok sha256" for sha256
proof
  fix s and l :: store_op
  assume ok: "blobs_ok sha256 s"
  then show "blobs_ok sha256 (store_step sha256 l s)"
    by (cases l) (auto simp: PutBlob_def PutBlobFrom_def blobs_put, auto simp: blobs_ok_def Delete_session_def)
qed

lemma no_guard: "guarded_ops step (\<lambda>_ _. True) ops s"
  by (induction ops arbitrary: s) auto

text \<open>
  After any sequence of uploads (whole, broken, with the wrong name), applications, deletions and jobs writing to their
  workspaces, every blob of the store hashes to the name it is stored under, and that name is a well-formed sum.
\<close>

theorem blobs_content_addressed:
  "blobs_ok sha256 (run_ops (store_step sha256) ops (Open_store dir))"
  by (rule store.run_inv) (simp_all add: blobs_ok_def Open_store_def no_guard)

subsection \<open>Apply makes the manifest\<close>

text \<open>
  A file that still has the size and time of the record was not changed: what \<^verbatim>\<open>Apply\<close> relies on when it skips a file.
\<close>

definition stamps_ok :: "(string \<Rightarrow> string) \<Rightarrow> session_dir \<Rightarrow> bool" where
  "stamps_ok sha256 s \<longleftrightarrow> (\<forall>p a w. map_of (sd_applied s) p = Some a \<and> map_of (sd_ws s) p = Some w \<and>
     int (length (wf_Data w)) = ap_Size a \<and> wf_Mtime w = ap_Mtime a \<longrightarrow> sha256 (wf_Data w) = ap_SHA a)"

definition ws_view :: "(string \<Rightarrow> string) \<Rightarrow> session_dir \<Rightarrow> string \<rightharpoonup> string \<times> bool" where
  "ws_view sha256 s p = map_option (\<lambda>w. (sha256 (wf_Data w), wf_X w)) (map_of (sd_ws s) p)"

definition manifest_view :: "File list \<Rightarrow> string \<rightharpoonup> string \<times> bool" where
  "manifest_view files = map_of (map (\<lambda>f. (fl_Path f, fl_SHA f, fl_X f)) files)"

text \<open>One entry of the manifest is in place: the file and the record of it.\<close>

definition in_place :: "(string \<Rightarrow> string) \<Rightarrow> (string, wsfile) gomap \<Rightarrow> (string, appliedFile) gomap \<Rightarrow> File \<Rightarrow> bool" where
  "in_place sha256 ws next f \<longleftrightarrow> (\<exists>w a. map_of ws (fl_Path f) = Some w \<and> sha256 (wf_Data w) = fl_SHA f \<and> wf_X w = fl_X f \<and>
     map_of next (fl_Path f) = Some a \<and> ap_SHA a = fl_SHA f)"

lemma unchanged_sum:
  assumes "unchanged applied ws f = Some (prev, fi)" and "Clean (fl_Path f) = fl_Path f"
    and "\<forall>a w. map_of applied (fl_Path f) = Some a \<and> map_of ws (fl_Path f) = Some w \<and> int (length (wf_Data w)) = ap_Size a \<and>
       wf_Mtime w = ap_Mtime a \<longrightarrow> sha256 (wf_Data w) = ap_SHA a"
  shows "sha256 (wf_Data fi) = fl_SHA f \<and> ap_SHA prev = fl_SHA f"
  using assms by (auto simp: unchanged_def split: option.splits if_splits)

lemma apply_files_spec:
  assumes "apply_files wr st applied files (ws, next, wanted) = ((ws', next', wanted'), None)"
    and "blobs_ok sha256 st" and "distinct (map fl_Path files)" and "\<forall>f \<in> set files. Clean (fl_Path f) = fl_Path f"
    and "\<forall>p \<in> fl_Path ` set files. \<forall>a w. map_of applied p = Some a \<and> map_of ws p = Some w \<and> int (length (wf_Data w)) = ap_Size a \<and>
       wf_Mtime w = ap_Mtime a \<longrightarrow> sha256 (wf_Data w) = ap_SHA a"
  shows "set wanted' = set wanted \<union> fl_Path ` set files \<and> (\<forall>f \<in> set files. in_place sha256 ws' next' f) \<and>
    (\<forall>p. p \<notin> fl_Path ` set files \<longrightarrow> map_of ws' p = map_of ws p \<and> map_of next' p = map_of next p)"
  using assms
proof (induction files arbitrary: ws "next" wanted)
  case (Cons f fs)
  let ?p = "fl_Path f"
  have rel: "safeRel ?p = Some ?p" and blob: "HasBlob st (fl_SHA f)" and cl: "Clean ?p = ?p"
    using Cons.prems(1,4) by (auto simp: safeRel_def split: if_splits)
  have new: "?p \<notin> fl_Path ` set fs" and new': "\<forall>g \<in> set fs. fl_Path g \<noteq> ?p" using Cons.prems(3) by (auto intro: rev_image_eqI)
  obtain w a where step: "apply_files wr st applied fs (AList.update ?p w ws, AList.update ?p a next, ?p # wanted) = ((ws', next', wanted'), None)"
    and w: "sha256 (wf_Data w) = fl_SHA f" "wf_X w = fl_X f" "ap_SHA a = fl_SHA f"
  proof (cases "unchanged applied ws f")
    case None
    then obtain mt where mt: "wr ?p = Written mt" using Cons.prems(1) rel blob by (auto simp: Let_def split: wres.splits)
    obtain d where d: "map_of (st_blobs st) (fl_SHA f) = Some d" "sha256 d = fl_SHA f"
      using blob Cons.prems(2) by (auto simp: HasBlob_def blobs_ok_def)
    show ?thesis
      using that [of "copied d (fl_X f) mt" "\<lparr>ap_SHA = fl_SHA f, ap_Size = int (length d), ap_Mtime = mt\<rparr>"] Cons.prems(1) rel blob cl None mt d
      by (simp add: Let_def copied_def)
  next
    case (Some x)
    obtain prev fi where x: "x = (prev, fi)" by (cases x)
    show ?thesis
      using that [of "fi\<lparr>wf_X := fl_X f\<rparr>" prev] Cons.prems(1) rel blob cl Some x unchanged_sum [of applied ws f prev fi sha256] Cons.prems(5)
      by (simp add: Let_def)
  qed
  have "set wanted' = set (?p # wanted) \<union> fl_Path ` set fs \<and> (\<forall>g \<in> set fs. in_place sha256 ws' next' g) \<and>
      (\<forall>p. p \<notin> fl_Path ` set fs \<longrightarrow> map_of ws' p = map_of (AList.update ?p w ws) p \<and> map_of next' p = map_of (AList.update ?p a next) p)"
    using Cons.prems(2-5) new' by (intro Cons.IH [OF step]) (auto simp: AList.update_conv')
  then show ?case using w new by (auto simp: in_place_def AList.update_conv')
qed simp

lemma map_of_filter_keys: "map_of (filter (\<lambda>e. fst e \<in> S) al) k = (if k \<in> S then map_of al k else None)"
  by (induction al) auto

lemma manifest_view_Some: "distinct (map fl_Path files) \<Longrightarrow> f \<in> set files \<Longrightarrow> manifest_view files (fl_Path f) = Some (fl_SHA f, fl_X f)"
  unfolding manifest_view_def by (rule map_of_is_SomeI) (auto simp: comp_def)

lemma manifest_view_None: "p \<notin> fl_Path ` set files \<Longrightarrow> manifest_view files p = None"
  by (auto simp: manifest_view_def map_of_eq_None_iff)

lemma session_of_update [simp]: "session_of (st\<lparr>st_sessions := AList.update sid s m, st_seen := n\<rparr>) sid = s"
  by (simp add: session_of_def AList.update_conv')

lemma Workspace_session:
  "Workspace sid True now disk st = (st1, Inr p) \<Longrightarrow> session_of st1 sid = session_of st sid \<and> st_blobs st1 = st_blobs st"
  by (auto simp: Workspace_def session_of_def AList.update_conv' split: if_splits option.split)

lemma Apply_refines:
  assumes "Apply sid files True now disk wr rc st = (st', None)"
    and "blobs_ok sha256 st" and "stamps_ok sha256 (session_of st sid)"
    and "distinct (map fl_Path files)" and "\<forall>f \<in> set files. Clean (fl_Path f) = fl_Path f"
  shows "ws_view sha256 (session_of st' sid) = manifest_view files \<and> st_blobs st' = st_blobs st \<and>
    (rc = RecWritten \<longrightarrow> stamps_ok sha256 (session_of st' sid))"
proof -
  let ?s = "session_of st sid"
  obtain st1 r where w1: "Workspace sid True now disk st = (st1, r)" by fastforce
  then obtain p where w: "Workspace sid True now disk st = (st1, Inr p)" using assms(1) by (cases r) (auto simp: Apply_def)
  note s1 = Workspace_session [OF w]
  obtain ws "next" wanted e where a': "apply_files wr st1 (sd_applied ?s) files (sd_ws ?s, [], []) = ((ws, next, wanted), e)"
    by (metis prod.collapse)
  then have a: "apply_files wr st1 (sd_applied ?s) files (sd_ws ?s, [], []) = ((ws, next, wanted), None)"
    using assms(1) w s1 by (cases e) (auto simp: Apply_def Let_def)
  have st': "session_of st' sid = \<lparr>sd_ws = prune_ws True wanted ws,
      sd_applied = (case rc of RecWritten \<Rightarrow> next | RecKept \<Rightarrow> sd_applied ?s | RecBroken \<Rightarrow> [])\<rparr>" "st_blobs st' = st_blobs st1"
    using assms(1) w s1 a by (auto simp: Apply_def Let_def)
  have b1: "blobs_ok sha256 st1" "st_blobs st1 = st_blobs st" using Workspace_session [OF w] assms(2) by (auto simp: blobs_ok_def)
  have sp: "set wanted = fl_Path ` set files" "\<forall>f \<in> set files. in_place sha256 ws next f"
      "\<forall>p. p \<notin> fl_Path ` set files \<longrightarrow> map_of next p = None"
    using apply_files_spec [OF a b1(1) assms(4,5)] assms(3) by (auto simp: stamps_ok_def)
  have "ws_view sha256 (session_of st' sid) p = manifest_view files p" for p
  proof (cases "p \<in> fl_Path ` set files")
    case True
    then obtain f where f: "f \<in> set files" "p = fl_Path f" by auto
    then show ?thesis using sp(1,2) manifest_view_Some [OF assms(4) f(1)]
      by (auto simp: ws_view_def st' prune_ws_def map_of_filter_keys in_place_def)
  next
    case False
    then show ?thesis using sp(1) by (simp add: ws_view_def st' prune_ws_def map_of_filter_keys manifest_view_None)
  qed
  moreover have "stamps_ok sha256 (session_of st' sid)" if "rc = RecWritten"
  proof -
    have "sha256 (wf_Data w) = ap_SHA a" if "map_of next p = Some a" "map_of ws p = Some w" for p a w
    proof -
      from that(1) sp(3) obtain f where f: "f \<in> set files" "p = fl_Path f" by fastforce
      then show ?thesis using sp(2) that by (auto simp: in_place_def)
    qed
    then show ?thesis using that by (auto simp: stamps_ok_def st' prune_ws_def map_of_filter_keys split: if_splits)
  qed
  ultimately show ?thesis using b1 st'(2) by auto
qed


definition demo_sum :: "string \<Rightarrow> string" where
  "demo_sum d = replicate 64 (if d = [] then CHR ''0'' else CHR ''a'')"

definition demo_file :: File where
  "demo_file = \<lparr>fl_Path = ''a/b'', fl_SHA = demo_sum ''hi'', fl_Size = 2, fl_X = True\<rparr>"

definition demo_store :: Store where
  "demo_store = (Open_store ''/var'')\<lparr>st_blobs := [(demo_sum ''hi'', ''hi'')]\<rparr>"

lemma demo_clean: "Clean ''a/b'' = ''a/b''" "safeRel ''a/b'' = Some ''a/b''" "validSHA (demo_sum ''hi'')"
  by code_simp+


subsection \<open>Paths stay in the session\<close>

lemma safeID_plain: "safeID sid \<Longrightarrow> plain sid"
  by (cases sid) (auto simp: safeID_def plain_def list_all_iff)

lemma validSHA_plain: "validSHA s \<Longrightarrow> plain s"
  by (auto simp: validSHA_def plain_def list_all_iff less_eq_char_def)

text \<open>
  C29: whatever id, path and sum a client sends, if the store accepts them the files it touches are where they should be: the
  workspace is \<^verbatim>\<open>sessions/ID/ws\<close> under the store's directory, a manifest path leads into the workspace (or, for a path of dots only, to
  the workspace itself), and a blob is a file of \<^verbatim>\<open>blobs\<close>. Sessions with different ids have different workspaces, neither inside the other.
\<close>

theorem client_paths_confined:
  assumes "\<forall>e \<in> set rs. plain e" and "safeID sid" and "safeID sid'" and "safeRel p = Some rel" and "validSHA sha"
  shows "ws_path (abs_path rs) sid = abs_path (rs @ [''sessions'', sid, ''ws'']) \<and>
    (Join [ws_path (abs_path rs) sid, rel] = ws_path (abs_path rs) sid \<or> inside (ws_path (abs_path rs) sid) (Join [ws_path (abs_path rs) sid, rel])) \<and>
    blobPath (abs_path rs) sha = abs_path (rs @ [''blobs'', sha]) \<and>
    (sid \<noteq> sid' \<longrightarrow> ws_path (abs_path rs) sid \<noteq> ws_path (abs_path rs) sid' \<and>
       \<not> inside (ws_path (abs_path rs) sid) (ws_path (abs_path rs) sid'))"
proof -
  let ?es = "\<lambda>s. rs @ [''sessions'', s, ''ws'']"
  have ws: "ws_path (abs_path rs) s = abs_path (?es s)" if "safeID s" for s
    unfolding ws_path_def using assms(1) safeID_plain [OF that] by (intro Join_abs_elems) (auto simp: plain_def)
  have pl: "\<forall>e \<in> set (?es s). plain e" if "safeID s" for s using assms(1) safeID_plain [OF that] by (auto simp: plain_def)
  have rel: "rel \<noteq> []" "''..'' \<notin> set (parts (CHR ''/'') rel)" using assms(4) no_dotdot by (auto simp: safeRel_def split: if_splits)
  have j: "Join [abs_path (?es sid), rel] = abs_path (?es sid @ elems rel)" using Join_abs [OF pl [OF assms(2)] rel] .
  have b: "blobPath (abs_path rs) sha = abs_path (rs @ [''blobs'', sha])"
    unfolding blobPath_def using assms(1) validSHA_plain [OF assms(5)] by (intro Join_abs_elems) (auto simp: plain_def)
  have "Join [abs_path (?es sid), rel] = abs_path (?es sid) \<or> inside (abs_path (?es sid)) (Join [abs_path (?es sid), rel])"
    unfolding j using abs_inside [of "?es sid" "elems rel"] by (cases "elems rel = []") auto
  moreover have "abs_path (?es sid) \<noteq> abs_path (?es sid') \<and> \<not> inside (abs_path (?es sid)) (abs_path (?es sid'))" if "sid \<noteq> sid'"
  proof (rule conjI)
    have e: "elems (abs_path (?es s)) = ?es s" if "safeID s" for s using elems_abs [OF pl [OF that]] .
    then show "abs_path (?es sid) \<noteq> abs_path (?es sid')" using \<open>sid \<noteq> sid'\<close> assms(2,3) by (metis append_same_eq list.inject same_append_eq)
    show "\<not> inside (abs_path (?es sid)) (abs_path (?es sid'))"
    proof
      assume "inside (abs_path (?es sid)) (abs_path (?es sid'))"
      then obtain q where "abs_path (?es sid') = abs_path (?es sid) @ ''/'' @ q" by (auto simp: inside_def prefix_def)
      then have "?es sid' = ?es sid @ elems q" using e [OF assms(2)] e [OF assms(3)] by (metis elems_append)
      then show False using \<open>sid \<noteq> sid'\<close> by simp
    qed
  qed
  ultimately show ?thesis using ws assms(2,3) b by simp
qed

theorem client_paths_confined_witness:
  "inside (ws_path (abs_path [''var'', ''gmux'']) ''s1'') (Join [ws_path (abs_path [''var'', ''gmux'']) ''s1'', ''a/./b'']) \<and>
   blobPath (abs_path [''var'', ''gmux'']) (demo_sum []) = abs_path [''var'', ''gmux'', ''blobs'', demo_sum []]"
proof -
  have h: "safeID ''s1''" "safeID ''s2''" "safeRel ''a/./b'' = Some ''a/./b''" "validSHA (demo_sum [])" by code_simp+
  have "Join [ws_path (abs_path [''var'', ''gmux'']) ''s1'', ''a/./b''] \<noteq> ws_path (abs_path [''var'', ''gmux'']) ''s1''" by code_simp
  then show ?thesis using client_paths_confined [OF _ h, of "[''var'', ''gmux'']"] by (auto simp: plain_def)
qed

text \<open>
  A manifest path that is accepted but not clean: the file is written and then pruned, because the walk finds it under its clean path.
\<close>

lemma unclean_path_is_pruned:
  assumes "Apply sid [f] True now disk wr rc st = (st', None)" and "Clean (fl_Path f) \<noteq> fl_Path f"
  shows "map_of (sd_ws (session_of st' sid)) (Clean (fl_Path f)) = None"
proof -
  obtain st1 r where w: "Workspace sid True now disk st = (st1, r)" by fastforce
  then obtain p where r: "r = Inr p" using assms(1) by (cases r) (auto simp: Apply_def)
  obtain ws "next" wanted e where a: "apply_files wr st1 (sd_applied (session_of st1 sid)) [f] (sd_ws (session_of st1 sid), [], []) = ((ws, next, wanted), e)"
    by (metis prod.collapse)
  then have e: "e = None" using assms(1) w r by (cases e) (auto simp: Apply_def Let_def)
  then have "wanted = [fl_Path f]" using a by (auto simp: Let_def safeRel_def split: if_splits option.splits wres.splits)
  then have "sd_ws (session_of st' sid) = prune_ws True [fl_Path f] ws"
    using assms(1) w r a e by (auto simp: Apply_def Let_def simp del: apply_files.simps)
  then show ?thesis using assms(2) by (auto simp: prune_ws_def map_of_eq_None_iff)
qed

end
