(* ===== verification/Remote.thy ===== *)
theory Remote
  imports Session
begin

text \<open>
  Package \<^verbatim>\<open>internal/remote\<close>: the client of a GPU host. A target is parsed into a client that pins the host's certificate; a directory is walked,
  hashed (through the cache) and mirrored into a session's workspace; a command's stream of events is read back; result files are
  pulled. The directory is a tree with its files' identities and bytes. HTTP is left out: a request reaches the host's handler or it does not
  (\<open>reach\<close>), and the handlers of \<^verbatim>\<open>internal/api/remote.go\<close> call the operations of the session store.
\<close>

subsection \<open>Targets\<close>

record Client =
  cl_base :: string
  cl_token :: string
  cl_fp :: string

text \<open>What follows and what precedes the last occurrence of a byte.\<close>

definition cut_last :: "char \<Rightarrow> string \<Rightarrow> (string \<times> string) option" where
  "cut_last c s = (let i = LastIndexByte s c in if i \<ge> 0 then Some (take (nat i) s, drop (nat i + 1) s) else None)"

definition Dial :: "(string \<Rightarrow> string) \<Rightarrow> string \<Rightarrow> Client option" where
  "Dial uni target =
     (case (case cut_last (CHR ''#'') target of Some (t, f) \<Rightarrow> (t, ToLower uni f) | None \<Rightarrow> (target, [])) of (t1, fp) \<Rightarrow>
        case (case cut_last (CHR ''@'') t1 of Some (k, t) \<Rightarrow> (k, t) | None \<Rightarrow> ([], t1)) of (token, t2) \<Rightarrow>
          let t3 = TrimPrefix (TrimPrefix t2 ''https://'') ''http://''
          in if t3 = [] then None
             else Some \<lparr>cl_base = (if fp = [] then ''http://'' else ''https://'') @ TrimRight t3 ''/'', cl_token = token, cl_fp = fp\<rparr>)"

text \<open>\<^verbatim>\<open>VerifyConnection\<close> of a client that has a fingerprint: the certificates the host sent, and whether it goes on.\<close>

definition VerifyConnection :: "(string \<Rightarrow> string) \<Rightarrow> Client \<Rightarrow> string list \<Rightarrow> bool" where
  "VerifyConnection sha256 c certs \<longleftrightarrow> (case certs of [] \<Rightarrow> False | der # _ \<Rightarrow> sha256 der = cl_fp c)"

text \<open>The header \<^verbatim>\<open>req\<close> sets.\<close>

definition auth_header :: "Client \<Rightarrow> string option" where
  "auth_header c = (if cl_token c \<noteq> [] then Some (''Bearer '' @ cl_token c) else None)"

definition firstNonEmpty :: "string \<Rightarrow> string \<Rightarrow> string" where
  "firstNonEmpty a b = (if a \<noteq> [] then a else b)"

subsection \<open>The hash cache\<close>

record cacheEntry =
  ce_Dev :: int
  ce_Ino :: int
  ce_Size :: int
  ce_Mtime :: int
  ce_SHA :: string

record finfo =
  fi_Dev :: int
  fi_Ino :: int
  fi_Size :: int
  fi_Mtime :: int
  fi_X :: bool

record hashCache =
  hc_m :: "(string, cacheEntry) gomap"
  hc_dirty :: bool

text \<open>\<open>var\<close> is \<^verbatim>\<open>GMUX_HASH_CACHE\<close>, \<open>dir\<close> the user's cache directory, \<open>load\<close> the map a file decodes to; the result is the cache and its path.\<close>

definition openHashCache :: "string \<Rightarrow> string option \<Rightarrow> (string \<Rightarrow> (string, cacheEntry) gomap) \<Rightarrow> (hashCache \<times> string) option" where
  "openHashCache var dir load =
     (if var = ''off'' then None
      else if var = [] then (case dir of None \<Rightarrow> None
          | Some d \<Rightarrow> let p = Join [d, ''gmux'', ''hashes.json''] in Some (\<lparr>hc_m = load p, hc_dirty = False\<rparr>, p))
      else Some (\<lparr>hc_m = load var, hc_dirty = False\<rparr>, var))"

text \<open>\<open>content\<close> is what reading the file gives, \<open>None\<close> an error. The result is the sum and whether the file was read.\<close>

definition hashFile :: "(string \<Rightarrow> string) \<Rightarrow> string \<Rightarrow> finfo \<Rightarrow> string option \<Rightarrow> hashCache option \<Rightarrow> (string \<times> bool) option \<times> hashCache option" where
  "hashFile sha256 path fi content h =
     (case (case h of None \<Rightarrow> None | Some c \<Rightarrow> map_of (hc_m c) path) of
        Some e \<Rightarrow>
          if ce_Dev e = fi_Dev fi \<and> ce_Ino e = fi_Ino fi \<and> ce_Size e = fi_Size fi \<and> ce_Mtime e = fi_Mtime fi
          then (Some (ce_SHA e, False), h)
          else (case content of None \<Rightarrow> (None, h)
            | Some d \<Rightarrow> (Some (sha256 d, True), map_option (\<lambda>c. c\<lparr>hc_m := AList.update path \<lparr>ce_Dev = fi_Dev fi, ce_Ino = fi_Ino fi, ce_Size = fi_Size fi,
                ce_Mtime = fi_Mtime fi, ce_SHA = sha256 d\<rparr> (hc_m c), hc_dirty := True\<rparr>) h))
      | None \<Rightarrow>
          (case content of None \<Rightarrow> (None, h)
            | Some d \<Rightarrow> (Some (sha256 d, True), map_option (\<lambda>c. c\<lparr>hc_m := AList.update path \<lparr>ce_Dev = fi_Dev fi, ce_Ino = fi_Ino fi, ce_Size = fi_Size fi,
                ce_Mtime = fi_Mtime fi, ce_SHA = sha256 d\<rparr> (hc_m c), hc_dirty := True\<rparr>) h)))"

text \<open>\<^verbatim>\<open>save\<close>: the cache that remains, and what is written to its file.\<close>

definition cache_save :: "hashCache option \<Rightarrow> hashCache option \<times> (string, cacheEntry) gomap option" where
  "cache_save h = (case h of None \<Rightarrow> (None, None)
     | Some c \<Rightarrow> if \<not> hc_dirty c then (h, None)
         else let m = (if length (hc_m c) > 200000 then [] else hc_m c) in (Some \<lparr>hc_m = m, hc_dirty = False\<rparr>, Some m))"

subsection \<open>The manifest of a directory\<close>

text \<open>
  A directory tree: regular files with their information and bytes, anything else, and directories with their entries (\<open>None\<close> when they
  cannot be listed). A walk visits it in order; \<open>VFail\<close> is the error that ends it.
\<close>

datatype node = NFile finfo "string option" | NOther | NDir "(string \<times> node) list option"

datatype visit = VFile string finfo "string option" | VFail

fun walk :: "string list \<Rightarrow> string \<Rightarrow> node \<Rightarrow> visit list" where
  "walk rel name (NFile fi d) = [VFile (if rel = [] then ''.'' else join_slash rel) fi d]"
| "walk rel name NOther = []"
| "walk rel name (NDir None) = (if name = ''.git'' \<or> name = ''.gmux'' then [] else [VFail])"
| "walk rel name (NDir (Some ents)) = (if name = ''.git'' \<or> name = ''.gmux'' then [] else concat (map (\<lambda>(n, t). walk (rel @ [n]) n t) ents))"

text \<open>The callback of \<^verbatim>\<open>WalkDir\<close> over the visits: the files so far, how many were read, the cache, and whether it failed.\<close>

fun hash_visits :: "(string \<Rightarrow> string) \<Rightarrow> string \<Rightarrow> visit list \<Rightarrow> File list \<times> nat \<times> hashCache option \<Rightarrow> (File list \<times> nat \<times> hashCache option) \<times> bool" where
  "hash_visits sha256 dir [] acc = (acc, False)"
| "hash_visits sha256 dir (VFail # vs) acc = (acc, True)"
| "hash_visits sha256 dir (VFile rel fi d # vs) (out, hashed, h) =
     (case hashFile sha256 (Join [dir, rel]) fi d h of
        (None, h') \<Rightarrow> ((out, hashed, h'), True)
      | (Some (digest, read), h') \<Rightarrow>
          hash_visits sha256 dir vs (out @ [\<lparr>fl_Path = rel, fl_SHA = digest, fl_Size = fi_Size fi, fl_X = fi_X fi\<rparr>], if read then hashed + 1 else hashed, h'))"

definition buildManifest :: "(string \<Rightarrow> string) \<Rightarrow> string \<Rightarrow> string \<Rightarrow> node \<Rightarrow> hashCache option \<Rightarrow> File list \<times> nat \<times> bool \<times> hashCache option" where
  "buildManifest sha256 dir name t h =
     (case hash_visits sha256 dir (walk [] name t) ([], 0, h) of ((out, hashed, h'), err) \<Rightarrow> (sort_key fl_Path out, hashed, err, h'))"

subsection \<open>Syncing a directory to a session\<close>

datatype sync_error = CannotList | Unreachable string | CannotOpen string | UploadRefused string | ApplyRefused serror

text \<open>The host's disk and clock while it serves the requests.\<close>

record host =
  ho_now :: int
  ho_disk :: bool
  ho_write :: "string \<Rightarrow> wres"
  ho_rec :: rec_res

text \<open>The upload loop: \<open>bytes_at\<close> is what a path of the directory holds when it is uploaded (it may have changed since it was hashed).\<close>

fun upload :: "(string \<Rightarrow> string) \<Rightarrow> (string \<Rightarrow> bool) \<Rightarrow> host \<Rightarrow> (string \<Rightarrow> string option) \<Rightarrow> (string, string) gomap \<Rightarrow> string list \<Rightarrow> Store \<Rightarrow> Store \<times> sync_error option" where
  "upload sha256 reach ho bytes_at bySHA [] st = (st, None)"
| "upload sha256 reach ho bytes_at bySHA (sha # shas) st =
     (case bytes_at (case map_of bySHA sha of Some p \<Rightarrow> p | None \<Rightarrow> []) of
        None \<Rightarrow> (st, Some (CannotOpen sha))
      | Some d \<Rightarrow>
          if \<not> reach (''/v1/blobs/'' @ sha) then (st, Some (Unreachable sha))
          else case PutBlobFrom sha256 sha d True (ho_disk ho) st of
              (st', Inl e) \<Rightarrow> (st', Some (UploadRefused sha))
            | (st', Inr n) \<Rightarrow> upload sha256 reach ho bytes_at bySHA shas st')"

definition Sync :: "(string \<Rightarrow> string) \<Rightarrow> (string \<Rightarrow> bool) \<Rightarrow> host \<Rightarrow> (string \<Rightarrow> string option) \<Rightarrow> string \<Rightarrow> string \<Rightarrow> node \<Rightarrow> string \<Rightarrow>
    hashCache option \<Rightarrow> Store \<Rightarrow> Store \<times> hashCache option \<times> (sync_error + nat \<times> nat)" where
  "Sync sha256 reach ho bytes_at dir name t sid h st =
     (case buildManifest sha256 dir name t h of (manifest, hashed, err, h1) \<Rightarrow>
        let h' = fst (cache_save h1)
        in if err then (st, h', Inl CannotList)
           else if \<not> reach (''/v1/sessions/'' @ sid @ ''/manifest'') then (st, h', Inl (Unreachable sid))
           else let missing = Missing manifest st;
                    bySHA = fold (\<lambda>f m. AList.update (fl_SHA f) (Join [dir, fl_Path f]) m) manifest []
                in case upload sha256 reach ho bytes_at bySHA missing st of
                     (st1, Some e) \<Rightarrow> (st1, h', Inl e)
                   | (st1, None) \<Rightarrow>
                       if \<not> reach (''/v1/sessions/'' @ sid @ ''/apply'') then (st1, h', Inl (Unreachable sid))
                       else (case Apply sid manifest True (ho_now ho) (ho_disk ho) (ho_write ho) (ho_rec ho) st1 of
                           (st2, Some e) \<Rightarrow> (st2, h', Inl (ApplyRefused e))
                         | (st2, None) \<Rightarrow> (st2, h', Inr (length manifest, length missing))))"

subsection \<open>Running and pulling\<close>

text \<open>A line of the stream, decoded; \<open>EvBad\<close> is one that does not decode.\<close>

datatype event = EvOut string | EvErr string | EvExit int | EvError string | EvOther | EvBad

fun exec_events :: "event list \<Rightarrow> string list \<times> string list \<times> int \<Rightarrow> string list \<times> string list \<times> (string + int)" where
  "exec_events [] (out, err, exit) = (out, err, Inr exit)"
| "exec_events (ev # evs) (out, err, exit) =
     (case ev of
        EvOut d \<Rightarrow> exec_events evs (out @ [d], err, exit)
      | EvErr d \<Rightarrow> exec_events evs (out, err @ [d], exit)
      | EvExit c \<Rightarrow> exec_events evs (out, err, c)
      | EvError msg \<Rightarrow> (out, err, Inl msg)
      | EvOther \<Rightarrow> exec_events evs (out, err, exit)
      | EvBad \<Rightarrow> exec_events evs (out, err, exit))"

definition Exec_stream :: "event list \<Rightarrow> string list \<times> string list \<times> (string + int)" where
  "Exec_stream evs = exec_events evs ([], [], - 1)"

text \<open>The loop of \<^verbatim>\<open>Pull\<close> over the archive: the files it writes, and whether one could not be created (\<open>create\<close>).\<close>

fun pull_entries :: "(string \<Rightarrow> bool) \<Rightarrow> string \<Rightarrow> (string \<times> string) list \<Rightarrow> (string \<times> string) list \<Rightarrow> (string \<times> string) list \<times> bool" where
  "pull_entries create dir [] acc = (acc, False)"
| "pull_entries create dir ((name, d) # es) acc =
     (let dst = Join [dir, name]
      in if \<not> HasPrefix dst (Clean dir @ ''/'') then pull_entries create dir es acc
         else if \<not> create dst then (acc, True)
         else pull_entries create dir es (acc @ [(dst, d)]))"

definition Pull :: "(string \<Rightarrow> bool) \<Rightarrow> string \<Rightarrow> (string \<times> string) list \<Rightarrow> (string \<times> string) list \<times> bool" where
  "Pull create dir entries = pull_entries create dir entries []"

end
