(* ===== verification/Remote_Properties.thy ===== *)
theory Remote_Properties
  imports Remote Session_Properties
begin

text \<open>
  What the remote client promises: a target pins the host it names; a sync that succeeds leaves in the session exactly the regular files of the
  directory, and one that nothing disturbs succeeds; pulled files land inside the directory they are pulled into.
\<close>

subsection \<open>Targets\<close>

lemma cut_last_at: "c \<notin> set b \<Longrightarrow> cut_last c (a @ c # b) = Some (a, b)"
  by (auto simp: cut_last_def LastIndexByte_def Let_def takeWhile_append)

lemma ToLower_sum: "validSHA fp \<Longrightarrow> ToLower uni fp = fp"
proof -
  assume v: "validSHA fp"
  have "byte c < 128 \<and> lower_char c = c" if "c \<in> set fp" for c
    using v that by (fastforce simp: validSHA_def list_all_iff less_eq_char_def byte_def lower_char_def)
  then show ?thesis by (auto simp: ToLower_def is_ascii_def list_all_iff intro: map_idI)
qed

lemma TrimRight_id: "s \<noteq> [] \<Longrightarrow> last s \<noteq> CHR ''/'' \<Longrightarrow> TrimRight s ''/'' = s"
  by (cases s rule: rev_cases) (auto simp: TrimRight_def)

text \<open>
  The target a host prints, token, address and certificate fingerprint, is read back as that token, that address over TLS, and a client that
  goes on with a connection exactly when the first certificate the host sends has that fingerprint. A target that ends in \<^verbatim>\<open>#\<close>, with the
  fingerprint left out, is accepted as well and gives a client that sends the token in the clear.
\<close>

theorem Dial_pins_the_host:
  assumes "CHR ''@'' \<notin> set addr" and "addr \<noteq> []" and "last addr \<noteq> CHR ''/''"
    and "\<not> prefix ''https://'' addr" and "\<not> prefix ''http://'' addr" and "validSHA fp"
  shows "Dial uni (token @ ''@'' @ addr @ ''#'' @ fp) = Some \<lparr>cl_base = ''https://'' @ addr, cl_token = token, cl_fp = fp\<rparr> \<and>
    (VerifyConnection sha256 \<lparr>cl_base = ''https://'' @ addr, cl_token = token, cl_fp = fp\<rparr> certs \<longleftrightarrow> certs \<noteq> [] \<and> sha256 (hd certs) = fp) \<and>
    Dial uni (token @ ''@'' @ addr @ ''#'') = Some \<lparr>cl_base = ''http://'' @ addr, cl_token = token, cl_fp = []\<rparr>"
proof -
  have fp: "CHR ''#'' \<notin> set fp" "fp \<noteq> []" using assms(6) by (auto simp: validSHA_def list_all_iff less_eq_char_def)
  have "cut_last (CHR ''#'') (token @ ''@'' @ addr @ ''#'' @ fp) = Some (token @ ''@'' @ addr, fp)"
      "cut_last (CHR ''#'') (token @ ''@'' @ addr @ ''#'') = Some (token @ ''@'' @ addr, [])"
    using cut_last_at [of "CHR ''#''" fp "token @ ''@'' @ addr"] cut_last_at [of "CHR ''#''" "[]" "token @ ''@'' @ addr"] fp(1) by simp_all
  moreover have "cut_last (CHR ''@'') (token @ ''@'' @ addr) = Some (token, addr)" using cut_last_at [OF assms(1)] by simp
  moreover have "TrimPrefix (TrimPrefix addr ''https://'') ''http://'' = addr" using assms(4,5) by (simp add: TrimPrefix_def)
  moreover have "ToLower uni [] = []" by (simp add: ToLower_def is_ascii_def)
  ultimately show ?thesis
    using fp(2) ToLower_sum [OF assms(6)] assms(2,3) TrimRight_id
    by (auto simp: Dial_def Let_def VerifyConnection_def split: list.split)
qed

theorem Dial_pins_the_host_witness:
  "Dial id (''t0k'' @ ''@'' @ ''gpu:7070'' @ ''#'' @ demo_sum []) = Some \<lparr>cl_base = ''https://gpu:7070'', cl_token = ''t0k'', cl_fp = demo_sum []\<rparr>"
proof -
  have "validSHA (demo_sum [])" by code_simp
  then show ?thesis using Dial_pins_the_host [of "''gpu:7070''" "demo_sum []" id "''t0k''"] by simp
qed

subsection \<open>Walking a tree\<close>

fun tree_wf :: "node \<Rightarrow> bool" where
  "tree_wf (NDir (Some ents)) \<longleftrightarrow> distinct (map fst ents) \<and> (\<forall>(n, t) \<in> set ents. plain n \<and> tree_wf t)"
| "tree_wf _ \<longleftrightarrow> True"

definition is_dir :: "node \<Rightarrow> bool" where
  "is_dir t = (case t of NDir _ \<Rightarrow> True | _ \<Rightarrow> False)"

fun file_of :: "visit \<Rightarrow> (string \<times> finfo \<times> string option) list" where
  "file_of (VFile p fi d) = [(p, fi, d)]"
| "file_of VFail = []"

definition files_of :: "visit list \<Rightarrow> (string \<times> finfo \<times> string option) list" where
  "files_of vs = concat (map file_of vs)"

lemma files_of_simps [simp]: "files_of [] = []" "files_of (v # vs) = file_of v @ files_of vs" "files_of (us @ vs) = files_of us @ files_of vs"
  by (simp_all add: files_of_def)

lemma files_of_concat: "files_of (concat vss) = concat (map files_of vss)"
  by (induction vss) auto

lemma walk_paths:
  assumes "tree_wf t" and "\<forall>e \<in> set rel. plain e" and "rel \<noteq> [] \<or> is_dir t" and "(p, fi, d) \<in> set (files_of (walk rel name t))"
  shows "\<exists>es. p = join_slash es \<and> prefix rel es \<and> es \<noteq> [] \<and> (\<forall>e \<in> set es. plain e)"
  using assms
proof (induction rel name t rule: walk.induct)
  case (4 rel name ents)
  then obtain n t where nt: "(n, t) \<in> set ents" "(p, fi, d) \<in> set (files_of (walk (rel @ [n]) n t))" and nm: "\<not> (name = ''.git'' \<or> name = ''.gmux'')"
    by (auto simp: files_of_concat split: if_splits)
  have "plain n" "tree_wf t" using 4(2) nt(1) by auto
  then obtain es where "p = join_slash es" "prefix (rel @ [n]) es" "es \<noteq> []" "\<forall>e \<in> set es. plain e"
    using "4.IH" [OF nm nt(1) refl] nt(2) 4(3) by auto
  then show ?case by (intro exI [of _ es]) (auto dest: append_prefixD)
qed (auto simp: is_dir_def split: if_splits)

lemma walk_paths':
  assumes "tree_wf t" and "\<forall>e \<in> set (rel @ [n]). plain e" and "p \<in> fst ` set (files_of (walk (rel @ [n]) name t))"
  shows "\<exists>es. p = join_slash es \<and> prefix (rel @ [n]) es \<and> (\<forall>e \<in> set es. plain e)"
proof -
  from assms(3) obtain fi d where "(p, fi, d) \<in> set (files_of (walk (rel @ [n]) name t))" by auto
  from walk_paths [OF assms(1,2) _ this] show ?thesis by auto
qed

lemma join_slash_inj: "\<forall>e \<in> set es. plain e \<Longrightarrow> \<forall>e \<in> set fs. plain e \<Longrightarrow> join_slash es = join_slash fs \<Longrightarrow> es = fs"
  by (metis elems_join)

lemma walk_distinct:
  assumes "tree_wf t" and "\<forall>e \<in> set rel. plain e" and "rel \<noteq> [] \<or> is_dir t"
  shows "distinct (map fst (files_of (walk rel name t)))"
  using assms
proof (induction rel name t rule: walk.induct)
  case (4 rel name ents)
  have "distinct (map fst (files_of (concat (map (\<lambda>(n, t). walk (rel @ [n]) n t) es))))"
    if "\<not> (name = ''.git'' \<or> name = ''.gmux'')" "set es \<subseteq> set ents" "distinct (map fst es)" for es
    using that(2,3)
  proof (induction es)
    case (Cons x es)
    obtain n t where x: "x = (n, t)" by (cases x)
    have nt: "(n, t) \<in> set ents" using Cons.prems(1) x by auto
    have w: "plain n" "tree_wf t" "\<forall>e \<in> set (rel @ [n]). plain e" using 4(2,3) Cons.prems(1) x by auto
    have one: "distinct (map fst (files_of (walk (rel @ [n]) n t)))" using "4.IH" [OF that(1) nt refl] w by auto
    have "p \<notin> fst ` set (files_of (concat (map (\<lambda>(n, t). walk (rel @ [n]) n t) es)))" if pn: "p \<in> fst ` set (files_of (walk (rel @ [n]) n t))" for p
    proof
      assume "p \<in> fst ` set (files_of (concat (map (\<lambda>(n, t). walk (rel @ [n]) n t) es)))"
      then obtain m t' where m: "(m, t') \<in> set es" "p \<in> fst ` set (files_of (walk (rel @ [m]) m t'))" by (auto simp: files_of_concat)
      have w': "plain m" "tree_wf t'" "\<forall>e \<in> set (rel @ [m]). plain e" using 4(2,3) Cons.prems(1) m(1) by auto
      obtain es1 where e1: "p = join_slash es1" "prefix (rel @ [n]) es1" "\<forall>e \<in> set es1. plain e"
        using walk_paths' [OF w(2,3) pn] by auto
      obtain es2 where e2: "p = join_slash es2" "prefix (rel @ [m]) es2" "\<forall>e \<in> set es2. plain e"
        using walk_paths' [OF w'(2,3) m(2)] by auto
      have "es1 = es2" using join_slash_inj [OF e1(3) e2(3)] e1(1) e2(1) by simp
      with e1(2) e2(2) have "n = m" by (auto simp: prefix_def)
      then show False using Cons.prems(2) m(1) x by (auto intro: rev_image_eqI)
    qed
    then show ?case using one Cons x by (simp add: disjoint_iff)
  qed simp
  then show ?case using 4(2) by auto
qed auto

subsection \<open>Hashing\<close>

definition entry_of :: "(string \<Rightarrow> string) \<Rightarrow> string \<times> finfo \<times> string option \<Rightarrow> File" where
  "entry_of sha256 x = (case x of (p, fi, d) \<Rightarrow> \<lparr>fl_Path = p, fl_SHA = sha256 (the d), fl_Size = fi_Size fi, fl_X = fi_X fi\<rparr>)"

lemma entry_of_file: "entry_of sha256 (p, fi, d) = \<lparr>fl_Path = p, fl_SHA = sha256 (the d), fl_Size = fi_Size fi, fl_X = fi_X fi\<rparr>"
  by (simp add: entry_of_def)

text \<open>The cache tells the truth about the files of the directory: an entry with a file's identity has its sum.\<close>

definition cache_ok :: "(string \<Rightarrow> string) \<Rightarrow> string \<Rightarrow> (string \<times> finfo \<times> string option) list \<Rightarrow> hashCache option \<Rightarrow> bool" where
  "cache_ok sha256 dir fs h \<longleftrightarrow> (\<forall>c p fi d e. h = Some c \<and> (p, fi, d) \<in> set fs \<and> map_of (hc_m c) (Join [dir, p]) = Some e \<and>
     ce_Dev e = fi_Dev fi \<and> ce_Ino e = fi_Ino fi \<and> ce_Size e = fi_Size fi \<and> ce_Mtime e = fi_Mtime fi \<longrightarrow> ce_SHA e = sha256 (the d))"

definition readable :: "(string \<times> finfo \<times> string option) list \<Rightarrow> bool" where
  "readable fs \<longleftrightarrow> (\<forall>(p, fi, d) \<in> set fs. d \<noteq> None)"

text \<open>Different files have different paths on disk.\<close>

definition apart :: "string \<Rightarrow> (string \<times> finfo \<times> string option) list \<Rightarrow> bool" where
  "apart dir fs \<longleftrightarrow> (\<forall>x \<in> set fs. \<forall>y \<in> set fs. Join [dir, fst x] = Join [dir, fst y] \<longrightarrow> x = y)"

lemma hashFile_sum:
  assumes "cache_ok sha256 dir fs h" and "(p, fi, Some d) \<in> set fs" and "apart dir fs"
  shows "\<exists>read h'. hashFile sha256 (Join [dir, p]) fi (Some d) h = (Some (sha256 d, read), h') \<and> cache_ok sha256 dir fs h'"
proof (cases h)
  case None
  then show ?thesis by (auto simp: hashFile_def cache_ok_def)
next
  case (Some c)
  let ?K = "Join [dir, p]"
  let ?c = "c\<lparr>hc_m := AList.update ?K \<lparr>ce_Dev = fi_Dev fi, ce_Ino = fi_Ino fi, ce_Size = fi_Size fi, ce_Mtime = fi_Mtime fi, ce_SHA = sha256 d\<rparr> (hc_m c),
      hc_dirty := True\<rparr>"
  have same: "d' = Some d" if "(q, fi', d') \<in> set fs" "Join [dir, q] = ?K" for q fi' d'
    using assms(2,3) that unfolding apart_def by (metis fst_conv prod.inject)
  have upd: "cache_ok sha256 dir fs (Some ?c)"
    unfolding cache_ok_def
  proof (intro allI impI, elim conjE)
    fix c' q fi' d' e
    assume e: "Some ?c = Some c'" "map_of (hc_m c') (Join [dir, q]) = Some e"
      and q: "(q, fi', d') \<in> set fs" "ce_Dev e = fi_Dev fi'" "ce_Ino e = fi_Ino fi'" "ce_Size e = fi_Size fi'" "ce_Mtime e = fi_Mtime fi'"
    show "ce_SHA e = sha256 (the d')"
    proof (cases "Join [dir, q] = ?K")
      case True
      then show ?thesis using e same [OF q(1)] by (auto simp: AList.update_conv')
    next
      case False
      then have "map_of (hc_m c) (Join [dir, q]) = Some e" using e by (auto simp: AList.update_conv')
      then show ?thesis using assms(1) Some q unfolding cache_ok_def by blast
    qed
  qed
  show ?thesis
  proof (cases "map_of (hc_m c) ?K")
    case None
    then show ?thesis using Some upd by (intro exI [of _ True]) (simp add: hashFile_def)
  next
    case (Some e)
    show ?thesis
    proof (cases "ce_Dev e = fi_Dev fi \<and> ce_Ino e = fi_Ino fi \<and> ce_Size e = fi_Size fi \<and> ce_Mtime e = fi_Mtime fi")
      case True
      then have "ce_SHA e = sha256 (the (Some d))" using assms(1,2) Some \<open>h = Some c\<close> unfolding cache_ok_def by blast
      then show ?thesis using True Some \<open>h = Some c\<close> assms(1) by (intro exI [of _ False]) (simp add: hashFile_def)
    next
      case False
      then show ?thesis using Some \<open>h = Some c\<close> upd by (intro exI [of _ True]) (auto simp: hashFile_def)
    qed
  qed
qed

lemma hash_visits_spec:
  assumes "set (files_of vs) \<subseteq> set fs" and "cache_ok sha256 dir fs h" and "readable fs" and "apart dir fs"
    and "VFail \<notin> set vs"
  shows "\<exists>n h'. hash_visits sha256 dir vs (out, hashed, h) = ((out @ map (entry_of sha256) (files_of vs), n, h'), False) \<and> cache_ok sha256 dir fs h'"
  using assms
proof (induction vs arbitrary: out hashed h)
  case (Cons v vs)
  obtain p fi d where v: "v = VFile p fi (Some d)" and in_fs: "(p, fi, Some d) \<in> set fs"
    using Cons.prems(1,3,5) by (cases v) (auto simp: readable_def)
  obtain read h1 where h1: "hashFile sha256 (Join [dir, p]) fi (Some d) h = (Some (sha256 d, read), h1)" "cache_ok sha256 dir fs h1"
    using hashFile_sum [OF Cons.prems(2) in_fs Cons.prems(4)] by blast
  have "set (files_of vs) \<subseteq> set fs" "VFail \<notin> set vs" using Cons.prems(1,5) by auto
  then have "\<exists>n h'. hash_visits sha256 dir vs (out @ [entry_of sha256 (p, fi, Some d)], if read then hashed + 1 else hashed, h1) =
      (((out @ [entry_of sha256 (p, fi, Some d)]) @ map (entry_of sha256) (files_of vs), n, h'), False) \<and> cache_ok sha256 dir fs h'"
    using Cons.IH [OF _ h1(2) Cons.prems(3,4)] by blast
  then show ?case using v h1(1) by (cases read) (simp_all add: entry_of_file)
qed simp

lemma hash_visits_fail: "VFail \<in> set vs \<Longrightarrow> snd (hash_visits sha256 dir vs acc) = True"
proof (induction vs arbitrary: acc)
  case (Cons v vs)
  obtain out hashed h where acc: "acc = (out, hashed, h)" by (cases acc)
  show ?case using Cons unfolding acc by (cases v) (auto split: option.splits prod.splits)
qed simp

subsection \<open>The manifest is the tree\<close>

definition tree_view :: "(string \<Rightarrow> string) \<Rightarrow> visit list \<Rightarrow> string \<rightharpoonup> string \<times> bool" where
  "tree_view sha256 vs = map_of (map (\<lambda>(p, fi, d). (p, sha256 (the d), fi_X fi)) (files_of vs))"

lemma join_slash_relative: "es \<noteq> [] \<Longrightarrow> \<forall>e \<in> set es. plain e \<Longrightarrow> join_slash es \<noteq> [] \<and> \<not> HasPrefix (join_slash es) ''/''"
proof -
  assume es: "es \<noteq> []" "\<forall>e \<in> set es. plain e"
  obtain c cs fs where c: "es = (c # cs) # fs" "c \<noteq> CHR ''/''" using es by (cases es; cases "hd es") (auto simp: plain_def)
  then show ?thesis by (cases fs) (simp_all add: HasPrefix_def)
qed

lemma Clean_join: "es \<noteq> [] \<Longrightarrow> \<forall>e \<in> set es. plain e \<Longrightarrow> Clean (join_slash es) = join_slash es"
proof -
  assume es: "es \<noteq> []" "\<forall>e \<in> set es. plain e"
  have "\<not> HasPrefix (join_slash es) ''/''" using join_slash_relative [OF es] by simp
  moreover have "parts (CHR ''/'') (join_slash es) = es" using es by (intro parts_join) (auto simp: plain_def)
  ultimately show ?thesis using es plain_not_dotdot [OF es(2)] elems_join [OF es(2)] by (simp add: Clean_elems)
qed

lemma manifest_view_sorted: "distinct (map fl_Path xs) \<Longrightarrow> manifest_view (sort_key f xs) = manifest_view xs"
proof
  fix p
  assume d: "distinct (map fl_Path xs)"
  then have d': "distinct (map fl_Path (sort_key f xs))" by (simp add: distinct_map_sort)
  show "manifest_view (sort_key f xs) p = manifest_view xs p"
  proof (cases "p \<in> fl_Path ` set xs")
    case True
    then obtain g where "g \<in> set xs" "p = fl_Path g" by auto
    then show ?thesis using manifest_view_Some [OF d, of g] manifest_view_Some [OF d', of g] by simp
  qed (simp add: manifest_view_None)
qed

text \<open>A directory gmux can be run in: a well-formed tree at an absolute path, every file of it readable, every directory listed.\<close>

definition dir_ok :: "string list \<Rightarrow> string \<Rightarrow> node \<Rightarrow> bool" where
  "dir_ok ds name t \<longleftrightarrow> (\<forall>e \<in> set ds. plain e) \<and> tree_wf t \<and> is_dir t \<and> readable (files_of (walk [] name t)) \<and> VFail \<notin> set (walk [] name t)"

lemma dir_paths:
  assumes "dir_ok ds name t" and "x \<in> set (files_of (walk [] name t))"
  shows "\<exists>es. fst x = join_slash es \<and> es \<noteq> [] \<and> (\<forall>e \<in> set es. plain e)" and "Clean (fst x) = fst x"
proof -
  obtain p fi d where x: "x = (p, fi, d)" by (cases x)
  show es: "\<exists>es. fst x = join_slash es \<and> es \<noteq> [] \<and> (\<forall>e \<in> set es. plain e)"
    using walk_paths [of t "[]" p fi d name] assms x by (auto simp: dir_ok_def)
  then show "Clean (fst x) = fst x" using Clean_join by auto
qed

lemma dir_apart:
  assumes ok: "dir_ok ds name t"
  shows "apart (abs_path ds) (files_of (walk [] name t))"
  unfolding apart_def
proof (intro ballI impI)
  fix x y assume x: "x \<in> set (files_of (walk [] name t))" and y: "y \<in> set (files_of (walk [] name t))"
    and j: "Join [abs_path ds, fst x] = Join [abs_path ds, fst y]"
  have ds: "\<forall>e \<in> set ds. plain e" using ok by (simp add: dir_ok_def)
  have J: "Join [abs_path ds, join_slash es] = abs_path (ds @ es)" if "es \<noteq> []" "\<forall>e \<in> set es. plain e" for es
  proof -
    have "parts (CHR ''/'') (join_slash es) = es" using that by (intro parts_join) (auto simp: plain_def)
    moreover have "join_slash es \<noteq> []" using that by (cases es rule: join_slash.cases) (auto simp: plain_def)
    ultimately show ?thesis using Join_abs [OF ds] plain_not_dotdot [OF that(2)] elems_join [OF that(2)] by simp
  qed
  obtain es fs where es: "fst x = join_slash es" "es \<noteq> []" "\<forall>e \<in> set es. plain e"
    and fs: "fst y = join_slash fs" "fs \<noteq> []" "\<forall>e \<in> set fs. plain e" using dir_paths(1) [OF ok x] dir_paths(1) [OF ok y] by auto
  have "abs_path (ds @ es) = abs_path (ds @ fs)" using j es fs J by simp
  moreover have "elems (abs_path (ds @ es)) = ds @ es" "elems (abs_path (ds @ fs)) = ds @ fs" using ds es(3) fs(3) by (auto intro!: elems_abs)
  ultimately have "ds @ es = ds @ fs" by metis
  then have "fst x = fst y" using es fs by simp
  moreover have "distinct (map fst (files_of (walk [] name t)))" using walk_distinct [of t "[]" name] ok by (simp add: dir_ok_def)
  ultimately show "x = y" using x y by (metis eq_key_imp_eq_value prod.collapse)
qed

lemma buildManifest_spec:
  assumes ok: "dir_ok ds name t" and c: "cache_ok sha256 (abs_path ds) (files_of (walk [] name t)) h"
  shows "\<exists>n h'. buildManifest sha256 (abs_path ds) name t h = (sort_key fl_Path (map (entry_of sha256) (files_of (walk [] name t))), n, False, h')"
  using hash_visits_spec [OF subset_refl c _ dir_apart [OF ok], of "[]" 0] ok
  by (auto simp: buildManifest_def dir_ok_def)

lemma manifest_ok:
  fixes sha256 :: "string \<Rightarrow> string"
  assumes ok: "dir_ok ds name t"
  defines "man \<equiv> sort_key fl_Path (map (entry_of sha256) (files_of (walk [] name t)))"
  shows "distinct (map fl_Path man)" and "\<forall>f \<in> set man. Clean (fl_Path f) = fl_Path f" and "manifest_view man = tree_view sha256 (walk [] name t)"
proof -
  let ?fs = "files_of (walk [] name t)"
  have p: "fl_Path (entry_of sha256 x) = fst x" for x by (simp add: entry_of_def split: prod.split)
  then have d: "distinct (map fl_Path (map (entry_of sha256) ?fs))"
    using walk_distinct [of t "[]" name] ok by (simp add: dir_ok_def comp_def)
  then show "distinct (map fl_Path man)" unfolding man_def by (rule distinct_map_sort)
  show "\<forall>f \<in> set man. Clean (fl_Path f) = fl_Path f" using dir_paths(2) [OF ok] p by (auto simp: man_def)
  have "manifest_view (map (entry_of sha256) ?fs) = tree_view sha256 (walk [] name t)"
    unfolding manifest_view_def tree_view_def by (auto simp: entry_of_file intro!: arg_cong [where f = map_of])
  then show "manifest_view man = tree_view sha256 (walk [] name t)" using manifest_view_sorted [OF d] by (simp add: man_def)
qed

subsection \<open>A sync mirrors the directory\<close>

lemma upload_keeps:
  "upload sha256 reach ho bytes_at bySHA shas st = (st', r) \<Longrightarrow> blobs_ok sha256 st \<Longrightarrow>
     blobs_ok sha256 st' \<and> st_sessions st' = st_sessions st \<and> (\<forall>k. HasBlob st k \<longrightarrow> HasBlob st' k)"
proof (induction shas arbitrary: st)
  case (Cons sha shas)
  have put: "blobs_ok sha256 (fst (PutBlobFrom sha256 sha d w dk st)) \<and> st_sessions (fst (PutBlobFrom sha256 sha d w dk st)) = st_sessions st \<and>
      (\<forall>k. HasBlob st k \<longrightarrow> HasBlob (fst (PutBlobFrom sha256 sha d w dk st)) k)" for d w dk
    using Cons.prems(2) by (auto simp: PutBlobFrom_def blobs_put HasBlob_def AList.update_conv')
  show ?case
  proof (cases "bytes_at (case map_of bySHA sha of Some p \<Rightarrow> p | None \<Rightarrow> [])")
    case (Some d)
    obtain st1 q where p: "PutBlobFrom sha256 sha d True (ho_disk ho) st = (st1, q)" by fastforce
    then have one: "blobs_ok sha256 st1 \<and> st_sessions st1 = st_sessions st \<and> (\<forall>k. HasBlob st k \<longrightarrow> HasBlob st1 k)"
      using put [of d True "ho_disk ho"] by simp
    show ?thesis
    proof (cases "reach (''/v1/blobs/'' @ sha)")
      case True
      then show ?thesis using Cons.prems(1) Some p one Cons.IH [of st1] by (cases q) auto
    qed (use Cons.prems Some in auto)
  qed (use Cons.prems in auto)
qed simp

text \<open>
  When a sync reports success, the session's workspace on the host is the directory: it has a file at exactly the paths of the directory's
  regular files (outside \<^verbatim>\<open>.git\<close> and \<^verbatim>\<open>.gmux\<close>), with the same sum and execute bit, whatever it held before, whatever the host's disk and the network did
  on the way, and even if files changed between hashing and upload. It rests on the two caches telling the truth: the client's sums
  of unchanged files, the host's record of what it wrote.
\<close>

lemma Sync_mirrors:
  assumes "dir_ok ds name t" and "cache_ok sha256 (abs_path ds) (files_of (walk [] name t)) h"
    and "blobs_ok sha256 st" and "stamps_ok sha256 (session_of st sid)"
    and "Sync sha256 reach ho bytes_at (abs_path ds) name t sid h st = (st', h', Inr (n, up))"
  shows "ws_view sha256 (session_of st' sid) = tree_view sha256 (walk [] name t) \<and> blobs_ok sha256 st' \<and>
    n = length (files_of (walk [] name t))"
proof -
  let ?man = "sort_key fl_Path (map (entry_of sha256) (files_of (walk [] name t)))"
  obtain k h1 where b: "buildManifest sha256 (abs_path ds) name t h = (?man, k, False, h1)" using buildManifest_spec [OF assms(1,2)] by blast
  obtain st1 r where u: "upload sha256 reach ho bytes_at (fold (\<lambda>f m. AList.update (fl_SHA f) (Join [abs_path ds, fl_Path f]) m) ?man []) (Missing ?man st) st = (st1, r)"
    by fastforce
  obtain st2 r2 where a: "Apply sid ?man True (ho_now ho) (ho_disk ho) (ho_write ho) (ho_rec ho) st1 = (st2, r2)" by fastforce
  have res: "r = None" "r2 = None" "st' = st2" "n = length ?man"
    using assms(5) b u a by (auto simp: Sync_def Let_def split: if_splits option.splits)
  have k: "blobs_ok sha256 st1" "session_of st1 sid = session_of st sid"
    using upload_keeps [OF u assms(3)] by (auto simp: session_of_def)
  have "ws_view sha256 (session_of st2 sid) = manifest_view ?man \<and> st_blobs st2 = st_blobs st1"
    using Apply_refines [OF a [unfolded res] k(1)] manifest_ok(1,2) [OF assms(1), of sha256] assms(4) k(2) by simp
  then show ?thesis using res k(1) manifest_ok(3) [OF assms(1), of sha256] by (simp add: blobs_ok_def)
qed

text \<open>A directory of one file, in an empty store.\<close>

definition demo_tree :: node where
  "demo_tree = NDir (Some [(''a'', NDir (Some [(''b'', NFile \<lparr>fi_Dev = 1, fi_Ino = 2, fi_Size = 2, fi_Mtime = 3, fi_X = True\<rparr> (Some ''hi''))]))])"

definition demo_host :: host where
  "demo_host = \<lparr>ho_now = 5, ho_disk = True, ho_write = (\<lambda>_. Written 7), ho_rec = RecWritten\<rparr>"

lemma demo_dir: "dir_ok [''home''] ''home'' demo_tree" "VFail \<notin> set (walk [] ''home'' demo_tree)"
  by (auto simp: dir_ok_def demo_tree_def is_dir_def readable_def plain_def)

subsection \<open>A sync that nothing disturbs succeeds\<close>

lemma paths_by_sum:
  fixes man :: "File list" and dir :: string
  assumes "sha \<in> fl_SHA ` set man"
  shows "\<exists>f \<in> set man. fl_SHA f = sha \<and> map_of (fold (\<lambda>f m. AList.update (fl_SHA f) (Join [dir, fl_Path f]) m) man []) sha = Some (Join [dir, fl_Path f])"
  using assms
proof (induction man rule: rev_induct)
  case (snoc f man)
  then show ?case by (cases "fl_SHA f = sha") (auto simp: AList.update_conv')
qed simp

lemma upload_all:
  assumes "\<forall>sha \<in> set shas. validSHA sha \<and> (\<exists>p d. map_of bySHA sha = Some p \<and> bytes_at p = Some d \<and> sha256 d = sha)"
    and "\<forall>u. reach u" and "ho_disk ho"
  shows "\<exists>st'. upload sha256 reach ho bytes_at bySHA shas st = (st', None) \<and> (\<forall>sha. HasBlob st' sha \<longleftrightarrow> HasBlob st sha \<or> sha \<in> set shas)"
  using assms(1)
proof (induction shas arbitrary: st)
  case (Cons sha shas)
  then obtain p d where sha: "validSHA sha" "map_of bySHA sha = Some p" "bytes_at p = Some d" "sha256 d = sha" by auto
  let ?st = "st\<lparr>st_blobs := AList.update sha d (st_blobs st)\<rparr>"
  have "PutBlobFrom sha256 sha d True (ho_disk ho) st = (?st, Inr (length d))" using sha assms(3) by (simp add: PutBlobFrom_def)
  then have step: "upload sha256 reach ho bytes_at bySHA (sha # shas) st = upload sha256 reach ho bytes_at bySHA shas ?st"
    using sha assms(2) by simp
  have "HasBlob ?st k \<longleftrightarrow> HasBlob st k \<or> k = sha" for k using sha(1) by (auto simp: HasBlob_def AList.update_conv')
  then show ?case using Cons.IH [of ?st] Cons.prems unfolding step by auto
qed simp

lemma apply_files_succeeds:
  "\<forall>f \<in> set files. safeRel (fl_Path f) \<noteq> None \<and> HasBlob st (fl_SHA f) \<Longrightarrow> \<forall>p. \<exists>t. wr p = Written t \<Longrightarrow> snd (apply_files wr st applied files a) = None"
proof (induction files arbitrary: a)
  case (Cons f files)
  obtain ws "next" wanted where a: "a = (ws, next, wanted)" by (cases a)
  obtain rel where "safeRel (fl_Path f) = Some rel" using Cons.prems(1) by auto
  moreover obtain t where "wr rel = Written t" using Cons.prems(2) by blast
  ultimately show ?case using Cons unfolding a by (auto simp: Let_def split: option.split)
qed simp

lemma HasBlob_blobs: "st_blobs st' = st_blobs st \<Longrightarrow> HasBlob st' = HasBlob st"
  by (simp add: HasBlob_def fun_eq_iff)

lemma Apply_succeeds:
  assumes "safeID sid" and "\<forall>f \<in> set files. safeRel (fl_Path f) \<noteq> None \<and> HasBlob st (fl_SHA f)" and "\<forall>p. \<exists>t. wr p = Written t"
  shows "\<exists>st'. Apply sid files prune now True wr rc st = (st', None)"
proof -
  obtain st1 p where w: "Workspace sid True now True st = (st1, Inr p)" "st_blobs st1 = st_blobs st" using assms(1) by (simp add: Workspace_def)
  then have "\<forall>f \<in> set files. safeRel (fl_Path f) \<noteq> None \<and> HasBlob st1 (fl_SHA f)" using assms(2) HasBlob_blobs [of st1 st] by simp
  from apply_files_succeeds [OF this assms(3), of "sd_applied (session_of st1 sid)" "(sd_ws (session_of st1 sid), [], [])"]
  obtain ws "next" wanted where "apply_files wr st1 (sd_applied (session_of st1 sid)) files (sd_ws (session_of st1 sid), [], []) = ((ws, next, wanted), None)"
    by (metis prod.collapse)
  then show ?thesis using w by (simp add: Apply_def)
qed

text \<open>The sums of the files of a directory.\<close>

definition sums_of :: "(string \<Rightarrow> string) \<Rightarrow> visit list \<Rightarrow> string set" where
  "sums_of sha256 vs = (\<lambda>(p, fi, d). sha256 (the d)) ` set (files_of vs)"

lemma Missing_length: "length (Missing man st) = card {k \<in> fl_SHA ` set man. validSHA k \<and> \<not> HasBlob st k}"
proof -
  have "length (Missing man st) = card (set (Missing man st))" by (intro distinct_card [symmetric]) (simp add: Missing_def)
  also have "set (Missing man st) = {k \<in> fl_SHA ` set man. validSHA k \<and> \<not> HasBlob st k}" by (auto simp: Missing_def)
  finally show ?thesis .
qed

text \<open>
  C15: a sync ends in success when nothing is in its way: the host is reachable and its disk works, the files are unchanged since they were hashed, sums are
  well-formed, and no path of the directory contains two dots in a row. It uploads each sum the store did not have once, and nothing else, and
  afterwards the store is missing nothing of the directory. One file named like \<^verbatim>\<open>a..b\<close> is enough for the host to refuse the whole directory.
\<close>

theorem Sync_succeeds:
  assumes "dir_ok ds name t" and "cache_ok sha256 (abs_path ds) (files_of (walk [] name t)) h"
    and "safeID sid" and "\<forall>u. reach u" and "ho_disk ho" and "\<forall>p. \<exists>s. ho_write ho p = Written s" and "\<forall>d. validSHA (sha256 d)"
    and "\<forall>(p, fi, d) \<in> set (files_of (walk [] name t)). \<not> Contains p ''..'' \<and> bytes_at (Join [abs_path ds, p]) = d"
  shows "\<exists>st' h'. Sync sha256 reach ho bytes_at (abs_path ds) name t sid h st =
      (st', h', Inr (length (files_of (walk [] name t)), card {k \<in> sums_of sha256 (walk [] name t). \<not> HasBlob st k})) \<and>
    (\<forall>k \<in> sums_of sha256 (walk [] name t). HasBlob st' k)"
proof -
  let ?fs = "files_of (walk [] name t)"
  let ?man = "sort_key fl_Path (map (entry_of sha256) ?fs)"
  let ?by = "fold (\<lambda>f m. AList.update (fl_SHA f) (Join [abs_path ds, fl_Path f]) m) ?man []"
  obtain k h1 where b: "buildManifest sha256 (abs_path ds) name t h = (?man, k, False, h1)" using buildManifest_spec [OF assms(1,2)] by blast
  have man: "validSHA (fl_SHA f) \<and> safeRel (fl_Path f) = Some (fl_Path f) \<and> (\<exists>d. bytes_at (Join [abs_path ds, fl_Path f]) = Some d \<and> sha256 d = fl_SHA f)"
    if "f \<in> set ?man" for f
  proof -
    from that obtain p fi d where x: "(p, fi, d) \<in> set ?fs" and f: "f = entry_of sha256 (p, fi, d)" by auto
    have d: "d \<noteq> None" "\<not> Contains p ''..''" "bytes_at (Join [abs_path ds, p]) = d" using x assms(1,8) by (auto simp: dir_ok_def readable_def)
    obtain es where "p = join_slash es" "es \<noteq> []" "\<forall>e \<in> set es. plain e" using dir_paths(1) [OF assms(1) x] by auto
    then have "p \<noteq> []" "\<not> HasPrefix p ''/''" using join_slash_relative by auto
    then show ?thesis using d assms(7) f by (auto simp: entry_of_file safeRel_def)
  qed
  have sums: "fl_SHA ` set ?man = sums_of sha256 (walk [] name t)" by (force simp: sums_of_def entry_of_file)
  have "\<forall>sha \<in> set (Missing ?man st). validSHA sha \<and> (\<exists>p d. map_of ?by sha = Some p \<and> bytes_at p = Some d \<and> sha256 d = sha)"
  proof
    fix sha assume m: "sha \<in> set (Missing ?man st)"
    then have "sha \<in> fl_SHA ` set ?man" by (auto simp: Missing_def)
    from paths_by_sum [OF this, of "abs_path ds"] obtain f where f: "f \<in> set ?man" "fl_SHA f = sha" "map_of ?by sha = Some (Join [abs_path ds, fl_Path f])" by blast
    then show "validSHA sha \<and> (\<exists>p d. map_of ?by sha = Some p \<and> bytes_at p = Some d \<and> sha256 d = sha)" using man [OF f(1)] by auto
  qed
  from upload_all [OF this assms(4,5), of st] obtain st1 where u: "upload sha256 reach ho bytes_at ?by (Missing ?man st) st = (st1, None)"
    and has: "HasBlob st1 sha \<longleftrightarrow> HasBlob st sha \<or> sha \<in> set (Missing ?man st)" for sha by blast
  have all: "HasBlob st1 (fl_SHA f)" if "f \<in> set ?man" for f using has [of "fl_SHA f"] man [OF that] that by (auto simp: Missing_def)
  obtain st2 where a: "Apply sid ?man True (ho_now ho) True (ho_write ho) (ho_rec ho) st1 = (st2, None)"
    using Apply_succeeds [OF assms(3) _ assms(6)] all man by blast
  have "st_blobs st2 = st_blobs st1" using Apply_blobs [of sid ?man True "ho_now ho" True "ho_write ho" "ho_rec ho" st1] a by simp
  then have "\<forall>k \<in> sums_of sha256 (walk [] name t). HasBlob st2 k" unfolding sums [symmetric] using all HasBlob_blobs [of st2 st1] by auto
  moreover have "length (Missing ?man st) = card {k \<in> sums_of sha256 (walk [] name t). \<not> HasBlob st k}"
    unfolding Missing_length sums using assms(7) by (intro arg_cong [where f = card]) (force simp: sums_of_def)
  ultimately show ?thesis using b u a assms(4,5) by (simp add: Sync_def Let_def)
qed

theorem Sync_succeeds_witness:
  "\<exists>st' h'. Sync demo_sum (\<lambda>_. True) demo_host (\<lambda>_. Some ''hi'') (abs_path [''home'']) ''home'' demo_tree ''s1'' None (Open_store ''/var'') = (st', h', Inr (1, 1))"
proof -
  have v: "\<forall>d. validSHA (demo_sum d)" by (auto simp: demo_sum_def validSHA_def less_eq_char_def list_all_iff)
  have fs: "files_of (walk [] ''home'' demo_tree) = [(''a/b'', \<lparr>fi_Dev = 1, fi_Ino = 2, fi_Size = 2, fi_Mtime = 3, fi_X = True\<rparr>, Some ''hi'')]"
    by (simp add: demo_tree_def)
  have s: "safeID ''s1''" "\<not> Contains ''a/b'' ''..''" by code_simp+
  have "{k \<in> sums_of demo_sum (walk [] ''home'' demo_tree). \<not> HasBlob (Open_store ''/var'') k} = {demo_sum ''hi''}"
    by (auto simp: sums_of_def fs HasBlob_def Open_store_def)
  then show ?thesis
    using Sync_succeeds [OF demo_dir(1) _ s(1) _ _ _ v, of None "\<lambda>_. True" demo_host "\<lambda>_. Some ''hi''" "Open_store ''/var''"] s(2)
    by (auto simp: fs cache_ok_def demo_host_def)
qed

subsection \<open>Pulling\<close>

lemma clean_elems_rooted:
  "\<forall>e \<in> set out. plain e \<Longrightarrow> \<forall>e \<in> set es. CHR ''/'' \<notin> set e \<Longrightarrow> \<forall>e \<in> set (clean_elems True out es). plain e"
proof (induction es arbitrary: out)
  case (Cons e es)
  consider "e = [] \<or> e = ''.''" | "e = ''..''" | "plain e" using Cons.prems(2) by (auto simp: plain_def)
  then show ?case
  proof cases
    case 2
    have "\<exists>out'. clean_elems True out (e # es) = clean_elems True out' es \<and> (\<forall>e \<in> set out'. plain e)"
      using 2 Cons.prems(1) by (cases out) (auto simp: plain_def)
    then show ?thesis using Cons.prems(2) Cons.IH by (simp del: clean_elems.simps) metis
  next
    case 3
    then have "clean_elems True out (e # es) = clean_elems True (e # out) es" by (auto simp: plain_def)
    then show ?thesis using Cons.IH [of "e # out"] Cons.prems 3 by (simp del: clean_elems.simps)
  qed (use Cons in auto)
qed simp

text \<open>A rooted path is cleaned to an absolute path of plain elements, dot-dots and all.\<close>

lemma Clean_rooted: "HasPrefix p ''/'' \<Longrightarrow> \<exists>es. Clean p = abs_path es \<and> (\<forall>e \<in> set es. plain e)"
  using clean_elems_rooted [of "[]" "parts (CHR ''/'') p"] parts_byte_free [of _ "CHR ''/''" p]
  by (intro exI [of _ "clean_elems True [] (parts (CHR ''/'') p)"]) (auto simp: Clean_def Split_parts abs_path_def HasPrefix_def)

lemma Join_rooted: "\<exists>es. Join [abs_path ds, n] = abs_path es \<and> (\<forall>e \<in> set es. plain e)"
proof -
  have "Join [abs_path ds, n] = Clean (if n = [] then abs_path ds else abs_path ds @ ''/'' @ n)" by (simp add: Join_def abs_path_def Let_def)
  then show ?thesis using Clean_rooted by (simp add: HasPrefix_def abs_path_def)
qed

lemma Clean_abs_self: "\<forall>e \<in> set ds. plain e \<Longrightarrow> Clean (abs_path ds) = abs_path ds"
proof -
  assume ds: "\<forall>e \<in> set ds. plain e"
  then have "''..'' \<notin> set (parts (CHR ''/'') (abs_path ds))" using plain_not_dotdot [of ds] by (auto simp: parts_abs)
  then show ?thesis using elems_abs [OF ds] by (simp add: Clean_elems) (simp add: abs_path_def HasPrefix_def)
qed

text \<open>Where a pulled file goes: under the directory, one or more plain elements down.\<close>

definition lands_in :: "string list \<Rightarrow> string \<Rightarrow> bool" where
  "lands_in ds p \<longleftrightarrow> (\<exists>fs. p = abs_path (ds @ fs) \<and> fs \<noteq> [] \<and> (\<forall>e \<in> set fs. plain e))"

lemma accepted_lands:
  assumes "\<forall>e \<in> set ds. plain e" and "HasPrefix (Join [abs_path ds, n]) (Clean (abs_path ds) @ ''/'')"
  shows "lands_in ds (Join [abs_path ds, n])"
proof -
  obtain es where es: "Join [abs_path ds, n] = abs_path es" "\<forall>e \<in> set es. plain e" using Join_rooted by blast
  obtain q where q: "abs_path es = abs_path ds @ ''/'' @ q" using assms(2) Clean_abs_self [OF assms(1)] es by (auto simp: HasPrefix_def prefix_def)
  then have "es = ds @ elems q" using elems_abs [OF es(2)] elems_abs [OF assms(1)] elems_append [of "abs_path ds" q] by simp
  moreover have "abs_path es \<noteq> abs_path ds" using q by auto
  ultimately show ?thesis using es unfolding lands_in_def by (intro exI [of _ "elems q"]) auto
qed

lemma pull_lands:
  "\<forall>e \<in> set ds. plain e \<Longrightarrow> \<forall>(p, d) \<in> set acc. lands_in ds p \<Longrightarrow>
    \<forall>(p, d) \<in> set (fst (pull_entries create (abs_path ds) entries acc)). lands_in ds p"
proof (induction create "abs_path ds" entries acc rule: pull_entries.induct)
  case (2 create name d es acc)
  then show ?case using accepted_lands [OF 2(3), of name] by (auto simp: Let_def)
qed auto

lemma pull_clean:
  assumes "\<forall>e \<in> set ds. plain e" and "ds \<noteq> []" and "\<forall>p. create p"
    and "\<forall>(n, d) \<in> set entries. \<exists>es. n = join_slash es \<and> es \<noteq> [] \<and> (\<forall>e \<in> set es. plain e)"
  shows "pull_entries create (abs_path ds) entries acc = (acc @ map (\<lambda>(n, d). (abs_path ds @ ''/'' @ n, d)) entries, False)"
  using assms(4)
proof (induction entries arbitrary: acc)
  case (Cons x entries)
  obtain n d where x: "x = (n, d)" by (cases x)
  obtain es where n: "n = join_slash es" "es \<noteq> []" "\<forall>e \<in> set es. plain e" using Cons.prems x by auto
  have pj: "parts (CHR ''/'') n = es" using n by (auto intro!: parts_join simp: plain_def)
  have "Join [abs_path ds, n] = abs_path (ds @ es)"
    using Join_abs [OF assms(1), of n] join_slash_relative [OF n(2,3)] n(1) pj plain_not_dotdot [OF n(3)] elems_join [OF n(3)] by simp
  then have j: "Join [abs_path ds, n] = abs_path ds @ ''/'' @ n" using n assms(2) by (simp add: abs_path_def join_slash_append)
  then show ?case using Cons x Clean_abs_self [OF assms(1)] assms(3) by (simp add: Let_def HasPrefix_def)
qed simp

text \<open>
  C30: whatever archive a host sends, with whatever entry names, every file \<^verbatim>\<open>Pull\<close> writes is strictly inside the directory it was given. And
  nothing of an honest archive is lost: the files a \<^verbatim>\<open>Fetch\<close> collects from a workspace are written to the same paths under the directory (any directory
  but the root of the file system, where every entry is skipped), with the same bytes.
\<close>

theorem Pull_confined_and_complete:
  assumes "\<forall>e \<in> set ds. plain e"
  shows "(\<forall>(p, d) \<in> set (fst (Pull create (abs_path ds) archive)). lands_in ds p) \<and>
    (ds \<noteq> [] \<and> (\<forall>p. create p) \<and> Fetch glob sid globs st = Inr entries \<and>
       (\<forall>n \<in> dom (map_of (sd_ws (session_of st sid))). \<exists>es. n = join_slash es \<and> es \<noteq> [] \<and> (\<forall>e \<in> set es. plain e)) \<longrightarrow>
     Pull create (abs_path ds) entries = (map (\<lambda>(n, d). (abs_path ds @ ''/'' @ n, d)) entries, False))"
proof -
  have "\<forall>(n, d) \<in> set entries. n \<in> dom (map_of (sd_ws (session_of st sid)))" if "Fetch glob sid globs st = Inr entries"
    using that by (auto simp: Fetch_def Let_def split: if_splits option.splits)
  then show ?thesis using pull_lands [OF assms, of "[]"] pull_clean [OF assms, of create entries "[]"] unfolding Pull_def by fastforce
qed

theorem Pull_confined_and_complete_witness:
  "list_all (\<lambda>(p, d). lands_in [''out''] p) (fst (Pull (\<lambda>_. True) (abs_path [''out'']) [(''../../etc/passwd'', ''x''), (''m/w'', ''y'')])) \<and>
   Pull (\<lambda>_. True) (abs_path [''out'']) [(''m/w'', ''y'')] = ([(''/out/m/w'', ''y'')], False)"
proof -
  define st where "st = (Open_store ''/v'')\<lparr>st_sessions := [(''s'', \<lparr>sd_ws = [(''m/w'', copied ''y'' False 1)], sd_applied = []\<rparr>)]\<rparr>"
  have f: "Fetch (\<lambda>g. [g]) ''s'' [''m/w''] st = Inr [(''m/w'', ''y'')]" unfolding st_def by code_simp
  have d: "\<forall>n \<in> dom (map_of (sd_ws (session_of st ''s''))). \<exists>es. n = join_slash es \<and> es \<noteq> [] \<and> (\<forall>e \<in> set es. plain e)"
    by (auto simp: st_def session_of_def plain_def intro!: exI [of _ "[''m'', ''w'']"] split: if_splits)
  show ?thesis
    using Pull_confined_and_complete [of "[''out'']" "\<lambda>_. True" "[(''../../etc/passwd'', ''x''), (''m/w'', ''y'')]" "\<lambda>g. [g]" "''s''" "[''m/w'']" st "[(''m/w'', ''y'')]"] f d
    by (simp add: plain_def abs_path_def list_all_iff)
qed

end
