(* ===== verification/Cli.thy ===== *)
theory Cli
  imports Daemon Remote
begin

text \<open>
  Package \<^verbatim>\<open>cmd/gmux\<close>: the command line (\<^verbatim>\<open>flags.go\<close>), the hosts a machine without a GPU uses (\<^verbatim>\<open>hosts.go\<close>) and the commands (\<^verbatim>\<open>main.go\<close>). The
  environment, the contents of \<^verbatim>\<open>remotes.json\<close>, whether the local socket answers and what each host reports of its cards are arguments. What is
  printed is the cells of its rows; the alignment (\<^verbatim>\<open>text/tabwriter\<close>) is left out.
\<close>

subsection \<open>Flags\<close>

record flagset =
  fs_kv :: "(string, string) gomap"
  fs_set :: "(string, bool) gomap"
  fs_multi :: "(string, string list) gomap"
  fs_rest :: "string list"

definition is_flag :: "string \<Rightarrow> bool" where
  "is_flag a \<longleftrightarrow> 2 < length a \<and> take 2 a = ''--''"

text \<open>\<^verbatim>\<open>f.multi[k] = append(f.multi[k], v)\<close>; \<^verbatim>\<open>multiVals\<close> reads it.\<close>

definition multiVals :: "flagset \<Rightarrow> string \<Rightarrow> string list" where
  "multiVals f key = (case map_of (fs_multi f) key of Some vs \<Rightarrow> vs | None \<Rightarrow> [])"

definition set_flag :: "string \<Rightarrow> flagset \<Rightarrow> flagset" where
  "set_flag k f = f\<lparr>fs_set := AList.update k True (fs_set f)\<rparr>"

definition set_value :: "string \<Rightarrow> string \<Rightarrow> flagset \<Rightarrow> flagset" where
  "set_value k v f = (set_flag k f)\<lparr>fs_kv := AList.update k v (fs_kv f), fs_multi := AList.update k (multiVals f k @ [v]) (fs_multi f)\<rparr>"

fun indexByte_from :: "nat \<Rightarrow> string \<Rightarrow> char \<Rightarrow> int" where
  "indexByte_from i [] b = - 1"
| "indexByte_from i (c # cs) b = (if c = b then int i else indexByte_from (Suc i) cs b)"

definition indexByte :: "string \<Rightarrow> char \<Rightarrow> int" where
  "indexByte s b = indexByte_from 0 s b"

fun flags_loop :: "string list \<Rightarrow> flagset \<Rightarrow> flagset" where
  "flags_loop [] f = f"
| "flags_loop (a # args) f =
     (if a = ''--'' then f\<lparr>fs_rest := args\<rparr>
      else if is_flag a then
        (let key = drop 2 a; eq = indexByte key (CHR ''='')
         in if eq \<ge> 0 then flags_loop args (set_value (take (nat eq) key) (drop (nat eq + 1) key) f)
            else case args of
                [] \<Rightarrow> flags_loop args (set_flag key f)
              | b # args' \<Rightarrow> if b \<noteq> ''--'' \<and> \<not> is_flag b then flags_loop args' (set_value key b f) else flags_loop args (set_flag key f))
      else flags_loop args f)"

definition flags :: "string list \<Rightarrow> flagset" where
  "flags args = flags_loop args \<lparr>fs_kv = [], fs_set = [], fs_multi = [], fs_rest = []\<rparr>"

definition fs_str :: "flagset \<Rightarrow> string \<Rightarrow> string \<Rightarrow> string" where
  "fs_str f key def = (case map_of (fs_kv f) key of Some v \<Rightarrow> v | None \<Rightarrow> def)"

definition fs_bool :: "flagset \<Rightarrow> string \<Rightarrow> bool" where
  "fs_bool f key = (case map_of (fs_set f) key of Some b \<Rightarrow> b | None \<Rightarrow> False)"

definition fs_intv :: "flagset \<Rightarrow> string \<Rightarrow> int \<Rightarrow> int" where
  "fs_intv f key def = (case map_of (fs_kv f) key of Some v \<Rightarrow> (case Atoi v of Some n \<Rightarrow> n | None \<Rightarrow> def) | None \<Rightarrow> def)"

definition fs_float :: "flagset \<Rightarrow> string \<Rightarrow> float64 \<Rightarrow> float64" where
  "fs_float f key def = (case map_of (fs_kv f) key of Some v \<Rightarrow> (case ParseFloat v of Some x \<Rightarrow> x | None \<Rightarrow> def) | None \<Rightarrow> def)"

subsection \<open>The configured hosts\<close>

record hostConfig =
  hg_Default :: string
  hg_Remotes :: "(string, string) gomap"
  hg_path :: string

text \<open>What reading and decoding \<^verbatim>\<open>remotes.json\<close> gives; a key that is absent is \<open>None\<close>, and so is a null map.\<close>

datatype cfg_file = NoFile | Unreadable | EmptyFile | BadJSON | Decoded "string option" "(string, string) gomap option"

datatype cli_error =
    ConfigUnreadable
  | ConfigBad string
  | SaveFailed
  | Usage_error string
  | BadTarget
  | NoHostInTarget
  | CouldNotReach string
  | NoRemote string
  | NoHostConfigured
  | NoneReachable
  | CommandRequired
  | ShareRequired
  | MemError share_error
  | HostError

definition configPath :: "string \<Rightarrow> string option \<Rightarrow> string \<Rightarrow> string" where
  "configPath var dir home = (if var \<noteq> [] then var
     else Join [case dir of Some d \<Rightarrow> d | None \<Rightarrow> Join [home, ''.config''], ''gmux'', ''remotes.json''])"

definition loadHosts :: "string \<Rightarrow> cfg_file \<Rightarrow> cli_error + hostConfig" where
  "loadHosts path cf =
     (let h = \<lparr>hg_Default = [], hg_Remotes = [], hg_path = path\<rparr>
      in case cf of
          Unreadable \<Rightarrow> Inl ConfigUnreadable
        | NoFile \<Rightarrow> Inr h
        | EmptyFile \<Rightarrow> Inr h
        | BadJSON \<Rightarrow> Inl (ConfigBad path)
        | Decoded def rem \<Rightarrow> Inr (h\<lparr>hg_Default := (case def of Some d \<Rightarrow> d | None \<Rightarrow> []),
            hg_Remotes := (case rem of Some m \<Rightarrow> m | None \<Rightarrow> [])\<rparr>))"

text \<open>\<^verbatim>\<open>save\<close>: what the file holds afterwards, when the directory can be made and the file written (\<open>disk\<close>). An empty default is omitted.\<close>

definition save_hosts :: "bool \<Rightarrow> hostConfig \<Rightarrow> cli_error + cfg_file" where
  "save_hosts disk h = (if disk then Inr (Decoded (if hg_Default h = [] then None else Some (hg_Default h)) (Some (hg_Remotes h))) else Inl SaveFailed)"

definition host_names :: "hostConfig \<Rightarrow> string list" where
  "host_names h = (let out = sort (filter (\<lambda>n. n \<noteq> hg_Default h) (map fst (hg_Remotes h)))
     in if map_of (hg_Remotes h) (hg_Default h) \<noteq> None then hg_Default h # out else out)"

definition host_target :: "hostConfig \<Rightarrow> string \<Rightarrow> string" where
  "host_target h nameOrTarget = (case map_of (hg_Remotes h) nameOrTarget of Some t \<Rightarrow> t | None \<Rightarrow> nameOrTarget)"

definition hostOf :: "string \<Rightarrow> string" where
  "hostOf target =
     (let t = (let i = LastIndexByte target (CHR ''@'') in if i \<ge> 0 then drop (nat i + 1) target else target);
          j = Index t ''#''
      in if j \<ge> 0 then take (nat j) t else t)"

fun join_with :: "string \<Rightarrow> string list \<Rightarrow> string" where
  "join_with sep [] = []"
| "join_with sep [x] = x"
| "join_with sep (x # y # ys) = x @ sep @ join_with sep (y # ys)"

definition summarize :: "CardView list \<Rightarrow> string" where
  "summarize cv =
     (let parts = map (\<lambda>c. cv_Name c @ '' ('' @ Itoa (cv_FreeSeats c) @ ''/'' @ Itoa (cv_Seats c) @ '' seats free)'') cv
      in if parts = [] then ''no GPUs'' else join_with '', '' parts)"

text \<open>
  Asking a target for its cards: \<open>ask\<close> is what a client's \<^verbatim>\<open>Cards\<close> returns. A target without a host is refused by \<^verbatim>\<open>Dial\<close>.
\<close>

definition cards_at :: "(string \<Rightarrow> string) \<Rightarrow> (Client \<Rightarrow> cli_error + CardView list) \<Rightarrow> string \<Rightarrow> cli_error + CardView list" where
  "cards_at uni ask target = (case Dial uni target of None \<Rightarrow> Inl NoHostInTarget | Some c \<Rightarrow> ask c)"

datatype remote_out = Added string string | Saved | Listing "(string \<times> string \<times> string \<times> string) list"

text \<open>\<^verbatim>\<open>cmdRemote\<close>: the error or what is printed, and the file if it was written.\<close>

definition cmdRemote :: "(string \<Rightarrow> string) \<Rightarrow> (Client \<Rightarrow> cli_error + CardView list) \<Rightarrow> string \<Rightarrow> cfg_file \<Rightarrow> bool \<Rightarrow> string list \<Rightarrow>
    (cli_error + remote_out) \<times> cfg_file option" where
  "cmdRemote uni ask path cf disk args0 =
     (case loadHosts path cf of
        Inl e \<Rightarrow> (Inl e, None)
      | Inr h \<Rightarrow>
          let args = (if args0 = [] then [''ls''] else args0);
              store = (\<lambda>h out. case save_hosts disk h of Inl e \<Rightarrow> (Inl e, None) | Inr f \<Rightarrow> (Inr out, Some f))
          in if hd args = ''add'' then
               (let fs = flags (tl args)
                in if length (fs_rest fs) < 2 \<and> length args < 3 then (Inl (Usage_error ''add''), None)
                   else let name = args ! 1; target = args ! 2
                        in if \<not> Contains target ''@'' \<or> \<not> Contains target ''#'' then (Inl BadTarget, None)
                           else case Dial uni target of
                               None \<Rightarrow> (Inl NoHostInTarget, None)
                             | Some c \<Rightarrow>
                                 (case ask c of
                                    Inl e \<Rightarrow> (Inl (CouldNotReach name), None)
                                  | Inr cv \<Rightarrow>
                                      let h1 = h\<lparr>hg_Remotes := AList.update name target (hg_Remotes h)\<rparr>;
                                          h2 = (if hg_Default h1 = [] \<or> fs_bool fs ''default'' then h1\<lparr>hg_Default := name\<rparr> else h1)
                                      in store h2 (Added name (summarize cv))))
             else if hd args = ''rm'' then
               (if length args < 2 then (Inl (Usage_error ''rm''), None)
                else let h1 = h\<lparr>hg_Remotes := AList.delete (args ! 1) (hg_Remotes h)\<rparr>;
                         h2 = (if hg_Default h1 = args ! 1 then h1\<lparr>hg_Default := []\<rparr> else h1)
                     in store h2 Saved)
             else if hd args = ''default'' then
               (if length args < 2 then (Inl (Usage_error ''default''), None)
                else if map_of (hg_Remotes h) (args ! 1) = None then (Inl (NoRemote (args ! 1)), None)
                else store (h\<lparr>hg_Default := args ! 1\<rparr>) Saved)
             else if hd args = ''ls'' then
               (Inr (Listing (map (\<lambda>n. let t = the (map_of (hg_Remotes h) n) in
                   (if n = hg_Default h then ''*'' else '' '', n, hostOf t,
                    case Dial uni t of None \<Rightarrow> ''unreachable''
                    | Some c \<Rightarrow> (case ask c of Inr cv \<Rightarrow> summarize cv | Inl e \<Rightarrow> ''unreachable: '')))
                 (host_names h))), None)
             else (Inl (Usage_error []), None))"

subsection \<open>Where a command goes\<close>

record cli_env =
  ev_REMOTE :: string
  ev_SOCKET :: string
  ev_STATE :: string
  ev_USER :: string

definition stateDir :: "cli_env \<Rightarrow> string" where
  "stateDir ev = (if ev_STATE ev \<noteq> [] then ev_STATE ev else ''/tmp/gmux'')"

definition sockPath :: "cli_env \<Rightarrow> string" where
  "sockPath ev = (if ev_SOCKET ev \<noteq> [] then ev_SOCKET ev else Join [stateDir ev, ''gmux.sock''])"

definition explicitRemote :: "cli_env \<Rightarrow> flagset \<Rightarrow> hostConfig \<Rightarrow> string" where
  "explicitRemote ev fs h = (let r = fs_str fs ''remote'' (ev_REMOTE ev) in if r \<noteq> [] then host_target h r else [])"

datatype controller = LocalSock string | RemoteHost Client

definition pick :: "(string \<Rightarrow> string) \<Rightarrow> cli_env \<Rightarrow> cli_error + hostConfig \<Rightarrow> bool \<Rightarrow> flagset \<Rightarrow> cli_error + controller \<times> string" where
  "pick uni ev load localUp fs =
     (if fs_bool fs ''local'' then Inr (LocalSock (sockPath ev), ''local'')
      else case load of
          Inl e \<Rightarrow> Inl e
        | Inr h \<Rightarrow>
            let t = explicitRemote ev fs h
            in if t \<noteq> [] then (case Dial uni t of None \<Rightarrow> Inl NoHostInTarget | Some c \<Rightarrow> Inr (RemoteHost c, hostOf t))
               else if localUp then Inr (LocalSock (sockPath ev), ''local'')
               else case host_names h of
                   [] \<Rightarrow> Inl NoHostConfigured
                 | n # _ \<Rightarrow> (case Dial uni (the (map_of (hg_Remotes h) n)) of None \<Rightarrow> Inl NoHostInTarget | Some c \<Rightarrow> Inr (RemoteHost c, n)))"

text \<open>A candidate host: its name, and its cards or the error.\<close>

type_synonym candidate = "string \<times> (cli_error + CardView list)"

text \<open>\<^verbatim>\<open>frac*float64(card.Seats) - 1e-9\<close>, rounded up: what a host would have to have free.\<close>

definition host_need :: "float64 \<Rightarrow> CardView \<Rightarrow> int" where
  "host_need fraction cv = f64_to_int (f64_ceil (f64_sub (f64_mul fraction (f64_of_int (cv_Seats cv))) seat_eps))"

definition best_card :: "float64 \<Rightarrow> int \<Rightarrow> int \<Rightarrow> CardView \<Rightarrow> int \<times> int \<Rightarrow> int \<times> int" where
  "best_card fraction memMiB i cv acc =
     (case acc of (best, bestFree) \<Rightarrow>
        let nd = host_need fraction cv;
            mem = (if memMiB = 0 then DefaultMemMiB nd (cv_Seats cv) (cv_MemMiB cv) else memMiB)
        in if cv_FreeSeats cv \<ge> nd \<and> cv_FreeMemMiB cv \<ge> mem \<and> cv_FreeSeats cv - nd > bestFree
           then (i, cv_FreeSeats cv - nd) else (best, bestFree))"

fun best_loop :: "float64 \<Rightarrow> int \<Rightarrow> int \<Rightarrow> candidate list \<Rightarrow> int \<times> int \<Rightarrow> int \<times> int" where
  "best_loop fraction memMiB i [] acc = acc"
| "best_loop fraction memMiB i ((name, Inl e) # cands) acc = best_loop fraction memMiB (i + 1) cands acc"
| "best_loop fraction memMiB i ((name, Inr cards) # cands) acc = best_loop fraction memMiB (i + 1) cands (fold (best_card fraction memMiB i) cards acc)"

definition bestHost :: "candidate list \<Rightarrow> float64 \<Rightarrow> int \<Rightarrow> int" where
  "bestHost cands fraction memMiB = fst (best_loop fraction memMiB 0 cands (- 1, - 1))"

text \<open>The hosts are asked in parallel; each answer has its own place, so the order does not matter.\<close>

definition candidates :: "(string \<Rightarrow> string) \<Rightarrow> (Client \<Rightarrow> cli_error + CardView list) \<Rightarrow> hostConfig \<Rightarrow> candidate list" where
  "candidates uni ask h = map (\<lambda>n. (n, cards_at uni ask (the (map_of (hg_Remotes h) n)))) (host_names h)"

definition placeRemote :: "(string \<Rightarrow> string) \<Rightarrow> (Client \<Rightarrow> cli_error + CardView list) \<Rightarrow> hostConfig \<Rightarrow> float64 \<Rightarrow> int \<Rightarrow> cli_error + string \<times> string" where
  "placeRemote uni ask h fraction memMiB =
     (let cands = candidates uni ask h; i = bestHost cands fraction memMiB
      in if i \<ge> 0 then (let n = host_names h ! nat i in Inr (n, the (map_of (hg_Remotes h) n)))
         else case find (\<lambda>(n, r). \<not> isl r) cands of
             Some (n, _) \<Rightarrow> Inr (n, the (map_of (hg_Remotes h) n))
           | None \<Rightarrow> Inl NoneReachable)"

subsection \<open>The commands\<close>

record ExecRequest =
  ex_Command :: "string list"
  ex_Share :: float64
  ex_MemMiB :: int
  ex_Name :: string
  ex_Allow :: "string list"
  ex_DenyNet :: bool
  ex_Wait :: bool

definition parse_mem_flag :: "(string \<Rightarrow> string) \<Rightarrow> flagset \<Rightarrow> cli_error + int" where
  "parse_mem_flag uni fs = (let v = fs_str fs ''mem'' [] in
     if v = [] then Inr 0 else case ParseMem uni v of Inl e \<Rightarrow> Inl (MemError e) | Inr m \<Rightarrow> Inr m)"

definition sessionFor :: "(string \<Rightarrow> string) \<Rightarrow> string \<Rightarrow> string" where
  "sessionFor sha256 dir = ''ws'' @ take 12 (sha256 dir)"

text \<open>What \<^verbatim>\<open>run\<close> does: it submits to the local daemon, or runs on a host (its name, target, session, request and what to pull).\<close>

datatype run_action = SubmitLocal string SubmitRequest | RunRemote string string string ExecRequest "string list"

definition remote_action :: "(string \<Rightarrow> string) \<Rightarrow> string \<Rightarrow> string \<Rightarrow> string \<Rightarrow> flagset \<Rightarrow> float64 \<Rightarrow> int \<Rightarrow> run_action" where
  "remote_action sha256 dir name target fs fraction mem =
     RunRemote name target (fs_str fs ''session'' (sessionFor sha256 dir))
       \<lparr>ex_Command = fs_rest fs, ex_Share = fraction, ex_MemMiB = mem, ex_Name = fs_str fs ''name'' [], ex_Allow = multiVals fs ''allow'',
        ex_DenyNet = fs_bool fs ''deny-net'', ex_Wait = fs_bool fs ''wait''\<rparr> (multiVals fs ''pull'')"

definition local_action :: "cli_env \<Rightarrow> string option \<Rightarrow> flagset \<Rightarrow> float64 \<Rightarrow> int \<Rightarrow> run_action" where
  "local_action ev cwd fs fraction mem =
     SubmitLocal (sockPath ev)
       \<lparr>sr_Command = fs_rest fs, sr_Name = fs_str fs ''name'' [], sr_Owner = ev_USER ev, sr_Share = fraction, sr_MemMiB = mem,
        sr_GPUs = fs_intv fs ''gpus'' 0, sr_Priority = fs_intv fs ''priority'' 0, sr_Preemptible = fs_bool fs ''preemptible'',
        sr_Burst = fs_bool fs ''burst'', sr_Wait = fs_bool fs ''wait'', sr_Allow = multiVals fs ''allow'', sr_DenyNet = fs_bool fs ''deny-net'',
        sr_Dir = (case cwd of Some d \<Rightarrow> d | None \<Rightarrow> [])\<rparr>"

definition run_cmd :: "(string \<Rightarrow> string) \<Rightarrow> (string \<Rightarrow> string) \<Rightarrow> (Client \<Rightarrow> cli_error + CardView list) \<Rightarrow> cli_env \<Rightarrow> cli_error + hostConfig \<Rightarrow> bool \<Rightarrow>
    string option \<Rightarrow> string list \<Rightarrow> cli_error + run_action" where
  "run_cmd uni sha256 ask ev load localUp cwd args =
     (let fs = flags args; fraction = fs_float fs ''share'' (Fin 0); dir = (case cwd of Some d \<Rightarrow> d | None \<Rightarrow> [])
      in if fs_rest fs = [] then Inl CommandRequired
         else if f64_le fraction (Fin 0) then Inl ShareRequired
         else case parse_mem_flag uni fs of
             Inl e \<Rightarrow> Inl e
           | Inr mem \<Rightarrow>
               if fs_bool fs ''local'' then Inr (local_action ev cwd fs fraction mem)
               else case load of
                   Inl e \<Rightarrow> Inl e
                 | Inr h \<Rightarrow>
                     let t = explicitRemote ev fs h
                     in if t \<noteq> [] then Inr (remote_action sha256 dir (hostOf t) t fs fraction mem)
                        else if \<not> localUp \<and> hg_Remotes h \<noteq> [] then
                          (case placeRemote uni ask h fraction mem of
                             Inl e \<Rightarrow> Inl e
                           | Inr (name, t) \<Rightarrow> Inr (remote_action sha256 dir name t fs fraction mem))
                        else Inr (local_action ev cwd fs fraction mem))"

definition resize_cmd :: "(string \<Rightarrow> string) \<Rightarrow> cli_env \<Rightarrow> cli_error + hostConfig \<Rightarrow> bool \<Rightarrow> string list \<Rightarrow> cli_error + controller \<times> string \<times> float64 \<times> int" where
  "resize_cmd uni ev load localUp args =
     (case args of
        [] \<Rightarrow> Inl (Usage_error ''resize'')
      | jid # args' \<Rightarrow>
          let fs = flags args'
          in case parse_mem_flag uni fs of
              Inl e \<Rightarrow> Inl e
            | Inr mem \<Rightarrow> (case pick uni ev load localUp fs of Inl e \<Rightarrow> Inl e | Inr (c, _) \<Rightarrow> Inr (c, jid, fs_float fs ''share'' (Fin 0), mem)))"

definition stop_cmd :: "(string \<Rightarrow> string) \<Rightarrow> cli_env \<Rightarrow> cli_error + hostConfig \<Rightarrow> bool \<Rightarrow> string list \<Rightarrow> cli_error + controller \<times> string" where
  "stop_cmd uni ev load localUp args =
     (case args of
        [] \<Rightarrow> Inl (Usage_error ''stop'')
      | jid # args' \<Rightarrow> (case pick uni ev load localUp (flags args') of Inl e \<Rightarrow> Inl e | Inr (c, _) \<Rightarrow> Inr (c, jid)))"

subsection \<open>What is printed\<close>

definition capsLine :: "Caps \<Rightarrow> string" where
  "capsLine c = (let on = (if cp_Concurrent c then [''concurrent''] else []) @ (if cp_ComputeCap c then [''compute cap''] else []) @
       (if cp_MemoryCap c then [''memory cap''] else []) @ (if cp_Checkpoint c then [''checkpoint''] else [])
     in if on = [] then ''admission only'' else join_with '', '' on)"

definition dash :: "string list \<Rightarrow> string" where
  "dash vals = (case find (\<lambda>v. v \<noteq> []) vals of Some v \<Rightarrow> v | None \<Rightarrow> ''-'')"

definition job_state :: "Job \<Rightarrow> string" where
  "job_state j = (case jb_ExitCode j of
     Some code \<Rightarrow> if jb_State j = ''exited'' then ''exited('' @ Itoa code @ '')'' else jb_State j
   | None \<Rightarrow> jb_State j)"

definition cardsOf :: "Job \<Rightarrow> string" where
  "cardsOf j = (case jb_Placement j of None \<Rightarrow> ''-'' | Some pl \<Rightarrow> join_with '','' (map (\<lambda>s. Itoa (sl_Card s)) (pl_Slots pl)))"

text \<open>\<^verbatim>\<open>%.0f%%\<close> of a share times 100.\<close>

fun percent :: "float64 \<Rightarrow> string" where
  "percent (Fin q) = (if rhe q < 0 \<or> q < 0 then ''-'' else []) @ itoa_nat (nat \<bar>rhe q\<bar>) @ ''%''"
| "percent PInf = ''+Inf%''"
| "percent NInf = ''-Inf%''"
| "percent NaN = ''NaN%''"

definition ps_rows :: "Job list \<Rightarrow> string list list" where
  "ps_rows jobs = map (\<lambda>j. [jb_ID j, dash [jb_Name j], job_state j, percent (f64_mul (jb_Share j) (Fin 100)), cardsOf j, join_with '' '' (jb_Command j)]) jobs"

text \<open>What \<^verbatim>\<open>top\<close> shows: the jobs on each card.\<close>

definition on_card :: "Job list \<Rightarrow> int \<Rightarrow> string list" where
  "on_card jobs idx = concat (map (\<lambda>j. if jb_State j = ''running'' then
       (case jb_Placement j of None \<Rightarrow> []
        | Some pl \<Rightarrow> map (\<lambda>s. dash [jb_Name j, jb_ID j] @ ''('' @ percent (f64_mul (sl_GrantedShare s) (Fin 100)) @ '')'') (filter (\<lambda>s. sl_Card s = idx) (pl_Slots pl)))
     else []) jobs)"

definition top_rows :: "CardView list \<Rightarrow> Job list \<Rightarrow> string list list" where
  "top_rows cv jobs = map (\<lambda>c. [Itoa (cv_Index c), cv_Vendor c @ '' '' @ cv_Name c, Itoa (cv_FreeSeats c) @ ''/'' @ Itoa (cv_Seats c),
     FormatMem (cv_FreeMemMiB c), join_with '' '' (on_card jobs (cv_Index c))]) cv"

definition cards_rows :: "CardView list \<Rightarrow> string list list" where
  "cards_rows cv = map (\<lambda>c. [Itoa (cv_Index c), cv_Vendor c, cv_Name c, FormatMem (cv_MemMiB c),
     capsLine (case cv_Caps c of Some k \<Rightarrow> k | None \<Rightarrow> \<lparr>cp_Concurrent = False, cp_ComputeCap = False, cp_MemoryCap = False, cp_Checkpoint = False\<rparr>)]) cv"

end
