(* ===== verification/Cli_Properties.thy ===== *)
theory Cli_Properties
  imports Cli Daemon_Properties
begin

text \<open>
  What the command line promises: options are read back as they were written, the host \<^verbatim>\<open>bestHost\<close> picks is the one with the most room, and a host picked from
  what its daemon reports takes the job. And one thing it does not: options that have no place in a remote run are dropped without a word.
\<close>

subsection \<open>Flags are read back\<close>

datatype opt = OVal string string | OEq string string | OBare string

fun render :: "opt \<Rightarrow> string list" where
  "render (OVal k v) = [''--'' @ k, v]"
| "render (OEq k v) = [''--'' @ k @ ''='' @ v]"
| "render (OBare k) = [''--'' @ k]"

fun opt_ok :: "opt \<Rightarrow> bool" where
  "opt_ok (OVal k v) \<longleftrightarrow> k \<noteq> [] \<and> CHR ''='' \<notin> set k \<and> v \<noteq> ''--'' \<and> \<not> is_flag v"
| "opt_ok (OEq k v) \<longleftrightarrow> CHR ''='' \<notin> set k"
| "opt_ok (OBare k) \<longleftrightarrow> k \<noteq> [] \<and> CHR ''='' \<notin> set k"

fun opt_key :: "opt \<Rightarrow> string" where
  "opt_key (OVal k v) = k"
| "opt_key (OEq k v) = k"
| "opt_key (OBare k) = k"

fun opt_values :: "opt \<Rightarrow> string list" where
  "opt_values (OVal k v) = [v]"
| "opt_values (OEq k v) = [v]"
| "opt_values (OBare k) = []"

definition values_of :: "string \<Rightarrow> opt list \<Rightarrow> string list" where
  "values_of k opts = concat (map opt_values (filter (\<lambda>p. opt_key p = k) opts))"

definition command_line :: "opt list \<Rightarrow> string list \<Rightarrow> string list" where
  "command_line opts cmd = concat (map render opts) @ ''--'' # cmd"

text \<open>What one option does to the flags.\<close>

fun put_opt :: "opt \<Rightarrow> flagset \<Rightarrow> flagset" where
  "put_opt (OVal k v) f = set_value k v f"
| "put_opt (OEq k v) f = set_value k v f"
| "put_opt (OBare k) f = set_flag k f"

lemma indexByte_none: "b \<notin> set s \<Longrightarrow> indexByte s b = - 1"
proof -
  have "b \<notin> set s \<Longrightarrow> indexByte_from i s b = - 1" for i by (induction s arbitrary: i) auto
  then show "b \<notin> set s \<Longrightarrow> indexByte s b = - 1" by (simp add: indexByte_def)
qed

lemma indexByte_first: "b \<notin> set k \<Longrightarrow> indexByte (k @ b # v) b = int (length k)"
proof -
  have "b \<notin> set k \<Longrightarrow> indexByte_from i (k @ b # v) b = int (i + length k)" for i by (induction k arbitrary: i) auto
  then show "b \<notin> set k \<Longrightarrow> indexByte (k @ b # v) b = int (length k)" by (simp add: indexByte_def)
qed

lemma flag_shape: "is_flag (CHR ''-'' # CHR ''-'' # k) \<longleftrightarrow> k \<noteq> []"
  by (cases k) (auto simp: is_flag_def)

text \<open>What follows an option is another one or the end of the options.\<close>

definition next_ok :: "string list \<Rightarrow> bool" where
  "next_ok rest \<longleftrightarrow> (\<exists>b bs. rest = b # bs \<and> (b = ''--'' \<or> is_flag b))"

lemma flags_one:
  assumes "opt_ok p" and "next_ok rest"
  shows "flags_loop (render p @ rest) f = flags_loop rest (put_opt p f)"
proof (cases p)
  case (OVal k v)
  then show ?thesis using assms(1) by (simp add: flag_shape Let_def indexByte_none)
next
  case (OEq k v)
  then show ?thesis using assms(1) by (simp add: flag_shape Let_def indexByte_first)
next
  case (OBare k)
  then show ?thesis using assms by (auto simp: flag_shape Let_def indexByte_none next_ok_def)
qed

lemma next_command: "\<forall>p \<in> set opts. opt_ok p \<Longrightarrow> next_ok (command_line opts cmd)"
proof (cases opts)
  case (Cons p ps)
  assume "\<forall>p \<in> set opts. opt_ok p"
  then show ?thesis using Cons by (cases p) (auto simp: next_ok_def command_line_def flag_shape)
qed (simp add: next_ok_def command_line_def)

lemma flags_many:
  "\<forall>p \<in> set opts. opt_ok p \<Longrightarrow> flags_loop (command_line opts cmd) f = (fold put_opt opts f)\<lparr>fs_rest := cmd\<rparr>"
proof (induction opts arbitrary: f)
  case (Cons p opts)
  have "command_line (p # opts) cmd = render p @ command_line opts cmd" by (simp add: command_line_def)
  moreover have "flags_loop (render p @ command_line opts cmd) f = flags_loop (command_line opts cmd) (put_opt p f)"
    using Cons.prems next_command [of opts cmd] by (intro flags_one) auto
  ultimately show ?case using Cons by simp
qed (simp add: command_line_def)

definition latest :: "'a list \<Rightarrow> 'a option \<Rightarrow> 'a option" where
  "latest xs d = (if xs = [] then d else Some (last xs))"

lemma put_opt_reads:
  "map_of (fs_kv (put_opt p f)) k = (if opt_key p = k then latest (opt_values p) (map_of (fs_kv f) k) else map_of (fs_kv f) k)"
  "multiVals (put_opt p f) k = multiVals f k @ (if opt_key p = k then opt_values p else [])"
  "fs_bool (put_opt p f) k \<longleftrightarrow> opt_key p = k \<or> fs_bool f k"
  by (cases p; simp add: set_value_def set_flag_def AList.update_conv' multiVals_def fs_bool_def latest_def)+

lemma put_opts_reads:
  "map_of (fs_kv (fold put_opt opts f)) k = latest (values_of k opts) (map_of (fs_kv f) k)"
  "multiVals (fold put_opt opts f) k = multiVals f k @ values_of k opts"
  "fs_bool (fold put_opt opts f) k \<longleftrightarrow> k \<in> opt_key ` set opts \<or> fs_bool f k"
proof (induction opts arbitrary: f)
  case (Cons p opts)
  case 1
  then show ?case using Cons(1) [of "put_opt p f"] by (auto simp: put_opt_reads values_of_def latest_def)
  case 2
  then show ?case using Cons(2) [of "put_opt p f"] by (simp add: put_opt_reads values_of_def)
  case 3
  then show ?case using Cons(3) [of "put_opt p f"] by (auto simp: put_opt_reads)
qed (simp_all add: values_of_def latest_def)

lemma flags_command:
  assumes "\<forall>p \<in> set opts. opt_ok p"
  shows "map_of (fs_kv (flags (command_line opts cmd))) k = latest (values_of k opts) None"
    and "multiVals (flags (command_line opts cmd)) k = values_of k opts"
    and "fs_bool (flags (command_line opts cmd)) k \<longleftrightarrow> k \<in> opt_key ` set opts"
    and "fs_rest (flags (command_line opts cmd)) = cmd"
proof -
  let ?f = "\<lparr>fs_kv = [], fs_set = [], fs_multi = [], fs_rest = []\<rparr>"
  have f: "flags (command_line opts cmd) = (fold put_opt opts ?f)\<lparr>fs_rest := cmd\<rparr>" using flags_many [OF assms] by (simp add: flags_def)
  show "map_of (fs_kv (flags (command_line opts cmd))) k = latest (values_of k opts) None"
    using put_opts_reads(1) [of opts ?f k] by (simp add: f)
  show "multiVals (flags (command_line opts cmd)) k = values_of k opts"
    using put_opts_reads(2) [of opts ?f k] by (simp add: f multiVals_def)
  show "fs_bool (flags (command_line opts cmd)) k \<longleftrightarrow> k \<in> opt_key ` set opts"
    using put_opts_reads(3) [of opts ?f k] by (simp add: f fs_bool_def)
  show "fs_rest (flags (command_line opts cmd)) = cmd" by (simp add: f)
qed

text \<open>
  C38: a command line of options, written in any of the three forms and in any order, followed by \<^verbatim>\<open>--\<close> and a command, is read back: the command is the
  command, each option's values are the ones given, in order, the last one counts where one is asked for, and an option counts as given
  exactly when it was. The one ambiguity of the grammar is excluded: a value written as a word of its own may not look like an option.
\<close>

theorem flags_read_back:
  assumes "\<forall>p \<in> set opts. opt_ok p"
  shows "fs_rest (flags (command_line opts cmd)) = cmd \<and>
    multiVals (flags (command_line opts cmd)) k = values_of k opts \<and>
    fs_str (flags (command_line opts cmd)) k def = (if values_of k opts = [] then def else last (values_of k opts)) \<and>
    (fs_bool (flags (command_line opts cmd)) k \<longleftrightarrow> k \<in> opt_key ` set opts)"
  using flags_command [OF assms] by (simp add: fs_str_def latest_def)

theorem flags_read_back_witness:
  "multiVals (flags (command_line [OVal ''allow'' ''a.org'', OBare ''wait'', OEq ''allow'' ''b.org''] [''python'', ''x.py''])) ''allow'' = [''a.org'', ''b.org'']"
  using flags_read_back [of "[OVal ''allow'' ''a.org'', OBare ''wait'', OEq ''allow'' ''b.org'']" "[''python'', ''x.py'']" "''allow''" "[]"]
  by (simp add: values_of_def is_flag_def)

subsection \<open>The host with the most room\<close>

text \<open>A card of a candidate that can take the job, and what it has left over.\<close>

definition takes :: "float64 \<Rightarrow> int \<Rightarrow> CardView \<Rightarrow> bool" where
  "takes fraction memMiB cv \<longleftrightarrow> host_need fraction cv \<le> cv_FreeSeats cv \<and>
     (if memMiB = 0 then DefaultMemMiB (host_need fraction cv) (cv_Seats cv) (cv_MemMiB cv) else memMiB) \<le> cv_FreeMemMiB cv"

definition spare :: "float64 \<Rightarrow> CardView \<Rightarrow> int" where
  "spare fraction cv = cv_FreeSeats cv - host_need fraction cv"

definition cand_cards :: "candidate list \<Rightarrow> nat \<Rightarrow> CardView list" where
  "cand_cards cands j = (case snd (cands ! j) of Inr cards \<Rightarrow> cards | Inl e \<Rightarrow> [])"

lemma best_card_takes: "best_card fraction m i cv (best, bf) = (if takes fraction m cv \<and> bf < spare fraction cv then (i, spare fraction cv) else (best, bf))"
  by (auto simp: best_card_def takes_def spare_def Let_def)

text \<open>The best so far: its spare seats are an upper bound of what was seen, reached by a card of the first host that has one.\<close>

definition best_ok :: "float64 \<Rightarrow> int \<Rightarrow> (int \<times> CardView) list \<Rightarrow> int \<times> int \<Rightarrow> bool" where
  "best_ok fraction m seen acc \<longleftrightarrow> (case acc of (best, bf) \<Rightarrow>
     (\<forall>(i, cv) \<in> set seen. takes fraction m cv \<longrightarrow> spare fraction cv \<le> bf \<and> (spare fraction cv = bf \<longrightarrow> best \<le> i)) \<and>
     (best = - 1 \<and> bf = - 1 \<or> (\<exists>(i, cv) \<in> set seen. best = i \<and> takes fraction m cv \<and> spare fraction cv = bf)))"

lemma best_ok_step:
  assumes "best_ok fraction m seen acc" and "\<forall>(j, c) \<in> set seen. j \<le> i" and "0 \<le> i"
  shows "best_ok fraction m (seen @ [(i, cv)]) (best_card fraction m i cv acc)"
proof -
  obtain best bf where acc: "acc = (best, bf)" by (cases acc)
  have bi: "best \<le> i" using assms unfolding best_ok_def acc by auto
  have up: "spare fraction c \<le> bf \<and> (spare fraction c = bf \<longrightarrow> best \<le> j)" if "(j, c) \<in> set seen" "takes fraction m c" for j c
    using assms(1) that unfolding best_ok_def acc by auto
  show ?thesis
  proof (cases "takes fraction m cv \<and> bf < spare fraction cv")
    case True
    then show ?thesis using up unfolding acc best_card_takes best_ok_def by fastforce
  next
    case False
    then show ?thesis using assms(1) bi unfolding acc best_card_takes best_ok_def by auto
  qed
qed

lemma best_ok_fold:
  assumes "best_ok fraction m seen acc" and "\<forall>(j, c) \<in> set seen. j \<le> i" and "0 \<le> i"
  shows "best_ok fraction m (seen @ map (Pair i) cards) (fold (best_card fraction m i) cards acc)"
  using assms
proof (induction cards arbitrary: seen acc)
  case (Cons cv cards)
  have "best_ok fraction m ((seen @ [(i, cv)]) @ map (Pair i) cards) (fold (best_card fraction m i) cards (best_card fraction m i cv acc))"
    by (rule Cons.IH [OF best_ok_step [OF Cons.prems]]) (use Cons.prems in auto)
  then show ?case by simp
qed simp

fun seen_from :: "int \<Rightarrow> candidate list \<Rightarrow> (int \<times> CardView) list" where
  "seen_from i [] = []"
| "seen_from i ((name, Inl e) # cands) = seen_from (i + 1) cands"
| "seen_from i ((name, Inr cards) # cands) = map (Pair i) cards @ seen_from (i + 1) cands"

lemma best_ok_loop:
  "best_ok fraction m seen acc \<Longrightarrow> \<forall>(j, c) \<in> set seen. j \<le> i \<Longrightarrow> 0 \<le> i \<Longrightarrow> best_ok fraction m (seen @ seen_from i cands) (best_loop fraction m i cands acc)"
proof (induction i cands arbitrary: seen acc rule: seen_from.induct)
  case (2 i name e cands)
  have "\<forall>(j, c) \<in> set seen. j \<le> i + 1" using 2(3) by fastforce
  then show ?case using 2 by simp
next
  case (3 i name cards cands)
  have "\<forall>(j, c) \<in> set (seen @ map (Pair i) cards). j \<le> i + 1" using 3(3) by fastforce
  then show ?case using 3(1) [OF best_ok_fold [OF 3(2,3,4), of cards]] 3(4) by simp
qed simp

lemma cand_cards_Cons: "cand_cards (x # cands) 0 = (case snd x of Inr cards \<Rightarrow> cards | Inl e \<Rightarrow> [])" "cand_cards (x # cands) (Suc j) = cand_cards cands j"
  by (simp_all add: cand_cards_def)

lemma seen_from_iff: "(i, cv) \<in> set (seen_from k cands) \<longleftrightarrow> (\<exists>j < length cands. i = k + int j \<and> cv \<in> set (cand_cards cands j))"
  by (induction k cands rule: seen_from.induct) (auto simp: Ex_less_Suc2 cand_cards_Cons algebra_simps)

lemma bestHost_bound:
  "\<exists>bf. best_ok fraction memMiB (seen_from 0 cands) (bestHost cands fraction memMiB, bf) \<and>
    (\<forall>k < length cands. \<forall>cw \<in> set (cand_cards cands k). takes fraction memMiB cw \<longrightarrow>
      spare fraction cw \<le> bf \<and> (spare fraction cw = bf \<longrightarrow> bestHost cands fraction memMiB \<le> int k))"
proof -
  obtain best bf where b: "best_loop fraction memMiB 0 cands (- 1, - 1) = (best, bf)" by fastforce
  have ok: "best_ok fraction memMiB (seen_from 0 cands) (best, bf)"
    using best_ok_loop [of fraction memMiB "[]" "(- 1, - 1)" 0 cands] b by (simp add: best_ok_def)
  moreover have "spare fraction cw \<le> bf \<and> (spare fraction cw = bf \<longrightarrow> best \<le> int k)" if "k < length cands" "cw \<in> set (cand_cards cands k)" "takes fraction memMiB cw" for k cw
    using ok that seen_from_iff [of "int k" cw 0 cands] unfolding best_ok_def by auto
  ultimately show ?thesis using b by (intro exI [of _ bf]) (simp add: bestHost_def)
qed

lemma bestHost_finds:
  assumes "bestHost cands fraction memMiB \<noteq> - 1"
  shows "\<exists>j cv. bestHost cands fraction memMiB = int j \<and> j < length cands \<and> cv \<in> set (cand_cards cands j) \<and> takes fraction memMiB cv \<and>
       (\<forall>k < length cands. \<forall>cw \<in> set (cand_cards cands k). takes fraction memMiB cw \<longrightarrow>
          spare fraction cw \<le> spare fraction cv \<and> (k < j \<longrightarrow> spare fraction cw < spare fraction cv))"
proof -
  obtain bf where ok: "best_ok fraction memMiB (seen_from 0 cands) (bestHost cands fraction memMiB, bf)"
    and up: "\<forall>k < length cands. \<forall>cw \<in> set (cand_cards cands k). takes fraction memMiB cw \<longrightarrow>
      spare fraction cw \<le> bf \<and> (spare fraction cw = bf \<longrightarrow> bestHost cands fraction memMiB \<le> int k)" using bestHost_bound by blast
  obtain j cv where j: "bestHost cands fraction memMiB = int j" "j < length cands" "cv \<in> set (cand_cards cands j)" "takes fraction memMiB cv" "spare fraction cv = bf"
    using ok seen_from_iff [of _ _ 0 cands] assms unfolding best_ok_def by auto
  then show ?thesis using up by (intro exI [of _ j] exI [of _ cv]) fastforce
qed

lemma bestHost_none:
  "bestHost cands fraction memMiB = - 1 \<longleftrightarrow> (\<forall>j < length cands. \<forall>cv \<in> set (cand_cards cands j). \<not> takes fraction memMiB cv)"
proof
  assume none: "bestHost cands fraction memMiB = - 1"
  obtain bf where ok: "best_ok fraction memMiB (seen_from 0 cands) (bestHost cands fraction memMiB, bf)"
    and up: "\<forall>k < length cands. \<forall>cw \<in> set (cand_cards cands k). takes fraction memMiB cw \<longrightarrow>
      spare fraction cw \<le> bf \<and> (spare fraction cw = bf \<longrightarrow> bestHost cands fraction memMiB \<le> int k)" using bestHost_bound by blast
  have "bf = - 1" using ok none seen_from_iff [of "- 1" _ 0 cands] unfolding best_ok_def by auto
  then show "\<forall>j < length cands. \<forall>cv \<in> set (cand_cards cands j). \<not> takes fraction memMiB cv"
    using up by (fastforce simp: takes_def spare_def)
next
  assume "\<forall>j < length cands. \<forall>cv \<in> set (cand_cards cands j). \<not> takes fraction memMiB cv"
  then show "bestHost cands fraction memMiB = - 1" using bestHost_finds by blast
qed

text \<open>
  C34: \<^verbatim>\<open>bestHost\<close> finds nothing exactly when no card of a reachable host can take the job. Otherwise its answer is a reachable host with a card that can, no card
  of any host that can take the job would have more seats left, and no earlier host has as many.
\<close>

theorem bestHost_is_best:
  "(bestHost cands fraction memMiB = - 1 \<longleftrightarrow> (\<forall>j < length cands. \<forall>cv \<in> set (cand_cards cands j). \<not> takes fraction memMiB cv)) \<and>
   (bestHost cands fraction memMiB \<noteq> - 1 \<longrightarrow>
     (\<exists>j cv. bestHost cands fraction memMiB = int j \<and> j < length cands \<and> cv \<in> set (cand_cards cands j) \<and> takes fraction memMiB cv \<and>
       (\<forall>k < length cands. \<forall>cw \<in> set (cand_cards cands k). takes fraction memMiB cw \<longrightarrow>
          spare fraction cw \<le> spare fraction cv \<and> (k < j \<longrightarrow> spare fraction cw < spare fraction cv))))"
  using bestHost_none bestHost_finds by blast

definition demo_view :: "int \<Rightarrow> CardView" where
  "demo_view free = \<lparr>cv_Index = 0, cv_Vendor = ''nvidia'', cv_Name = ''H100'', cv_MemMiB = 81920, cv_Seats = 8, cv_FreeSeats = free, cv_FreeMemMiB = 40960, cv_Caps = None\<rparr>"

theorem bestHost_is_best_witness:
  "\<exists>j cv. bestHost [(''a'', Inl NoneReachable), (''b'', Inr [demo_view 1]), (''c'', Inr [demo_view 4])] (Fin (1 / 4)) 0 = int j \<and> takes (Fin (1 / 4)) 0 cv \<and>
    cv \<in> set (cand_cards [(''a'', Inl NoneReachable), (''b'', Inr [demo_view 1]), (''c'', Inr [demo_view 4])] j)"
proof -
  have "bestHost [(''a'', Inl NoneReachable), (''b'', Inr [demo_view 1]), (''c'', Inr [demo_view 4])] (Fin (1 / 4)) 0 \<noteq> - 1" by code_simp
  then show ?thesis using bestHost_is_best [of "[(''a'', Inl NoneReachable), (''b'', Inr [demo_view 1]), (''c'', Inr [demo_view 4])]" "Fin (1 / 4)" 0] by blast
qed

subsection \<open>A chosen host takes the job\<close>

lemma free_of_card:
  assumes "distinct (map c_Index (s_cards s))" and "c \<in> set (s_cards s)"
  shows "map_of (fold (\<lambda>f m. AList.update (f_Card f) f m) (Available s) []) (c_Index c) =
    Some \<lparr>f_Card = c_Index c, f_Seats = c_Seats c - fst (usage s (c_Index c) []), f_MemMiB = c_MemMiB c - snd (usage s (c_Index c) [])\<rparr>"
proof -
  let ?g = "\<lambda>c. \<lparr>f_Card = c_Index c, f_Seats = c_Seats c - fst (usage s (c_Index c) []), f_MemMiB = c_MemMiB c - snd (usage s (c_Index c) [])\<rparr>"
  have "map_of (fold (\<lambda>f m. AList.update (f_Card f) f m) (map ?g cs) []) (c_Index c) = Some (?g c)" if "distinct (map c_Index cs)" "c \<in> set cs" for cs
    using that by (induction cs rule: rev_induct) (auto simp: AList.update_conv', (metis imageI)+)
  moreover have "Available s = map ?g (s_cards s)" by (simp add: Available_def case_prod_beta)
  ultimately show ?thesis using assms by simp
qed

lemma Cards_view_of:
  assumes "distinct (map c_Index (s_cards (dm_sched d)))" and "cv \<in> set (Cards_view d)"
  shows "\<exists>c \<in> set (s_cards (dm_sched d)). cv_Seats cv = c_Seats c \<and> cv_MemMiB cv = c_MemMiB c \<and>
    cv_FreeSeats cv = c_Seats c - fst (usage (dm_sched d) (c_Index c) []) \<and> cv_FreeMemMiB cv = c_MemMiB c - snd (usage (dm_sched d) (c_Index c) [])"
  using assms(2) free_of_card [OF assms(1)] by (auto simp: Cards_view_def Cards_def Let_def)

text \<open>The client's count is the scheduler's, unless the share is less than a few billionths of a seat.\<close>

lemma host_need_seats:
  assumes "share_ok fraction" and "1 \<le> cv_Seats cv" and "cv_Seats cv \<le> 2 ^ 20" and "f64_le (Fin (1 / 2 ^ 28)) fraction"
  shows "Seats fraction (cv_Seats cv) = Inr (host_need fraction cv)"
proof -
  obtain f where f: "fraction = Fin f" "0 < f" "f \<le> 1" using assms(1) by (auto simp: share_ok_Fin)
  let ?n = "cv_Seats cv"
  obtain d where d: "f * of_int ?n - 3 / 2000000000 \<le> d" "d \<le> f * of_int ?n - 1 / 2000000000"
    and c: "f64_to_int (f64_ceil (f64_sub (f64_mul (Fin f) (f64_of_int ?n)) seat_eps)) = \<lceil>d\<rceil>"
    using seat_ceil [OF f(2,3) assms(2,3)] .
  have "1 / 2 ^ 28 * 1 \<le> f * of_int ?n" using assms(2,4) f by (intro mult_mono) auto
  moreover have "f * of_int ?n \<le> 1 * of_int ?n" using assms(2) f(3) by (intro mult_right_mono) auto
  ultimately have "1 \<le> \<lceil>d\<rceil>" "\<lceil>d\<rceil> \<le> ?n" using d by (simp_all add: le_ceiling_iff ceiling_le_iff)
  then show ?thesis using assms(1,2) c unfolding f(1) Seats_def host_need_def Let_def by auto
qed

lemma takes_cand:
  assumes inv: "sched_inv s" and c: "c \<in> set (s_cards s)" "\<not> c_Down c"
    and cv: "cv_Seats cv = c_Seats c" "cv_MemMiB cv = c_MemMiB c" "cv_FreeSeats cv = c_Seats c - fst (usage s (c_Index c) [])"
      "cv_FreeMemMiB cv = c_MemMiB c - snd (usage s (c_Index c) [])"
    and t: "takes (r_Share r) (r_MemMiB r) cv" and sh: "share_ok (r_Share r)" "f64_le (Fin (1 / 2 ^ 28)) (r_Share r)" and n: "c_Seats c \<le> 2 ^ 20"
  shows "cand_of s r [] c \<noteq> None"
proof -
  have one: "1 \<le> c_Seats c" using sched_invD(1) [OF inv] c(1) by (auto simp: cards_ok_def)
  have seats: "Seats (r_Share r) (c_Seats c) = Inr (host_need (r_Share r) cv)" using host_need_seats [OF sh(1), of cv] sh(2) one n cv(1) by simp
  have "0 \<le> mem_used (s_running s) (c_Index c)"
    using used_filter_le(1) [OF book_entries [OF sched_invD(2) [OF inv]], of "\<lambda>_. False" "c_Index c"] by simp
  moreover have u: "usage s (c_Index c) [] = (seats_used (s_running s) (c_Index c), mem_used (s_running s) (c_Index c))"
    by (simp add: usage_eq live_def)
  ultimately show ?thesis using t cv c(2) seats by (auto simp: cand_of_def need_def takes_def room_for_def Let_def live_def split: if_splits)
qed

text \<open>
  C17: a job sent to the host \<^verbatim>\<open>bestHost\<close> picked is placed there at once, pushing nobody off, if nothing changed on the host since it reported its cards: the client's
  arithmetic on the reported seats and memory agrees with the scheduler's. It holds for shares of at least \<open>2^(-28)\<close> of a card and hosts none of whose
  cards is marked down (the report does not say).
\<close>

theorem chosen_host_admits:
  assumes "bestHost cands fraction memMiB = int j" and "j < length cands" and "snd (cands ! j) = Inr (Cards_view d)" and "daemon_ok d"
    and "\<forall>c \<in> set (s_cards (dm_sched d)). \<not> c_Down c \<and> c_Seats c \<le> 2 ^ 20"
    and "share_ok fraction" and "f64_le (Fin (1 / 2 ^ 28)) fraction" and "sr_Share sr = fraction" and "sr_MemMiB sr = memMiB" and "sr_GPUs sr = 0"
    and "jid \<noteq> []" and "jid \<notin> fst ` set (s_running (dm_sched d))"
  shows "\<exists>s' dec pl. Admit (request_of jid sr) (dm_sched d) = (s', Inr dec) \<and> d_Placement dec = Some pl \<and> d_Preempt dec = [] \<and> \<not> d_Queued dec \<and>
    map_of (s_running s') jid \<noteq> None"
proof -
  let ?s = "dm_sched d" and ?r = "request_of jid sr"
  have inv: "sched_inv ?s" using daemon_okD(1) assms(4) unfolding daemon_ok_def .
  obtain k cv where k: "bestHost cands fraction memMiB = int k" "cv \<in> set (cand_cards cands k)" "takes fraction memMiB cv"
    using bestHost_finds [of cands fraction memMiB] assms(1) by auto
  then have cv: "cv \<in> set (Cards_view d)" using assms(1,3) by (simp add: cand_cards_def)
  obtain c where c: "c \<in> set (s_cards ?s)" "cv_Seats cv = c_Seats c" "cv_MemMiB cv = c_MemMiB c"
      "cv_FreeSeats cv = c_Seats c - fst (usage ?s (c_Index c) [])" "cv_FreeMemMiB cv = c_MemMiB c - snd (usage ?s (c_Index c) [])"
    using Cards_view_of [OF sched_invD(3) [OF inv] cv] by auto
  have r: "r_Share ?r = fraction" "r_MemMiB ?r = memMiB" "r_GPUs ?r = 0" "r_ID ?r = jid" using assms(8-10) by (simp_all add: request_of_def)
  have "cand_of ?s ?r [] c \<noteq> None" using takes_cand [OF inv c(1) _ c(2-5), of ?r] k(3) assms(5-7) c(1) r by auto
  then have "List.map_filter (cand_of ?s ?r []) (s_cards ?s) \<noteq> []" using c(1) map_filter_set [of "cand_of ?s ?r []" "s_cards ?s"] by force
  then have "fits ?s ?r []" using r(3) by (cases "List.map_filter (cand_of ?s ?r []) (s_cards ?s)") (auto simp: fits_iff want_cards_def)
  then obtain slots where f: "fit ?s ?r [] = Inr slots" by (auto simp: fits_def)
  have "validate ?r = None" using assms(6,11) r by (simp add: validate_def)
  moreover have "map_of (s_running ?s) jid = None" using assms(12) by (simp add: map_of_eq_None_iff)
  moreover have "s_cards ?s \<noteq> []" using c(1) by auto
  ultimately show ?thesis using f r by (auto simp: Admit_def Let_def start_job_def AList.update_conv' leD)
qed

theorem chosen_host_admits_witness:
  "\<exists>s' dec pl. Admit (request_of ''j1'' ((demo_sub 0)\<lparr>sr_GPUs := 0\<rparr>)) (dm_sched demo_daemon) = (s', Inr dec) \<and> d_Placement dec = Some pl \<and>
    d_Preempt dec = [] \<and> \<not> d_Queued dec \<and> map_of (s_running s') ''j1'' \<noteq> None"
proof -
  have b: "bestHost [(''g'', Inr (Cards_view demo_daemon))] (Fin (1 / 2)) 100 = int 0" by code_simp
  have ok: "daemon_ok demo_daemon"
    unfolding demo_daemon_def by (rule New_daemon_ok) (simp add: demo_found_def demo_dev_def zero_dev_def)
  have sh: "share_ok (Fin (1 / 2))" "f64_le (Fin (1 / 2 ^ 28)) (Fin (1 / 2))" by (simp_all add: share_ok_def)
  show ?thesis
    using chosen_host_admits [OF b _ _ ok _ sh, of "(demo_sub 0)\<lparr>sr_GPUs := 0\<rparr>" "''j1''"]
    by (simp add: demo_daemon_sched New_def demo_card_def demo_sub_def)
qed

subsection \<open>Options a remote run drops\<close>

definition dropped_keys :: "string list" where
  "dropped_keys = [''gpus'', ''priority'', ''preemptible'', ''burst'']"

definition kept :: "opt list \<Rightarrow> opt list" where
  "kept opts = filter (\<lambda>p. opt_key p \<notin> set dropped_keys) opts"

lemma values_kept: "k \<notin> set dropped_keys \<Longrightarrow> values_of k (kept opts) = values_of k opts"
  by (auto simp: values_of_def kept_def intro!: arg_cong [where f = concat] arg_cong [where f = "map opt_values"] filter_cong)

lemma kept_reads:
  assumes "\<forall>p \<in> set opts. opt_ok p" and "k \<notin> set dropped_keys"
  shows "fs_str (flags (command_line (kept opts) cmd)) k = fs_str (flags (command_line opts cmd)) k"
    and "fs_float (flags (command_line (kept opts) cmd)) k = fs_float (flags (command_line opts cmd)) k"
    and "multiVals (flags (command_line (kept opts) cmd)) k = multiVals (flags (command_line opts cmd)) k"
    and "fs_bool (flags (command_line (kept opts) cmd)) k = fs_bool (flags (command_line opts cmd)) k"
    and "fs_rest (flags (command_line (kept opts) cmd)) = fs_rest (flags (command_line opts cmd))"
proof -
  have ok: "\<forall>p \<in> set (kept opts). opt_ok p" using assms(1) by (simp add: kept_def)
  note f = flags_command [OF assms(1)] flags_command [OF ok] values_kept [OF assms(2)]
  show "fs_str (flags (command_line (kept opts) cmd)) k = fs_str (flags (command_line opts cmd)) k"
    "fs_float (flags (command_line (kept opts) cmd)) k = fs_float (flags (command_line opts cmd)) k"
    "multiVals (flags (command_line (kept opts) cmd)) k = multiVals (flags (command_line opts cmd)) k"
    "fs_rest (flags (command_line (kept opts) cmd)) = fs_rest (flags (command_line opts cmd))"
    by (simp_all add: f fs_str_def fs_float_def fun_eq_iff)
  show "fs_bool (flags (command_line (kept opts) cmd)) k = fs_bool (flags (command_line opts cmd)) k"
    unfolding flags_command(3) [OF assms(1)] flags_command(3) [OF ok] using assms(2) by (auto simp: kept_def)
qed

lemma used_keys:
  "''remote'' \<notin> set dropped_keys" "''session'' \<notin> set dropped_keys" "''name'' \<notin> set dropped_keys" "''mem'' \<notin> set dropped_keys"
  "''share'' \<notin> set dropped_keys" "''allow'' \<notin> set dropped_keys" "''pull'' \<notin> set dropped_keys" "''local'' \<notin> set dropped_keys"
  "''deny-net'' \<notin> set dropped_keys" "''wait'' \<notin> set dropped_keys"
  by (simp_all add: dropped_keys_def)

text \<open>
  A run that goes to a GPU host is the same with and without \<^verbatim>\<open>--gpus\<close>, \<^verbatim>\<open>--priority\<close>, \<^verbatim>\<open>--preemptible\<close> and \<^verbatim>\<open>--burst\<close>: the options are accepted and dropped, so a
  job that asked for four cards runs on one, and none of them can push another off or be pushed off. Where it goes does not depend on them either.
\<close>

theorem remote_run_drops_options:
  assumes "\<forall>p \<in> set opts. opt_ok p"
    and "run_cmd uni sha256 ask ev load localUp cwd (command_line opts cmd) = Inr (RunRemote name target sid req pull)"
  shows "run_cmd uni sha256 ask ev load localUp cwd (command_line (kept opts) cmd) = Inr (RunRemote name target sid req pull)"
proof -
  note same = kept_reads [OF assms(1) used_keys(1)] kept_reads [OF assms(1) used_keys(2)] kept_reads [OF assms(1) used_keys(3)]
    kept_reads [OF assms(1) used_keys(4)] kept_reads [OF assms(1) used_keys(5)] kept_reads [OF assms(1) used_keys(6)]
    kept_reads [OF assms(1) used_keys(7)] kept_reads [OF assms(1) used_keys(8)] kept_reads [OF assms(1) used_keys(9)]
    kept_reads [OF assms(1) used_keys(10)]
  have "remote_action sha256 dir n t (flags (command_line (kept opts) cmd)) x m = remote_action sha256 dir n t (flags (command_line opts cmd)) x m" for dir n t x m
    by (simp add: remote_action_def same)
  then show ?thesis using assms(2)
    by (auto simp: run_cmd_def parse_mem_flag_def local_action_def explicitRemote_def Let_def same split: if_splits sum.splits prod.splits)
qed

theorem remote_run_drops_options_witness:
  "run_cmd id (\<lambda>d. ''0123456789abcdef'') (\<lambda>c. Inl HostError) \<lparr>ev_REMOTE = [], ev_SOCKET = [], ev_STATE = [], ev_USER = []\<rparr>
     (Inr \<lparr>hg_Default = [], hg_Remotes = [], hg_path = []\<rparr>) False (Some ''/w'') (command_line (kept [OVal ''share'' ''1'', OVal ''remote'' ''t@h#f'', OVal ''gpus'' ''4'']) [''train'']) =
   Inr (RunRemote ''h'' ''t@h#f'' ''ws0123456789ab'' \<lparr>ex_Command = [''train''], ex_Share = Fin 1, ex_MemMiB = 0, ex_Name = [], ex_Allow = [], ex_DenyNet = False, ex_Wait = False\<rparr> [])"
proof (rule remote_run_drops_options)
  show "\<forall>p \<in> set [OVal ''share'' ''1'', OVal ''remote'' ''t@h#f'', OVal ''gpus'' ''4'']. opt_ok p" by (simp add: is_flag_def)
  show "run_cmd id (\<lambda>d. ''0123456789abcdef'') (\<lambda>c. Inl HostError) \<lparr>ev_REMOTE = [], ev_SOCKET = [], ev_STATE = [], ev_USER = []\<rparr>
     (Inr \<lparr>hg_Default = [], hg_Remotes = [], hg_path = []\<rparr>) False (Some ''/w'') (command_line [OVal ''share'' ''1'', OVal ''remote'' ''t@h#f'', OVal ''gpus'' ''4''] [''train'']) =
   Inr (RunRemote ''h'' ''t@h#f'' ''ws0123456789ab'' \<lparr>ex_Command = [''train''], ex_Share = Fin 1, ex_MemMiB = 0, ex_Name = [], ex_Allow = [], ex_DenyNet = False, ex_Wait = False\<rparr> [])"
    by code_simp
qed

end
