(* ===== verification/Api.thy ===== *)
theory Api
  imports Daemon Remote Cli
begin

text \<open>
  Package \<^verbatim>\<open>internal/api\<close>: the endpoints of the daemon, on the local socket and, behind a bearer token, on a TCP port. A request is its method, path, header and
  body; a JSON body is what its decoder filled in and whether it reported an error. A handler is a function of the server's state and of what it gets
  from outside (\<open>outside\<close>: the clock, the launcher, the disk, random bytes) and gives the new state, the response and what happens to processes. Error texts
  are left out; the listeners and the certificate are in the theory \<open>Host_Serve\<close>.
\<close>

subsection \<open>Requests and responses\<close>

record Server =
  sv_d :: Daemon
  sv_sessions :: "Store option"
  sv_token :: string

record jbody =
  bd_job :: SubmitRequest
  bd_id :: string
  bd_files :: "File list"
  bd_prune :: bool
  bd_globs :: "string list"

record http_req =
  rq_Method :: string
  rq_Path :: string
  rq_Auth :: string
  rq_Body :: jbody
  rq_BodyOk :: bool
  rq_Data :: string
  rq_Whole :: bool
  rq_By :: string
  rq_Since :: "int option"

record outside =
  wd_now :: int
  wd_jid :: string
  wd_writable :: bool
  wd_lo :: "(nat \<times> int) option"
  wd_stream :: nat
  wd_disk :: bool
  wd_write :: "string \<Rightarrow> wres"
  wd_rec :: rec_res
  wd_glob :: "string \<Rightarrow> string list"
  wd_rand :: "nat list option"

datatype payload =
    PError
  | PRedirect string
  | PHealth
  | PJobs "Job list"
  | PJob Job
  | PStopped string
  | PCards "CardView list"
  | PUsage int int "Row list"
  | PSession string
  | PDeleted string
  | PMissing "string list"
  | PBlob string nat
  | PApplied nat
  | PArchive "(string \<times> string) list"
  | PStream string string
  | PStreamError derror

type_synonym reply = "Server \<times> (int \<times> payload) \<times> deffect list"

definition fail_with :: "int \<Rightarrow> Server \<Rightarrow> reply" where
  "fail_with code s = (s, (code, PError), [])"

definition New_server :: "Daemon \<Rightarrow> Store option \<Rightarrow> string \<Rightarrow> Server" where
  "New_server d sessions token = \<lparr>sv_d = d, sv_sessions = sessions, sv_token = token\<rparr>"

subsection \<open>Jobs, cards, usage\<close>

definition api_jobs :: "outside \<Rightarrow> http_req \<Rightarrow> Server \<Rightarrow> reply" where
  "api_jobs wd r s =
     (if rq_Method r = ''GET'' then (s, (200, PJobs (Jobs (sv_d s))), [])
      else if rq_Method r = ''POST'' then
        (if \<not> rq_BodyOk r then fail_with 400 s
         else case Submit (bd_job (rq_Body r)) (wd_jid wd) (wd_now wd) (wd_writable wd) (wd_lo wd) (sv_d s) of
             (d, Inl e, effs) \<Rightarrow> (s\<lparr>sv_d := d\<rparr>, (409, PError), effs)
           | (d, Inr jid, effs) \<Rightarrow> (s\<lparr>sv_d := d\<rparr>, (201, case Job_of jid d of Some job \<Rightarrow> PJob job | None \<Rightarrow> PError), effs))
      else fail_with 405 s)"

definition api_resize :: "outside \<Rightarrow> http_req \<Rightarrow> string \<Rightarrow> Server \<Rightarrow> reply" where
  "api_resize wd r jid s =
     (if rq_Method r \<noteq> ''POST'' then fail_with 405 s
      else if \<not> rq_BodyOk r then fail_with 400 s
      else case Resize_job jid (sr_Share (bd_job (rq_Body r))) (sr_MemMiB (bd_job (rq_Body r))) (wd_now wd) (wd_writable wd) (sv_d s) of
          (d, Inl e) \<Rightarrow> (s\<lparr>sv_d := d\<rparr>, (409, PError), [])
        | (d, Inr j) \<Rightarrow> (s\<lparr>sv_d := d\<rparr>, (200, case Job_of j d of Some job \<Rightarrow> PJob job | None \<Rightarrow> PError), []))"

definition api_job :: "outside \<Rightarrow> http_req \<Rightarrow> Server \<Rightarrow> reply" where
  "api_job wd r s =
     (let jid = drop (length ''/v1/jobs/'') (rq_Path r); n = length jid
      in if n > 7 \<and> drop (n - 7) jid = ''/resize'' then api_resize wd r (take (n - 7) jid) s
         else if rq_Method r = ''GET'' then
           (case Job_of jid (sv_d s) of Some job \<Rightarrow> (s, (200, PJob job), []) | None \<Rightarrow> fail_with 404 s)
         else if rq_Method r = ''DELETE'' then
           (case Stop jid (sv_d s) of
              (d, Inl e, effs) \<Rightarrow> (s\<lparr>sv_d := d\<rparr>, (404, PError), effs)
            | (d, Inr _, effs) \<Rightarrow> (s\<lparr>sv_d := d\<rparr>, (200, PStopped jid), effs))
         else fail_with 405 s)"

definition api_cards :: "Server \<Rightarrow> reply" where
  "api_cards s = (s, (200, PCards (Cards_view (sv_d s))), [])"

text \<open>Times are in nanoseconds; \<open>rq_Since\<close> is the parsed duration, if there is one and it parses.\<close>

definition api_usage :: "outside \<Rightarrow> http_req \<Rightarrow> Server \<Rightarrow> reply" where
  "api_usage wd r s =
     (let until = wd_now wd; since = (case rq_Since r of Some dur \<Rightarrow> until - dur | None \<Rightarrow> until - 86400000000000)
      in case Usage_of since until (rq_By r) (sv_d s) of
          None \<Rightarrow> fail_with 400 s
        | Some rows \<Rightarrow> (s, (200, PUsage since until rows), []))"

subsection \<open>Sessions\<close>

text \<open>\<^verbatim>\<open>%08x\<close> of 32 bits.\<close>

definition hex8 :: "nat \<Rightarrow> string" where
  "hex8 n = map (\<lambda>i. hex_char (n div 16 ^ i mod 16)) (rev [0..<8])"

text \<open>Four random bytes, big-endian; the low 32 bits of the clock if there are none.\<close>

definition rndUint32 :: "outside \<Rightarrow> nat" where
  "rndUint32 wd = (case wd_rand wd of
     None \<Rightarrow> nat (wd_now wd mod 2 ^ 32)
   | Some b \<Rightarrow> (b ! 0 mod 256) * 2 ^ 24 + (b ! 1 mod 256) * 2 ^ 16 + (b ! 2 mod 256) * 2 ^ 8 + b ! 3 mod 256)"

definition randHex :: "outside \<Rightarrow> string" where
  "randHex wd = hex8 (rndUint32 wd)"

definition api_sessionsCreate :: "outside \<Rightarrow> http_req \<Rightarrow> Server \<Rightarrow> reply" where
  "api_sessionsCreate wd r s =
     (case sv_sessions s of
        None \<Rightarrow> fail_with 501 s
      | Some st \<Rightarrow>
          if rq_Method r \<noteq> ''POST'' then fail_with 405 s
          else let sid = (if bd_id (rq_Body r) = [] then ''s'' @ randHex wd else bd_id (rq_Body r))
               in case Workspace sid True (wd_now wd) (wd_disk wd) st of
                   (st', Inl e) \<Rightarrow> (s\<lparr>sv_sessions := Some st'\<rparr>, (400, PError), [])
                 | (st', Inr _) \<Rightarrow> (s\<lparr>sv_sessions := Some st'\<rparr>, (201, PSession sid), []))"

definition api_manifest :: "http_req \<Rightarrow> Store \<Rightarrow> Server \<Rightarrow> reply" where
  "api_manifest r st s = (if \<not> rq_BodyOk r then fail_with 400 s else (s, (200, PMissing (Missing (bd_files (rq_Body r)) st)), []))"

definition api_blob :: "(string \<Rightarrow> string) \<Rightarrow> outside \<Rightarrow> http_req \<Rightarrow> Server \<Rightarrow> reply" where
  "api_blob sha256 wd r s =
     (case sv_sessions s of
        None \<Rightarrow> fail_with 501 s
      | Some st \<Rightarrow>
          if rq_Method r \<noteq> ''PUT'' then fail_with 405 s
          else let sha = TrimPrefix (rq_Path r) ''/v1/blobs/''
               in case PutBlobFrom sha256 sha (rq_Data r) (rq_Whole r) (wd_disk wd) st of
                   (st', Inl e) \<Rightarrow> (s\<lparr>sv_sessions := Some st'\<rparr>, (400, PError), [])
                 | (st', Inr n) \<Rightarrow> (s\<lparr>sv_sessions := Some st'\<rparr>, (200, PBlob sha n), []))"

definition api_apply :: "outside \<Rightarrow> http_req \<Rightarrow> string \<Rightarrow> Store \<Rightarrow> Server \<Rightarrow> reply" where
  "api_apply wd r sid st s =
     (if \<not> rq_BodyOk r then fail_with 400 s
      else case Apply sid (bd_files (rq_Body r)) (bd_prune (rq_Body r)) (wd_now wd) (wd_disk wd) (wd_write wd) (wd_rec wd) st of
          (st', Some e) \<Rightarrow> (s\<lparr>sv_sessions := Some st'\<rparr>, (400, PError), [])
        | (st', None) \<Rightarrow> (s\<lparr>sv_sessions := Some st'\<rparr>, (200, PApplied (length (bd_files (rq_Body r)))), []))"

definition api_fetchWs :: "outside \<Rightarrow> http_req \<Rightarrow> string \<Rightarrow> Store \<Rightarrow> Server \<Rightarrow> reply" where
  "api_fetchWs wd r sid st s =
     (case Fetch (wd_glob wd) sid (bd_globs (rq_Body r)) st of
        Inl e \<Rightarrow> fail_with 400 s
      | Inr entries \<Rightarrow> (s, (200, PArchive entries), []))"

text \<open>
  \<^verbatim>\<open>exec\<close> up to its first event: the job it submits and how the stream begins, with an error or with the job's id and state. The rest of the stream is
  \<open>exec_sent\<close>.
\<close>

definition exec_submit :: "string \<Rightarrow> SubmitRequest \<Rightarrow> SubmitRequest" where
  "exec_submit ws b = \<lparr>sr_Command = sr_Command b, sr_Name = sr_Name b, sr_Owner = [], sr_Share = sr_Share b, sr_MemMiB = sr_MemMiB b, sr_GPUs = 0,
     sr_Priority = 0, sr_Preemptible = False, sr_Burst = False, sr_Wait = sr_Wait b, sr_Allow = sr_Allow b, sr_DenyNet = sr_DenyNet b, sr_Dir = ws\<rparr>"

definition api_exec :: "outside \<Rightarrow> http_req \<Rightarrow> string \<Rightarrow> Store \<Rightarrow> Server \<Rightarrow> reply" where
  "api_exec wd r sid st s =
     (if \<not> rq_BodyOk r then fail_with 400 s
      else case Workspace sid False (wd_now wd) (wd_disk wd) st of
          (_, Inl e) \<Rightarrow> fail_with 400 s
        | (_, Inr ws) \<Rightarrow>
            (case SubmitStreaming (exec_submit ws (bd_job (rq_Body r))) (wd_stream wd) (wd_jid wd) (wd_now wd) (wd_writable wd) (wd_lo wd) (sv_d s) of
               (d, Inl e, effs) \<Rightarrow> (s\<lparr>sv_d := d\<rparr>, (200, PStreamError e), effs)
             | (d, Inr jid, effs) \<Rightarrow> (s\<lparr>sv_d := d\<rparr>, (200, PStream jid (case Job_of jid d of Some job \<Rightarrow> jb_State job | None \<Rightarrow> [])), effs)))"

definition api_session :: "outside \<Rightarrow> http_req \<Rightarrow> Server \<Rightarrow> reply" where
  "api_session wd r s =
     (case sv_sessions s of
        None \<Rightarrow> fail_with 501 s
      | Some st \<Rightarrow>
          (case Cut (TrimPrefix (rq_Path r) ''/v1/sessions/'') ''/'' of (sid, verb, _) \<Rightarrow>
             if verb = [] \<and> rq_Method r = ''DELETE'' then
               (case Delete_session sid st of
                  (st', Some e) \<Rightarrow> (s\<lparr>sv_sessions := Some st'\<rparr>, (400, PError), [])
                | (st', None) \<Rightarrow> (s\<lparr>sv_sessions := Some st'\<rparr>, (200, PDeleted sid), []))
             else if verb = ''manifest'' \<and> rq_Method r = ''POST'' then api_manifest r st s
             else if verb = ''apply'' \<and> rq_Method r = ''POST'' then api_apply wd r sid st s
             else if verb = ''exec'' \<and> rq_Method r = ''POST'' then api_exec wd r sid st s
             else if verb = ''fetch'' \<and> rq_Method r = ''POST'' then api_fetchWs wd r sid st s
             else fail_with 404 s))"

subsection \<open>Routing\<close>

text \<open>\<^verbatim>\<open>http.ServeMux\<close> redirects a path that is not clean, keeping a final slash, and a directory's path without it.\<close>

definition mux_path :: "string \<Rightarrow> string" where
  "mux_path p =
     (let q = (if HasPrefix p ''/'' then p else ''/'' @ p); np = Clean q
      in if HasSuffix q ''/'' \<and> np \<noteq> ''/'' then np @ ''/'' else np)"

definition mux :: "(string \<Rightarrow> string) \<Rightarrow> outside \<Rightarrow> http_req \<Rightarrow> Server \<Rightarrow> reply" where
  "mux sha256 wd r s =
     (let p = rq_Path r
      in if mux_path p \<noteq> p then (s, (301, PRedirect (mux_path p)), [])
         else if p = ''/v1/jobs'' then api_jobs wd r s
         else if HasPrefix p ''/v1/jobs/'' then api_job wd r s
         else if p = ''/v1/cards'' then api_cards s
         else if p = ''/v1/usage'' then api_usage wd r s
         else if p = ''/v1/health'' then (s, (200, PHealth), [])
         else if p = ''/v1/sessions'' then api_sessionsCreate wd r s
         else if HasPrefix p ''/v1/sessions/'' then api_session wd r s
         else if p = ''/v1/blobs'' then (s, (301, PRedirect (p @ ''/'')), [])
         else if HasPrefix p ''/v1/blobs/'' then api_blob sha256 wd r s
         else fail_with 404 s)"

text \<open>The handler of the TCP port; the local socket serves \<open>mux\<close> itself.\<close>

definition handler :: "(string \<Rightarrow> string \<Rightarrow> bool) \<Rightarrow> (string \<Rightarrow> string) \<Rightarrow> outside \<Rightarrow> http_req \<Rightarrow> Server \<Rightarrow> reply" where
  "handler uni_eq sha256 wd r s =
     (if sv_token s = [] then mux sha256 wd r s
      else if \<not> EqualFold uni_eq (rq_Auth r) (''Bearer '' @ sv_token s) then fail_with 401 s
      else mux sha256 wd r s)"

subsection \<open>The stream of a run\<close>

text \<open>
  \<^verbatim>\<open>bufio.Scanner\<close> over lines: a final newline ends the last line, a carriage return before a newline goes, and a line that does not fit the buffer with its newline
  ends the scan.
\<close>

definition raw_lines :: "string \<Rightarrow> string list" where
  "raw_lines s = (let ps = parts (CHR 0x0A) s in if last ps = [] then butlast ps else ps)"

definition drop_cr :: "string \<Rightarrow> string" where
  "drop_cr l = (if l \<noteq> [] \<and> last l = CHR 0x0D then butlast l else l)"

definition scan_lines :: "nat \<Rightarrow> string \<Rightarrow> string list" where
  "scan_lines limit s = map drop_cr (takeWhile (\<lambda>l. length l < limit) (raw_lines s))"

text \<open>The two scanners send to one channel; \<open>order\<close> says who is first each time.\<close>

fun merge :: "bool list \<Rightarrow> 'a list \<Rightarrow> 'a list \<Rightarrow> 'a list" where
  "merge order [] ys = ys"
| "merge order xs [] = xs"
| "merge [] (x # xs) (y # ys) = x # merge [] xs (y # ys)"
| "merge (b # order) (x # xs) (y # ys) = (if b then x # merge order xs (y # ys) else y # merge order (x # xs) ys)"

text \<open>
  What \<^verbatim>\<open>exec\<close> sends for a job that wrote \<open>out\<close> and \<open>err\<close> and ended with \<open>code\<close>, as the client decodes it; \<open>wire\<close> is what encoding a line as JSON and decoding it
  makes of it.
\<close>

definition scan_limit :: nat where
  "scan_limit = 4194304"

definition exec_sent :: "(string \<Rightarrow> string) \<Rightarrow> bool list \<Rightarrow> string \<Rightarrow> string \<Rightarrow> int \<Rightarrow> event list" where
  "exec_sent wire order out err code =
     EvOther # merge order (map (\<lambda>l. EvOut (wire l)) (scan_lines scan_limit out)) (map (\<lambda>l. EvErr (wire l)) (scan_lines scan_limit err)) @ [EvExit code]"

subsection \<open>The token\<close>

text \<open>\<^verbatim>\<open>LoadOrCreateToken\<close>: the file's contents, the random bytes and whether the file can be written; the token and what the file then holds.\<close>

definition hex_bytes :: "nat list \<Rightarrow> string" where
  "hex_bytes bs = concat (map (\<lambda>b. [hex_char (b div 16 mod 16), hex_char (b mod 16)]) bs)"

text \<open>What \<^verbatim>\<open>os.WriteFile\<close> does: it writes the file, or fails and leaves it with some contents or none.\<close>

datatype written = Wrote | NotWritten "string option"

definition LoadOrCreateToken :: "string option \<Rightarrow> nat list option \<Rightarrow> written \<Rightarrow> (string + string) \<times> string option" where
  "LoadOrCreateToken file rand disk =
     (let found = (case file of Some b \<Rightarrow> TrimSpace b | None \<Rightarrow> [])
      in if found \<noteq> [] then (Inr found, file)
         else case rand of None \<Rightarrow> (Inl ''rand'', file)
           | Some bs \<Rightarrow> (case disk of Wrote \<Rightarrow> (Inr (hex_bytes bs), Some (hex_bytes bs @ [CHR 0x0A])) | NotWritten x \<Rightarrow> (Inl ''write'', x)))"

end
