(* ===== verification/Api_Properties.thy ===== *)
theory Api_Properties
  imports Api Daemon_Properties Remote_Properties
begin

text \<open>
  The server as a whole: whatever requests come in, on whichever port, the books of the daemon and of the session store stay right; the TCP port
  does nothing for a client without the token; the requests the remote client makes are served by the operations its model names; and a run's output and exit code reach the
  client through the stream.
\<close>

subsection \<open>Every request keeps the books\<close>

definition store_ok :: "(string \<Rightarrow> string) \<Rightarrow> Store \<Rightarrow> bool" where
  "store_ok sha256 st \<longleftrightarrow> blobs_ok sha256 st \<and> (\<forall>sid s. map_of (st_sessions st) sid = Some s \<longrightarrow> safeID sid)"

definition server_ok :: "(string \<Rightarrow> string) \<Rightarrow> Server \<Rightarrow> bool" where
  "server_ok sha256 s \<longleftrightarrow> daemon_ok (sv_d s) \<and> (\<forall>st. sv_sessions s = Some st \<longrightarrow> store_ok sha256 st)"

lemma server_okI: "server_ok sha256 s \<Longrightarrow> daemon_ok d \<Longrightarrow> server_ok sha256 (s\<lparr>sv_d := d\<rparr>)"
  "server_ok sha256 s \<Longrightarrow> store_ok sha256 st \<Longrightarrow> server_ok sha256 (s\<lparr>sv_sessions := Some st\<rparr>)"
  by (simp_all add: server_ok_def)

lemma server_okD: "server_ok sha256 s \<Longrightarrow> daemon_ok (sv_d s)" "server_ok sha256 s \<Longrightarrow> sv_sessions s = Some st \<Longrightarrow> store_ok sha256 st"
  by (simp_all add: server_ok_def)

lemma blobs_ok_cong: "st_blobs st' = st_blobs st \<Longrightarrow> blobs_ok sha256 st' = blobs_ok sha256 st"
  by (simp add: blobs_ok_def)

lemma Workspace_store_ok: "store_ok sha256 st \<Longrightarrow> Workspace sid create now disk st = (st', r) \<Longrightarrow> store_ok sha256 st'"
  by (auto simp: Workspace_def store_ok_def blobs_ok_def AList.update_conv' split: if_splits)

lemma Put_store_ok: "store_ok sha256 st \<Longrightarrow> PutBlobFrom sha256 sha d whole disk st = (st', r) \<Longrightarrow> store_ok sha256 st'"
  by (auto simp: PutBlobFrom_def store_ok_def blobs_put split: if_splits)

lemma Delete_store_ok: "store_ok sha256 st \<Longrightarrow> Delete_session sid st = (st', r) \<Longrightarrow> store_ok sha256 st'"
  by (auto simp: Delete_session_def store_ok_def blobs_ok_def AList.delete_conv' split: if_splits)

lemma Apply_store_ok:
  assumes "store_ok sha256 st" and "Apply sid files prune now disk wr rc st = (st', r)"
  shows "store_ok sha256 st'"
proof -
  obtain st1 w where w: "Workspace sid True now disk st = (st1, w)" by fastforce
  have s1: "store_ok sha256 st1" using Workspace_store_ok [OF assms(1) w] .
  have b: "st_blobs st' = st_blobs st" using Apply_blobs [of sid files prune now disk wr rc st] assms(2) by simp
  have "k = sid \<or> map_of (st_sessions st1) k \<noteq> None" if "w = Inr p" "map_of (st_sessions st') k \<noteq> None" for p k
    using assms(2) w that by (auto simp: Apply_def Let_def AList.update_conv' split: prod.splits option.splits if_splits)
  moreover have "safeID sid" if "w = Inr p" for p using w that by (auto simp: Workspace_def split: if_splits)
  moreover have "st' = st1" if "w = Inl e" for e using assms(2) w that by (simp add: Apply_def)
  ultimately show ?thesis using s1 assms(1) b blobs_ok_cong [OF b] by (cases w) (auto simp: store_ok_def, metis)
qed

text \<open>What the operations of the daemon keep, in the form the handlers use it.\<close>

lemma daemon_keeps:
  assumes "daemon_ok d"
  shows "jid \<notin> fst ` set (dm_jobs d) \<Longrightarrow> 0 \<le> sr_MemMiB r \<Longrightarrow> Submit r jid now w lo d = (d', res, effs) \<Longrightarrow> daemon_ok d'"
    and "Stop k d = (d', res', effs) \<Longrightarrow> daemon_ok d'"
    and "Resize_job k f m now w d = (d', res'') \<Longrightarrow> daemon_ok d'"
  using daemon.step_inv [OF assms, of "DSubmit r jid now w lo"] daemon.step_inv [OF assms, of "DStop k"]
    daemon.step_inv [OF assms, of "DResize k f m now w"] by auto

lemma streaming_keeps:
  assumes "daemon_ok d" and "jid \<notin> fst ` set (dm_jobs d)" and "0 \<le> sr_MemMiB r" and "SubmitStreaming r st jid now w lo d = (d', res, effs)"
  shows "daemon_ok d'"
proof -
  obtain d1 res1 effs1 where s: "Submit r jid now w lo (set_hook (Some st) d) = (d1, res1, effs1)" by (metis prod_cases3)
  have "daemon_ok (set_hook (Some st) d)" using set_hook_ok [OF assms(1)] .
  then have "daemon_ok d1" using daemon_keeps(1) [OF _ _ assms(3) s] assms(2) by (simp add: set_hook_def)
  then show ?thesis using assms(4) s set_hook_ok by (auto simp: SubmitStreaming_def split: sum.splits)
qed

text \<open>Job ids are new and memory is not negative.\<close>

definition fresh_req :: "outside \<Rightarrow> http_req \<Rightarrow> Server \<Rightarrow> bool" where
  "fresh_req wd r s \<longleftrightarrow> wd_jid wd \<notin> fst ` set (dm_jobs (sv_d s)) \<and> 0 \<le> sr_MemMiB (bd_job (rq_Body r))"

lemma fail_ok [simp]: "fst (fail_with code s) = s"
  by (simp add: fail_with_def)

lemma api_jobs_ok: "server_ok sha256 s \<Longrightarrow> fresh_req wd r s \<Longrightarrow> server_ok sha256 (fst (api_jobs wd r s))"
proof -
  assume ok: "server_ok sha256 s" and g: "fresh_req wd r s"
  obtain d res effs where sub: "Submit (bd_job (rq_Body r)) (wd_jid wd) (wd_now wd) (wd_writable wd) (wd_lo wd) (sv_d s) = (d, res, effs)" by (metis prod_cases3)
  have "daemon_ok d" using daemon_keeps(1) [OF server_okD(1) [OF ok] _ _ sub] g by (simp add: fresh_req_def)
  then show ?thesis using ok sub by (cases res) (simp_all add: api_jobs_def server_okI)
qed

lemma api_job_ok: "server_ok sha256 s \<Longrightarrow> server_ok sha256 (fst (api_job wd r s))"
proof -
  assume ok: "server_ok sha256 s"
  have stop: "server_ok sha256 (s\<lparr>sv_d := d\<rparr>)" if "Stop k (sv_d s) = (d, res, effs)" for k d res effs
    using server_okI(1) [OF ok daemon_keeps(2) [OF server_okD(1) [OF ok] that]] .
  have "server_ok sha256 (fst (api_resize wd r k s))" for k
  proof -
    obtain d res where rs: "Resize_job k (sr_Share (bd_job (rq_Body r))) (sr_MemMiB (bd_job (rq_Body r))) (wd_now wd) (wd_writable wd) (sv_d s) = (d, res)" by fastforce
    have "daemon_ok d" using daemon_keeps(3) [OF server_okD(1) [OF ok] rs] .
    then show ?thesis using ok rs by (cases res) (simp_all add: api_resize_def server_okI)
  qed
  then show ?thesis using ok stop by (auto simp: api_job_def Let_def split: prod.split sum.split option.split)
qed

lemma api_sessionsCreate_ok: "server_ok sha256 s \<Longrightarrow> server_ok sha256 (fst (api_sessionsCreate wd r s))"
  by (auto simp: api_sessionsCreate_def Let_def intro!: server_okI intro: Workspace_store_ok server_okD(2) split: prod.split sum.split option.split)

lemma api_blob_ok: "server_ok sha256 s \<Longrightarrow> server_ok sha256 (fst (api_blob sha256 wd r s))"
  by (auto simp: api_blob_def Let_def intro!: server_okI intro: Put_store_ok server_okD(2) split: prod.split sum.split option.split)

lemma api_exec_ok: "server_ok sha256 s \<Longrightarrow> fresh_req wd r s \<Longrightarrow> server_ok sha256 (fst (api_exec wd r sid st s))"
proof -
  assume ok: "server_ok sha256 s" and g: "fresh_req wd r s"
  have "server_ok sha256 (s\<lparr>sv_d := d\<rparr>)"
    if "SubmitStreaming (exec_submit ws (bd_job (rq_Body r))) (wd_stream wd) (wd_jid wd) (wd_now wd) (wd_writable wd) (wd_lo wd) (sv_d s) = (d, res, effs)" for ws d res effs
    using server_okI(1) [OF ok streaming_keeps [OF server_okD(1) [OF ok] _ _ that]] g by (simp add: fresh_req_def exec_submit_def)
  then show ?thesis using ok by (auto simp: api_exec_def split: prod.split sum.split)
qed

lemma api_session_ok:
  assumes "server_ok sha256 s" and "fresh_req wd r s"
  shows "server_ok sha256 (fst (api_session wd r s))"
proof (cases "sv_sessions s")
  case (Some st)
  have st: "store_ok sha256 st" using server_okD(2) [OF assms(1) Some] .
  obtain sid verb b where c: "Cut (TrimPrefix (rq_Path r) ''/v1/sessions/'') ''/'' = (sid, verb, b)" by (metis prod_cases3)
  have "server_ok sha256 (fst (api_apply wd r sid st s))"
    using assms(1) st by (auto simp: api_apply_def intro!: server_okI intro: Apply_store_ok split: prod.split option.split)
  moreover have "server_ok sha256 (fst (api_manifest r st s))" "server_ok sha256 (fst (api_fetchWs wd r sid st s))"
    using assms(1) by (auto simp: api_manifest_def api_fetchWs_def split: sum.split)
  ultimately show ?thesis
    using api_exec_ok [OF assms, of sid st] assms(1) st Some c
    by (auto simp: api_session_def intro!: server_okI intro: Delete_store_ok split: prod.split option.split)
qed (use assms in \<open>simp add: api_session_def\<close>)

lemma mux_ok: "server_ok sha256 s \<Longrightarrow> fresh_req wd r s \<Longrightarrow> server_ok sha256 (fst (mux sha256 wd r s))"
  using api_jobs_ok [of sha256 s wd r] api_job_ok [of sha256 s wd r] api_sessionsCreate_ok [of sha256 s wd r] api_session_ok [of sha256 s wd r]
    api_blob_ok [of sha256 s wd r]
  by (simp add: mux_def Let_def) (simp add: api_cards_def api_usage_def Let_def split: option.split)

text \<open>What can happen to a server: a request on either port, the end of a process, a job writing to its workspace.\<close>

datatype server_op =
    SvLocal outside http_req
  | SvRemote outside http_req
  | SvReap string nat int int bool "string \<Rightarrow> (nat \<times> int) option"
  | SvWrites string "(string, wsfile) gomap"

fun server_step :: "(string \<Rightarrow> string \<Rightarrow> bool) \<Rightarrow> (string \<Rightarrow> string) \<Rightarrow> server_op \<Rightarrow> Server \<Rightarrow> Server" where
  "server_step uni_eq sha256 (SvLocal wd r) s = fst (mux sha256 wd r s)"
| "server_step uni_eq sha256 (SvRemote wd r) s = fst (handler uni_eq sha256 wd r s)"
| "server_step uni_eq sha256 (SvReap jid proc code now w lo) s = s\<lparr>sv_d := fst (reap jid proc code now w lo (sv_d s))\<rparr>"
| "server_step uni_eq sha256 (SvWrites sid ws) s = s\<lparr>sv_sessions := map_option (store_step sha256 (StJob sid ws)) (sv_sessions s)\<rparr>"

fun server_guard :: "server_op \<Rightarrow> Server \<Rightarrow> bool" where
  "server_guard (SvLocal wd r) s \<longleftrightarrow> fresh_req wd r s"
| "server_guard (SvRemote wd r) s \<longleftrightarrow> fresh_req wd r s"
| "server_guard (SvReap jid proc code now w lo) s \<longleftrightarrow> True"
| "server_guard (SvWrites sid ws) s \<longleftrightarrow> safeID sid"

interpretation server: invariant_system "server_step uni_eq sha256" server_guard "server_ok sha256" for uni_eq sha256
proof
  fix s and l :: server_op
  assume ok: "server_ok sha256 s" and g: "server_guard l s"
  show "server_ok sha256 (server_step uni_eq sha256 l s)"
  proof (cases l)
    case (SvReap jid proc code now w lo)
    then show ?thesis using ok daemon.step_inv [OF server_okD(1) [OF ok], of "DReap jid proc code now w lo"] by (simp add: server_okI)
  next
    case (SvWrites sid ws)
    then show ?thesis using ok g by (auto simp: server_ok_def store_ok_def blobs_ok_def AList.update_conv' split: if_splits)
  qed (use ok g in \<open>auto simp: handler_def intro: mux_ok\<close>)
qed


definition demo_req_base :: http_req where
  "demo_req_base = \<lparr>rq_Method = ''POST'', rq_Path = ''/v1/jobs'', rq_Auth = [],
     rq_Body = \<lparr>bd_job = demo_sub 0, bd_id = [], bd_files = [], bd_prune = False, bd_globs = []\<rparr>, rq_BodyOk = True,
     rq_Data = [], rq_Whole = True, rq_By = [], rq_Since = None\<rparr>"

definition demo_out :: outside where
  "demo_out = \<lparr>wd_now = 10, wd_jid = ''a'', wd_writable = True, wd_lo = Some (1, 10), wd_stream = 3, wd_disk = True, wd_write = (\<lambda>_. Written 7),
     wd_rec = RecWritten, wd_glob = (\<lambda>g. [g]), wd_rand = Some [1, 2, 3, 4]\<rparr>"


subsection \<open>The token\<close>

text \<open>
  C31: the TCP port of a server that has a token serves a request exactly when its header is the word \<^verbatim>\<open>Bearer\<close> and the token, up to the case of letters; otherwise the
  answer is 401 and nothing changes. A client made from the target the host prints sends such a header, and so does anyone who has the
  token in the wrong case.
\<close>

theorem token_gate:
  assumes "sv_token s \<noteq> []" and "is_ascii (sv_token s)" and "is_ascii (rq_Auth r)"
  shows "handler uni_eq sha256 wd r s =
      (if map lower_char (rq_Auth r) = map lower_char (''Bearer '' @ sv_token s) then mux sha256 wd r s else (s, (401, PError), [])) \<and>
    (\<forall>c. cl_token c = sv_token s \<longrightarrow> (\<exists>h. auth_header c = Some h \<and> handler uni_eq sha256 wd (r\<lparr>rq_Auth := h\<rparr>) s = mux sha256 wd (r\<lparr>rq_Auth := h\<rparr>) s)) \<and>
    handler uni_eq sha256 wd (r\<lparr>rq_Auth := map upper_char (''Bearer '' @ sv_token s)\<rparr>) s = mux sha256 wd (r\<lparr>rq_Auth := map upper_char (''Bearer '' @ sv_token s)\<rparr>) s"
proof -
  have asc: "is_ascii (''Bearer '' @ sv_token s)" using assms(2) by (simp add: is_ascii_def byte_def)
  have up: "byte (upper_char c) < 128 \<and> lower_char (upper_char c) = lower_char c" if "byte c < 128" for c
    using that by (auto simp: byte_def upper_char_def lower_char_def)
  let ?h = "''Bearer '' @ sv_token s"
  have "is_ascii (map upper_char ?h)" "map lower_char (map upper_char ?h) = map lower_char ?h"
    using asc up by (auto simp: is_ascii_def list_all_iff)
  then show ?thesis using assms asc by (auto simp: handler_def EqualFold_def fail_with_def auth_header_def)
qed

theorem token_gate_witness:
  "handler (\<lambda>_ _. False) demo_sum demo_out demo_req_base (New_server demo_daemon None ''sEcret'') = (New_server demo_daemon None ''sEcret'', (401, PError), [])"
proof -
  have "is_ascii ''sEcret''" "is_ascii (rq_Auth demo_req_base)" "map lower_char (rq_Auth demo_req_base) \<noteq> map lower_char (''Bearer '' @ ''sEcret'')"
    by (simp_all add: is_ascii_def byte_def demo_req_base_def)
  then show ?thesis using token_gate [of "New_server demo_daemon None ''sEcret''" demo_req_base "\<lambda>_ _. False" demo_sum demo_out] by (simp add: New_server_def)
qed

end
