(* ===== verification/Remote_Run.thy ===== *)
theory Remote_Run
  imports Api_Properties Cli_Properties
begin

text \<open>
  A remote run from end to end: \<^verbatim>\<open>runRemote\<close> of \<^verbatim>\<open>cmd/gmux/main.go\<close> and the requests the client of \<^verbatim>\<open>internal/remote\<close> makes, served by the handlers of \<^verbatim>\<open>internal/api\<close>. The client's
  \<^verbatim>\<open>Sync\<close> over these requests does what its model against the store says, so the job starts in a copy of the directory; and the events its stream carries give the client the
  job's output and exit code.
\<close>

subsection \<open>The client's requests\<close>

definition no_job :: SubmitRequest where
  "no_job = \<lparr>sr_Command = [], sr_Name = [], sr_Owner = [], sr_Share = Fin 0, sr_MemMiB = 0, sr_GPUs = 0, sr_Priority = 0, sr_Preemptible = False,
     sr_Burst = False, sr_Wait = False, sr_Allow = [], sr_DenyNet = False, sr_Dir = []\<rparr>"

definition no_body :: jbody where
  "no_body = \<lparr>bd_job = no_job, bd_id = [], bd_files = [], bd_prune = False, bd_globs = []\<rparr>"

definition client_req :: "Client \<Rightarrow> string \<Rightarrow> string \<Rightarrow> jbody \<Rightarrow> string \<Rightarrow> http_req" where
  "client_req c method path body data = \<lparr>rq_Method = method, rq_Path = path, rq_Auth = (case auth_header c of Some h \<Rightarrow> h | None \<Rightarrow> []),
     rq_Body = body, rq_BodyOk = True, rq_Data = data, rq_Whole = True, rq_By = [], rq_Since = None\<rparr>"

text \<open>The host a client talks to: what its listener is made of, and what it gets from outside.\<close>

record link =
  lk_uni_eq :: "string \<Rightarrow> string \<Rightarrow> bool"
  lk_sha256 :: "string \<Rightarrow> string"
  lk_out :: outside

definition call :: "link \<Rightarrow> http_req \<Rightarrow> Server \<Rightarrow> reply" where
  "call k r s = handler (lk_uni_eq k) (lk_sha256 k) (lk_out k) r s"

definition EnsureSession :: "link \<Rightarrow> Client \<Rightarrow> string \<Rightarrow> Server \<Rightarrow> Server \<times> string option" where
  "EnsureSession k c sid s =
     (case call k (client_req c ''POST'' ''/v1/sessions'' (no_body\<lparr>bd_id := sid\<rparr>) []) s of (s', (code, p), _) \<Rightarrow>
        (s', if code \<ge> 400 then None else Some (case p of PSession i \<Rightarrow> i | _ \<Rightarrow> [])))"

fun http_upload :: "link \<Rightarrow> Client \<Rightarrow> (string \<Rightarrow> string option) \<Rightarrow> (string, string) gomap \<Rightarrow> string list \<Rightarrow> Server \<Rightarrow> Server \<times> bool" where
  "http_upload k c bytes_at bySHA [] s = (s, True)"
| "http_upload k c bytes_at bySHA (sha # shas) s =
     (case bytes_at (case map_of bySHA sha of Some p \<Rightarrow> p | None \<Rightarrow> []) of
        None \<Rightarrow> (s, False)
      | Some d \<Rightarrow>
          (case call k (client_req c ''PUT'' (''/v1/blobs/'' @ sha) no_body d) s of (s', (code, _), _) \<Rightarrow>
             if code \<ge> 400 then (s', False) else http_upload k c bytes_at bySHA shas s'))"

text \<open>\<^verbatim>\<open>Sync\<close> with its requests; the result is the numbers of files and of uploads, or nothing after an error.\<close>

definition http_Sync :: "link \<Rightarrow> Client \<Rightarrow> (string \<Rightarrow> string option) \<Rightarrow> string \<Rightarrow> string \<Rightarrow> node \<Rightarrow> string \<Rightarrow> hashCache option \<Rightarrow> Server \<Rightarrow>
    Server \<times> hashCache option \<times> (nat \<times> nat) option" where
  "http_Sync k c bytes_at dir name t sid h s =
     (case buildManifest (lk_sha256 k) dir name t h of (manifest, hashed, err, h1) \<Rightarrow>
        let h' = fst (cache_save h1)
        in if err then (s, h', None)
           else case call k (client_req c ''POST'' (''/v1/sessions/'' @ sid @ ''/manifest'') (no_body\<lparr>bd_files := manifest\<rparr>) []) s of
               (s1, (code, p), _) \<Rightarrow>
                 if code \<ge> 400 then (s1, h', None)
                 else let missing = (case p of PMissing m \<Rightarrow> m | _ \<Rightarrow> []);
                          bySHA = fold (\<lambda>f m. AList.update (fl_SHA f) (Join [dir, fl_Path f]) m) manifest []
                      in case http_upload k c bytes_at bySHA missing s1 of
                           (s2, False) \<Rightarrow> (s2, h', None)
                         | (s2, True) \<Rightarrow>
                             (case call k (client_req c ''POST'' (''/v1/sessions/'' @ sid @ ''/apply'') (no_body\<lparr>bd_files := manifest, bd_prune := True\<rparr>) []) s2 of
                                (s3, (code, _), _) \<Rightarrow> (s3, h', if code \<ge> 400 then None else Some (length manifest, length missing))))"

definition exec_body :: "ExecRequest \<Rightarrow> jbody" where
  "exec_body r = no_body\<lparr>bd_job := no_job\<lparr>sr_Command := ex_Command r, sr_Share := ex_Share r, sr_MemMiB := ex_MemMiB r, sr_Name := ex_Name r,
     sr_Allow := ex_Allow r, sr_DenyNet := ex_DenyNet r, sr_Wait := ex_Wait r\<rparr>\<rparr>"

subsection \<open>runRemote\<close>

text \<open>Up to the command: the client, the session and how many files were synced.\<close>

definition prepareRemote :: "(string \<Rightarrow> string) \<Rightarrow> link \<Rightarrow> (string \<Rightarrow> string option) \<Rightarrow> string \<Rightarrow> string \<Rightarrow> node \<Rightarrow> string \<Rightarrow> string \<Rightarrow> hashCache option \<Rightarrow> Server \<Rightarrow>
    Server \<times> hashCache option \<times> (Client \<times> string \<times> nat \<times> nat) option" where
  "prepareRemote uni k bytes_at dir name t target session h s =
     (case Dial uni target of
        None \<Rightarrow> (s, h, None)
      | Some c \<Rightarrow>
          (case EnsureSession k c session s of
             (s1, None) \<Rightarrow> (s1, h, None)
           | (s1, Some sid) \<Rightarrow>
               (case http_Sync k c bytes_at dir name t sid h s1 of
                  (s2, h', None) \<Rightarrow> (s2, h', None)
                | (s2, h', Some (nf, up)) \<Rightarrow> (s2, h', Some (c, sid, nf, up)))))"

datatype run_end = RunError | Interrupted | Exited int

text \<open>
  The command: \<open>evs\<close> are the events its stream carries if it is accepted, \<open>later\<close> what the host does until the stream ends, \<open>cancelled\<close> whether the user interrupted it. The
  result has the lines printed, the files pulled and how the run ends (\<open>Interrupted\<close> is exit code 130).
\<close>

definition finishRemote :: "link \<Rightarrow> Client \<Rightarrow> string \<Rightarrow> string \<Rightarrow> ExecRequest \<Rightarrow> string list \<Rightarrow> bool \<Rightarrow> event list \<Rightarrow> (Server \<Rightarrow> Server) \<Rightarrow> (string \<Rightarrow> bool) \<Rightarrow> Server \<Rightarrow>
    Server \<times> string list \<times> string list \<times> (string \<times> string) list \<times> run_end" where
  "finishRemote k c sid dir req pull cancelled evs later create s =
     (case call k (client_req c ''POST'' (''/v1/sessions/'' @ sid @ ''/exec'') (exec_body req) []) s of (s1, (code, _), _) \<Rightarrow>
        if code \<ge> 400 then (s1, [], [], [], if cancelled then Interrupted else RunError)
        else case Exec_stream evs of (out, err, res) \<Rightarrow>
          let s2 = later s1
          in if cancelled then (s2, out, err, [], Interrupted)
             else case res of
                 Inl msg \<Rightarrow> (s2, out, err, [], RunError)
               | Inr exit \<Rightarrow>
                   if pull = [] then (s2, out, err, [], Exited exit)
                   else (case call k (client_req c ''POST'' (''/v1/sessions/'' @ sid @ ''/fetch'') (no_body\<lparr>bd_globs := pull\<rparr>) []) s2 of
                       (s3, (code, PArchive entries), _) \<Rightarrow>
                         (case Pull create dir entries of (files, failed) \<Rightarrow> (s3, out, err, files, if failed then RunError else Exited exit))
                     | (s3, _, _) \<Rightarrow> (s3, out, err, [], RunError)))"

definition runRemote :: "(string \<Rightarrow> string) \<Rightarrow> link \<Rightarrow> (string \<Rightarrow> string option) \<Rightarrow> string \<Rightarrow> string \<Rightarrow> node \<Rightarrow> run_action \<Rightarrow> hashCache option \<Rightarrow>
    bool \<Rightarrow> event list \<Rightarrow> (Server \<Rightarrow> Server) \<Rightarrow> (string \<Rightarrow> bool) \<Rightarrow> Server \<Rightarrow> Server \<times> string list \<times> string list \<times> (string \<times> string) list \<times> run_end" where
  "runRemote uni k bytes_at dir name t act h cancelled evs later create s =
     (case act of
        SubmitLocal sock r \<Rightarrow> (s, [], [], [], RunError)
      | RunRemote host target session req pull \<Rightarrow>
          (case prepareRemote uni k bytes_at dir name t target session h s of
             (s1, h', None) \<Rightarrow> (s1, [], [], [], RunError)
           | (s1, h', Some (c, sid, nf, up)) \<Rightarrow> finishRemote k c sid dir req pull cancelled evs later create s1))"

subsection \<open>The requests are served by the operations the client's model names\<close>

definition let_in :: "Client \<Rightarrow> Server \<Rightarrow> bool" where
  "let_in c s \<longleftrightarrow> sv_token s = [] \<or> cl_token c = sv_token s \<and> is_ascii (sv_token s)"

lemma call_mux: "let_in c s \<Longrightarrow> call k (client_req c m p b d) s = mux (lk_sha256 k) (lk_out k) (client_req c m p b d) s"
proof (cases "sv_token s = []")
  case False
  assume "let_in c s"
  then have t: "cl_token c = sv_token s" "is_ascii (''Bearer '' @ sv_token s)" using False by (simp_all add: let_in_def is_ascii_def byte_def)
  have auth: "rq_Auth (client_req c m p b d) = ''Bearer '' @ sv_token s" using t(1) False by (simp add: client_req_def auth_header_def)
  have "EqualFold u (''Bearer '' @ sv_token s) (''Bearer '' @ sv_token s)" for u using t(2) unfolding EqualFold_def by simp
  then show ?thesis by (simp only: call_def handler_def auth simp_thms if_False if_True if_cancel)
qed (simp add: call_def handler_def)

lemma let_in_sessions [simp]: "let_in c (s\<lparr>sv_sessions := x\<rparr>) = let_in c s"
  by (simp add: let_in_def)

lemma mux_abs:
  assumes "\<forall>e \<in> set es. plain e" and "es \<noteq> []"
  shows "mux_path (abs_path es) = abs_path es"
proof -
  have "\<not> HasSuffix (abs_path es) ''/''"
  proof
    assume "HasSuffix (abs_path es) ''/''"
    then obtain q where "abs_path es = q @ ''/''" by (auto simp: HasSuffix_def suffix_def)
    then have "parts (CHR ''/'') (abs_path es) = parts (CHR ''/'') q @ [[]]" using parts_append [of "CHR ''/''" q "[]"] by simp
    then have "[] # es = parts (CHR ''/'') q @ [[]]" using parts_abs [OF assms(1)] assms(2) by simp
    then have "last ([] # es) = last (parts (CHR ''/'') q @ [[]])" by (rule arg_cong)
    then have "last es = []" using assms(2) by simp
    then show False using assms last_in_set [OF assms(2)] by (auto simp: plain_def)
  qed
  then show ?thesis using Clean_abs_self [OF assms(1)] by (simp add: mux_path_def HasPrefix_def abs_path_def)
qed

lemma session_path:
  assumes "safeID sid" and "plain verb"
  shows "mux_path (''/v1/sessions/'' @ sid @ ''/'' @ verb) = ''/v1/sessions/'' @ sid @ ''/'' @ verb"
    and "Cut (TrimPrefix (''/v1/sessions/'' @ sid @ ''/'' @ verb) ''/v1/sessions/'') ''/'' = (sid, verb, True)"
proof -
  have "abs_path [''v1'', ''sessions'', sid, verb] = ''/v1/sessions/'' @ sid @ ''/'' @ verb" by (simp add: abs_path_def)
  then show "mux_path (''/v1/sessions/'' @ sid @ ''/'' @ verb) = ''/v1/sessions/'' @ sid @ ''/'' @ verb"
    using mux_abs [of "[''v1'', ''sessions'', sid, verb]"] safeID_plain [OF assms(1)] assms(2) by (simp add: plain_def)
  have "CHR ''/'' \<notin> set sid" using safeID_plain [OF assms(1)] by (simp add: plain_def)
  then show "Cut (TrimPrefix (''/v1/sessions/'' @ sid @ ''/'' @ verb) ''/v1/sessions/'') ''/'' = (sid, verb, True)"
    by (simp add: TrimPrefix_def Cut_byte takeWhile_append)
qed

lemma mux_session:
  assumes "rq_Path r = ''/v1/sessions/'' @ sid @ ''/'' @ verb" and "safeID sid" and "plain verb"
  shows "mux sha256 wd r s = api_session wd r s"
proof -
  have "mux_path (rq_Path r) = rq_Path r" using session_path(1) [OF assms(2,3)] assms(1) by simp
  then show ?thesis using assms(1) by (simp add: mux_def Let_def HasPrefix_def)
qed

lemma session_verb:
  assumes "rq_Path r = ''/v1/sessions/'' @ sid @ ''/'' @ verb" and "safeID sid" and "plain verb" and "sv_sessions s = Some st" and "rq_Method r = ''POST''"
  shows "verb = ''manifest'' \<Longrightarrow> mux sha256 wd r s = api_manifest r st s" and "verb = ''apply'' \<Longrightarrow> mux sha256 wd r s = api_apply wd r sid st s"
    and "verb = ''exec'' \<Longrightarrow> mux sha256 wd r s = api_exec wd r sid st s" and "verb = ''fetch'' \<Longrightarrow> mux sha256 wd r s = api_fetchWs wd r sid st s"
  unfolding mux_session [OF assms(1-3)] api_session_def assms(1,4,5) session_path(2) [OF assms(2,3)] option.case prod.case by simp_all

lemma call_manifest:
  assumes "let_in c s" and "sv_sessions s = Some st" and "safeID sid"
  shows "call k (client_req c ''POST'' (''/v1/sessions/'' @ sid @ ''/manifest'') (no_body\<lparr>bd_files := man\<rparr>) []) s = (s, (200, PMissing (Missing man st)), [])"
proof -
  define r where "r = client_req c ''POST'' (''/v1/sessions/'' @ sid @ ''/manifest'') (no_body\<lparr>bd_files := man\<rparr>) []"
  have r: "rq_Path r = ''/v1/sessions/'' @ sid @ ''/'' @ ''manifest''" "rq_Method r = ''POST''" "rq_BodyOk r" "bd_files (rq_Body r) = man"
    by (simp_all add: r_def client_req_def no_body_def)
  have "call k r s = api_manifest r st s"
    using call_mux [OF assms(1)] session_verb(1) [OF r(1) assms(3) _ assms(2) r(2)] by (simp add: r_def plain_def)
  then show ?thesis using r(3,4) unfolding r_def [symmetric] by (simp add: api_manifest_def)
qed

lemma call_apply:
  assumes "let_in c s" and "sv_sessions s = Some st" and "safeID sid"
  shows "call k (client_req c ''POST'' (''/v1/sessions/'' @ sid @ ''/apply'') (no_body\<lparr>bd_files := man, bd_prune := True\<rparr>) []) s =
    (case Apply sid man True (wd_now (lk_out k)) (wd_disk (lk_out k)) (wd_write (lk_out k)) (wd_rec (lk_out k)) st of
       (st', Some e) \<Rightarrow> (s\<lparr>sv_sessions := Some st'\<rparr>, (400, PError), [])
     | (st', None) \<Rightarrow> (s\<lparr>sv_sessions := Some st'\<rparr>, (200, PApplied (length man)), []))"
proof -
  define r where "r = client_req c ''POST'' (''/v1/sessions/'' @ sid @ ''/apply'') (no_body\<lparr>bd_files := man, bd_prune := True\<rparr>) []"
  have r: "rq_Path r = ''/v1/sessions/'' @ sid @ ''/'' @ ''apply''" "rq_Method r = ''POST''" "rq_BodyOk r" "bd_files (rq_Body r) = man" "bd_prune (rq_Body r)"
    by (simp_all add: r_def client_req_def no_body_def)
  have "call k r s = api_apply (lk_out k) r sid st s"
    using call_mux [OF assms(1)] session_verb(2) [OF r(1) assms(3) _ assms(2) r(2)] by (simp add: r_def plain_def)
  then show ?thesis using r(3-5) unfolding r_def [symmetric] by (simp add: api_apply_def)
qed

lemma call_blob:
  assumes "let_in c s" and "sv_sessions s = Some st" and "validSHA sha"
  shows "call k (client_req c ''PUT'' (''/v1/blobs/'' @ sha) no_body d) s =
    (case PutBlobFrom (lk_sha256 k) sha d True (wd_disk (lk_out k)) st of
       (st', Inl e) \<Rightarrow> (s\<lparr>sv_sessions := Some st'\<rparr>, (400, PError), [])
     | (st', Inr n) \<Rightarrow> (s\<lparr>sv_sessions := Some st'\<rparr>, (200, PBlob sha n), []))"
proof -
  define r where "r = client_req c ''PUT'' (''/v1/blobs/'' @ sha) no_body d"
  have "abs_path [''v1'', ''blobs'', sha] = ''/v1/blobs/'' @ sha" by (simp add: abs_path_def)
  then have m: "mux_path (''/v1/blobs/'' @ sha) = ''/v1/blobs/'' @ sha"
    using mux_abs [of "[''v1'', ''blobs'', sha]"] validSHA_plain [OF assms(3)] by (simp add: plain_def)
  have r: "rq_Path r = ''/v1/blobs/'' @ sha" "rq_Method r = ''PUT''" "rq_Data r = d" "rq_Whole r" by (simp_all add: r_def client_req_def)
  have "mux_path (rq_Path r) = rq_Path r" "sha \<noteq> []" using m r(1) assms(3) by (simp_all, auto simp: validSHA_def)
  then have "mux (lk_sha256 k) (lk_out k) r s = api_blob (lk_sha256 k) (lk_out k) r s" using r(1) by (simp add: mux_def Let_def HasPrefix_def)
  then have "call k r s = api_blob (lk_sha256 k) (lk_out k) r s" using call_mux [OF assms(1)] by (simp add: r_def)
  then show ?thesis using r assms(2) unfolding r_def [symmetric] by (simp add: api_blob_def TrimPrefix_def)
qed

definition host_of :: "outside \<Rightarrow> host" where
  "host_of wd = \<lparr>ho_now = wd_now wd, ho_disk = wd_disk wd, ho_write = wd_write wd, ho_rec = wd_rec wd\<rparr>"

lemma upload_over_http:
  assumes "let_in c s" and "sv_sessions s = Some st" and "\<forall>sha \<in> set shas. validSHA sha"
    and "upload (lk_sha256 k) (\<lambda>_. True) (host_of (lk_out k)) bytes_at bySHA shas st = (st', r)"
  shows "http_upload k c bytes_at bySHA shas s = (s\<lparr>sv_sessions := Some st'\<rparr>, r = None)"
  using assms
proof (induction shas arbitrary: s st)
  case (Cons sha shas)
  let ?p = "case map_of bySHA sha of Some p \<Rightarrow> p | None \<Rightarrow> []"
  show ?case
  proof (cases "bytes_at ?p")
    case (Some d)
    obtain st1 q where q: "PutBlobFrom (lk_sha256 k) sha d True (wd_disk (lk_out k)) st = (st1, q)" by fastforce
    have c: "call k (client_req c ''PUT'' (''/v1/blobs/'' @ sha) no_body d) s =
        (case q of Inl e \<Rightarrow> (s\<lparr>sv_sessions := Some st1\<rparr>, (400, PError), []) | Inr n \<Rightarrow> (s\<lparr>sv_sessions := Some st1\<rparr>, (200, PBlob sha n), []))"
      using call_blob [OF Cons.prems(1,2), of sha k d] Cons.prems(3) q by simp
    show ?thesis
    proof (cases q)
      case (Inl e)
      then show ?thesis using c q Some Cons.prems(4) by (auto simp: host_of_def)
    next
      case (Inr n)
      have "http_upload k c bytes_at bySHA shas (s\<lparr>sv_sessions := Some st1\<rparr>) = (s\<lparr>sv_sessions := Some st1, sv_sessions := Some st'\<rparr>, r = None)"
        by (rule Cons.IH) (use Cons.prems q Some Inr in \<open>auto simp: host_of_def\<close>)
      then show ?thesis using c Some Inr by simp
    qed
  qed (use Cons.prems in auto)
qed simp

lemma Sync_over_http:
  assumes "let_in c s" and "sv_sessions s = Some st" and "safeID sid"
    and "Sync (lk_sha256 k) (\<lambda>_. True) (host_of (lk_out k)) bytes_at dir name t sid h st = (st', h', r)"
  shows "http_Sync k c bytes_at dir name t sid h s = (s\<lparr>sv_sessions := Some st'\<rparr>, h', case r of Inr x \<Rightarrow> Some x | Inl e \<Rightarrow> None)"
proof -
  obtain man n err h1 where b: "buildManifest (lk_sha256 k) dir name t h = (man, n, err, h1)" by (metis prod_cases4)
  let ?by = "fold (\<lambda>f m. AList.update (fl_SHA f) (Join [dir, fl_Path f]) m) man []"
  obtain st1 e where u: "upload (lk_sha256 k) (\<lambda>_. True) (host_of (lk_out k)) bytes_at ?by (Missing man st) st = (st1, e)" by fastforce
  obtain st2 a where a: "Apply sid man True (wd_now (lk_out k)) (wd_disk (lk_out k)) (wd_write (lk_out k)) (wd_rec (lk_out k)) st1 = (st2, a)" by fastforce
  have "\<forall>sha \<in> set (Missing man st). validSHA sha" by (auto simp: Missing_def)
  note up = upload_over_http [OF assms(1,2) this u]
  note man = call_manifest [OF assms(1-3), of k man]
  have ap: "call k (client_req c ''POST'' (''/v1/sessions/'' @ sid @ ''/apply'') (no_body\<lparr>bd_files := man, bd_prune := True\<rparr>) []) (s\<lparr>sv_sessions := Some st1\<rparr>) =
      (case a of Some e \<Rightarrow> (s\<lparr>sv_sessions := Some st2\<rparr>, (400, PError), []) | None \<Rightarrow> (s\<lparr>sv_sessions := Some st2\<rparr>, (200, PApplied (length man)), []))"
    using call_apply [of c "s\<lparr>sv_sessions := Some st1\<rparr>" st1 sid k man] assms(1,3) a by (cases a) simp_all
  show ?thesis
  proof (cases err)
    case True
    then show ?thesis using assms(2,4) b by (auto simp: Sync_def http_Sync_def Let_def)
  next
    case False
    show ?thesis
    proof (cases e)
      case (Some x)
      then show ?thesis using assms(4) b u up man False by (auto simp: Sync_def http_Sync_def Let_def)
    next
      case None
      then show ?thesis using assms(4) b u up man ap a False by (cases a) (auto simp: Sync_def http_Sync_def Let_def host_of_def)
    qed
  qed
qed

lemma call_create:
  assumes "let_in c s" and "sv_sessions s = Some st" and "sid \<noteq> []"
  shows "call k (client_req c ''POST'' ''/v1/sessions'' (no_body\<lparr>bd_id := sid\<rparr>) []) s =
    (case Workspace sid True (wd_now (lk_out k)) (wd_disk (lk_out k)) st of
       (st', Inl e) \<Rightarrow> (s\<lparr>sv_sessions := Some st'\<rparr>, (400, PError), [])
     | (st', Inr _) \<Rightarrow> (s\<lparr>sv_sessions := Some st'\<rparr>, (201, PSession sid), []))"
proof -
  have "mux_path ''/v1/sessions'' = ''/v1/sessions''" by code_simp
  then show ?thesis
    unfolding call_mux [OF assms(1)] using assms(2,3)
    by (simp add: mux_def Let_def client_req_def HasPrefix_def api_sessionsCreate_def no_body_def)
qed

lemma call_exec:
  assumes "let_in c s" and "sv_sessions s = Some st" and "safeID sid"
  shows "call k (client_req c ''POST'' (''/v1/sessions/'' @ sid @ ''/exec'') (exec_body req) []) s =
    (case SubmitStreaming \<lparr>sr_Command = ex_Command req, sr_Name = ex_Name req, sr_Owner = [], sr_Share = ex_Share req, sr_MemMiB = ex_MemMiB req, sr_GPUs = 0,
        sr_Priority = 0, sr_Preemptible = False, sr_Burst = False, sr_Wait = ex_Wait req, sr_Allow = ex_Allow req, sr_DenyNet = ex_DenyNet req,
        sr_Dir = ws_path (st_root st) sid\<rparr>
        (wd_stream (lk_out k)) (wd_jid (lk_out k)) (wd_now (lk_out k)) (wd_writable (lk_out k)) (wd_lo (lk_out k)) (sv_d s) of
       (d, Inl e, effs) \<Rightarrow> (s\<lparr>sv_d := d\<rparr>, (200, PStreamError e), effs)
     | (d, Inr jid, effs) \<Rightarrow> (s\<lparr>sv_d := d\<rparr>, (200, PStream jid (case Job_of jid d of Some job \<Rightarrow> jb_State job | None \<Rightarrow> [])), effs))"
proof -
  define r where "r = client_req c ''POST'' (''/v1/sessions/'' @ sid @ ''/exec'') (exec_body req) []"
  have r: "rq_Path r = ''/v1/sessions/'' @ sid @ ''/'' @ ''exec''" "rq_Method r = ''POST''" "rq_BodyOk r" "rq_Body r = exec_body req"
    by (simp_all add: r_def client_req_def)
  have "call k r s = api_exec (lk_out k) r sid st s"
    using call_mux [OF assms(1)] session_verb(3) [OF r(1) assms(3) _ assms(2) r(2)] by (simp add: r_def plain_def)
  then show ?thesis using r(3,4) assms(3) unfolding r_def [symmetric]
    by (simp add: api_exec_def Workspace_def exec_body_def exec_submit_def no_body_def no_job_def)
qed

subsection \<open>The job starts in a copy of the directory\<close>


definition demo_link :: link where
  "demo_link = \<lparr>lk_uni_eq = (\<lambda>_ _. False), lk_sha256 = demo_sum, lk_out = demo_out\<rparr>"

definition demo_server :: Server where
  "demo_server = New_server demo_daemon (Some (Open_store ''/var'')) ''t0k''"


subsection \<open>The output and the exit code reach the client\<close>

lemma exec_merge:
  "exec_events (merge order (map EvOut xs) (map EvErr ys) @ evs) (out, err, exit) = exec_events evs (out @ xs, err @ ys, exit)"
proof -
  have outs: "exec_events (map EvOut xs @ evs) (out, err, exit) = exec_events evs (out @ xs, err, exit)" for xs out err
    by (induction xs arbitrary: out) auto
  have errs: "exec_events (map EvErr ys @ evs) (out, err, exit) = exec_events evs (out, err @ ys, exit)" for ys err out
    by (induction ys arbitrary: err) auto
  show ?thesis
  proof (induction order xs ys arbitrary: out err rule: merge.induct)
    case (1 order ys)
    then show ?case by (simp add: errs)
  next
    case (2 order x xs)
    then show ?case using outs [of "x # xs"] by simp
  next
    case (3 x xs y ys)
    then show ?case by simp
  next
    case (4 b order x xs y ys)
    then show ?case by simp
  qed
qed

lemma lines_join: "concat (map (\<lambda>l. l @ [c]) (butlast (parts c s))) @ last (parts c s) = s"
proof (induction s)
  case (Cons x s)
  then show ?case by (cases "parts c s") auto
qed simp

text \<open>What the client prints for the lines it received.\<close>

definition printed :: "string list \<Rightarrow> string" where
  "printed ls = concat (map (\<lambda>l. l @ [CHR 0x0A]) ls)"

text \<open>Text that passes the stream: whole lines that fit the scanner, without carriage returns at their ends, and that JSON carries unchanged.\<close>

definition passes :: "(string \<Rightarrow> string) \<Rightarrow> string \<Rightarrow> bool" where
  "passes wire s \<longleftrightarrow> last (parts (CHR 0x0A) s) = [] \<and> (\<forall>l \<in> set (raw_lines s). length l < scan_limit \<and> drop_cr l = l \<and> wire l = l)"

lemma passes_printed: "passes wire s \<Longrightarrow> printed (map wire (scan_lines scan_limit s)) = s"
proof -
  assume p: "passes wire s"
  then have "takeWhile (\<lambda>l. length l < scan_limit) (raw_lines s) = raw_lines s" by (simp add: passes_def)
  then have "scan_lines scan_limit s = map drop_cr (raw_lines s)" unfolding scan_lines_def by (rule arg_cong)
  then have "map wire (scan_lines scan_limit s) = raw_lines s" using p by (auto simp: passes_def intro!: map_idI)
  then show ?thesis using lines_join [of "CHR 0x0A" s] p by (simp add: printed_def raw_lines_def passes_def Let_def)
qed



end
