(* ===== verification/Controller.thy ===== *)
theory Controller
  imports Remote_Run
begin

text \<open>
  The interface \<^verbatim>\<open>controller\<close> of \<^verbatim>\<open>cmd/gmux/hosts.go\<close>: what the job and card commands need, wherever they go. Two clients provide it, the one of the local socket
  (\<^verbatim>\<open>internal/api/client.go\<close>) and the one of a host (\<^verbatim>\<open>internal/remote/client.go\<close>). Its laws say which operation of the daemon a call is; both clients satisfy them, so a
  command does the same to a daemon on either way. The results are read after the call that fills them in, as the compiler orders it
  (the language leaves the order of \<^verbatim>\<open>return out.Cards, c.do(...)\<close> open).
\<close>

subsection \<open>The two clients\<close>

text \<open>\<^verbatim>\<open>do\<close> and \<^verbatim>\<open>doJSON\<close> after the exchange: a status of 400 or more is an error.\<close>

definition do_result :: "reply \<Rightarrow> Server \<times> payload option \<times> deffect list" where
  "do_result rep = (case rep of (s, (code, p), effs) \<Rightarrow> (s, if code \<ge> 400 then None else Some p, effs))"

definition local_req :: "string \<Rightarrow> string \<Rightarrow> jbody \<Rightarrow> http_req" where
  "local_req method path body = \<lparr>rq_Method = method, rq_Path = path, rq_Auth = [], rq_Body = body, rq_BodyOk = True, rq_Data = [], rq_Whole = True,
     rq_By = [], rq_Since = None\<rparr>"

definition local_do :: "link \<Rightarrow> string \<Rightarrow> string \<Rightarrow> jbody \<Rightarrow> Server \<Rightarrow> Server \<times> payload option \<times> deffect list" where
  "local_do k method path body s = do_result (mux (lk_sha256 k) (lk_out k) (local_req method path body) s)"

definition remote_do :: "link \<Rightarrow> Client \<Rightarrow> string \<Rightarrow> string \<Rightarrow> jbody \<Rightarrow> Server \<Rightarrow> Server \<times> payload option \<times> deffect list" where
  "remote_do k c method path body s = do_result (call k (client_req c method path body []) s)"

type_synonym doer = "string \<Rightarrow> string \<Rightarrow> jbody \<Rightarrow> Server \<Rightarrow> Server \<times> payload option \<times> deffect list"

text \<open>The calls, for either client; a reply that is not of the expected kind leaves the zero value.\<close>

definition client_Submit :: "doer \<Rightarrow> SubmitRequest \<Rightarrow> Server \<Rightarrow> Server \<times> payload option \<times> deffect list" where
  "client_Submit dof r s = dof ''POST'' ''/v1/jobs'' (no_body\<lparr>bd_job := r\<rparr>) s"

definition client_Jobs :: "doer \<Rightarrow> Server \<Rightarrow> Server \<times> Job list option" where
  "client_Jobs dof s = (case dof ''GET'' ''/v1/jobs'' no_body s of (s', p, _) \<Rightarrow> (s', map_option (\<lambda>p. case p of PJobs js \<Rightarrow> js | _ \<Rightarrow> []) p))"

definition client_Cards :: "doer \<Rightarrow> Server \<Rightarrow> Server \<times> CardView list option" where
  "client_Cards dof s = (case dof ''GET'' ''/v1/cards'' no_body s of (s', p, _) \<Rightarrow> (s', map_option (\<lambda>p. case p of PCards cv \<Rightarrow> cv | _ \<Rightarrow> []) p))"

definition client_Stop :: "doer \<Rightarrow> string \<Rightarrow> Server \<Rightarrow> Server \<times> bool \<times> deffect list" where
  "client_Stop dof jid s = (case dof ''DELETE'' (''/v1/jobs/'' @ jid) no_body s of (s', p, effs) \<Rightarrow> (s', p \<noteq> None, effs))"

definition client_Resize :: "doer \<Rightarrow> string \<Rightarrow> float64 \<Rightarrow> int \<Rightarrow> Server \<Rightarrow> Server \<times> bool" where
  "client_Resize dof jid share memMiB s =
     (case dof ''POST'' (''/v1/jobs/'' @ jid @ ''/resize'') (no_body\<lparr>bd_job := no_job\<lparr>sr_Share := share, sr_MemMiB := memMiB\<rparr>\<rparr>) s of (s', p, _) \<Rightarrow> (s', p \<noteq> None))"

definition client_Delete :: "doer \<Rightarrow> string \<Rightarrow> Server \<Rightarrow> Server \<times> bool" where
  "client_Delete dof sid s = (case dof ''DELETE'' (''/v1/sessions/'' @ sid) no_body s of (s', p, _) \<Rightarrow> (s', p \<noteq> None))"

subsection \<open>The interface\<close>

locale job_control =
  fixes ready :: "Server \<Rightarrow> bool"
    and get_jobs :: "Server \<Rightarrow> Server \<times> Job list option"
    and get_cards :: "Server \<Rightarrow> Server \<times> CardView list option"
    and stop :: "string \<Rightarrow> Server \<Rightarrow> Server \<times> bool \<times> deffect list"
    and resize :: "string \<Rightarrow> float64 \<Rightarrow> int \<Rightarrow> Server \<Rightarrow> Server \<times> bool"
    and now :: int
    and writable :: bool
  assumes jobs_law: "ready s \<Longrightarrow> get_jobs s = (s, Some (Jobs (sv_d s)))"
    and cards_law: "ready s \<Longrightarrow> get_cards s = (s, Some (Cards_view (sv_d s)))"
    and stop_law: "ready s \<Longrightarrow> plain jid \<Longrightarrow> stop jid s = (case Stop jid (sv_d s) of (d, r, effs) \<Rightarrow> (s\<lparr>sv_d := d\<rparr>, \<not> isl r, effs))"
    and resize_law: "ready s \<Longrightarrow> plain jid \<Longrightarrow> resize jid f m s = (case Resize_job jid f m now writable (sv_d s) of (d, r) \<Rightarrow> (s\<lparr>sv_d := d\<rparr>, \<not> isl r))"
    and ready_d: "ready (s\<lparr>sv_d := d\<rparr>) = ready s"
begin

text \<open>What a client sees of the cards is never more than there is, and stopping or resizing a job keeps it so.\<close>

lemma cards_shown:
  assumes "ready s" and "daemon_ok (sv_d s)" and "get_cards s = (s', Some cvs)" and "cv \<in> set cvs"
  shows "0 \<le> cv_FreeSeats cv \<and> cv_FreeSeats cv \<le> cv_Seats cv \<and> 0 \<le> cv_FreeMemMiB cv"
proof -
  have inv: "sched_inv (dm_sched (sv_d s))" using daemon_okD(1) assms(2) unfolding daemon_ok_def .
  have "cv \<in> set (Cards_view (sv_d s))" using cards_law [OF assms(1)] assms(3,4) by simp
  from Cards_view_of [OF sched_invD(3) [OF inv] this] obtain c where c: "c \<in> set (s_cards (dm_sched (sv_d s)))" "cv_Seats cv = c_Seats c"
      "cv_FreeSeats cv = c_Seats c - fst (usage (dm_sched (sv_d s)) (c_Index c) [])" "cv_FreeMemMiB cv = c_MemMiB c - snd (usage (dm_sched (sv_d s)) (c_Index c) [])"
    by blast
  then show ?thesis using book_seats [OF sched_invD(2) [OF inv] c(1) sched_invD(1) [OF inv]] by (auto simp: usage_eq)
qed

lemma stop_keeps: "ready s \<Longrightarrow> plain jid \<Longrightarrow> daemon_ok (sv_d s) \<Longrightarrow> daemon_ok (sv_d (fst (stop jid s))) \<and> ready (fst (stop jid s))"
  using daemon_keeps(2) [of "sv_d s" jid] by (auto simp: stop_law ready_d split: prod.split)

lemma resize_keeps: "ready s \<Longrightarrow> plain jid \<Longrightarrow> daemon_ok (sv_d s) \<Longrightarrow> daemon_ok (sv_d (fst (resize jid f m s))) \<and> ready (fst (resize jid f m s))"
  using daemon_keeps(3) [of "sv_d s" jid f m] by (auto simp: resize_law ready_d split: prod.split)

end

subsection \<open>Both clients provide it\<close>

lemma jobs_path: "mux_path ''/v1/jobs'' = ''/v1/jobs''" "mux_path ''/v1/cards'' = ''/v1/cards''"
  by code_simp+

lemma mux_jobs: "rq_Path r = ''/v1/jobs'' \<Longrightarrow> mux sha256 wd r s = api_jobs wd r s"
  by (simp add: mux_def jobs_path)

lemma mux_cards: "rq_Path r = ''/v1/cards'' \<Longrightarrow> mux sha256 wd r s = api_cards s"
  by (simp add: mux_def jobs_path HasPrefix_def)

lemma mux_job:
  assumes "rq_Path r = abs_path (''v1'' # ''jobs'' # es)" and "\<forall>e \<in> set es. plain e" and "es \<noteq> []"
  shows "mux sha256 wd r s = api_job wd r s"
proof -
  have "mux_path (rq_Path r) = rq_Path r" unfolding assms(1) using assms(2) by (intro mux_abs) (auto simp: plain_def)
  moreover have "rq_Path r = ''/v1/jobs/'' @ join_slash es" using assms(1,3) by (cases es) (simp_all add: abs_path_def)
  ultimately show ?thesis by (simp add: mux_def Let_def HasPrefix_def)
qed

lemma mux_stop:
  assumes "rq_Path r = ''/v1/jobs/'' @ jid" and "plain jid" and "rq_Method r = ''DELETE''"
  shows "mux sha256 wd r s = (case Stop jid (sv_d s) of
      (d, Inl e, effs) \<Rightarrow> (s\<lparr>sv_d := d\<rparr>, (404, PError), effs) | (d, Inr _, effs) \<Rightarrow> (s\<lparr>sv_d := d\<rparr>, (200, PStopped jid), effs))"
proof -
  have m: "mux sha256 wd r s = api_job wd r s" using assms(1,2) by (intro mux_job [of _ "[jid]"]) (simp_all add: abs_path_def)
  have "drop (length jid - 7) jid \<noteq> ''/resize''"
  proof
    assume e: "drop (length jid - 7) jid = ''/resize''"
    have "set (drop (length jid - 7) jid) \<subseteq> set jid" by (rule set_drop_subset)
    then show False using e assms(2) by (simp add: plain_def)
  qed
  then show ?thesis using assms(1,3) unfolding m by (simp add: api_job_def Let_def)
qed

lemma mux_resize:
  assumes "rq_Path r = ''/v1/jobs/'' @ jid @ ''/resize''" and "plain jid" and "rq_Method r = ''POST''" and "rq_BodyOk r"
  shows "mux sha256 wd r s = (case Resize_job jid (sr_Share (bd_job (rq_Body r))) (sr_MemMiB (bd_job (rq_Body r))) (wd_now wd) (wd_writable wd) (sv_d s) of
      (d, Inl e) \<Rightarrow> (s\<lparr>sv_d := d\<rparr>, (409, PError), []) | (d, Inr j) \<Rightarrow> (s\<lparr>sv_d := d\<rparr>, (200, case Job_of j d of Some job \<Rightarrow> PJob job | None \<Rightarrow> PError), []))"
proof -
  have m: "mux sha256 wd r s = api_job wd r s" using assms(1,2) by (intro mux_job [of _ "[jid, ''resize'']"]) (simp_all add: abs_path_def plain_def)
  have "jid \<noteq> []" using assms(2) by (simp add: plain_def)
  then show ?thesis using assms(1,3,4) unfolding m by (simp add: api_job_def api_resize_def Let_def)
qed

text \<open>A client whose exchange is the mux's.\<close>

definition reaches :: "link \<Rightarrow> doer \<Rightarrow> Server \<Rightarrow> bool" where
  "reaches k dof s \<longleftrightarrow> (\<forall>m p b. \<exists>r. dof m p b s = do_result (mux (lk_sha256 k) (lk_out k) r s) \<and> rq_Method r = m \<and> rq_Path r = p \<and> rq_Body r = b \<and> rq_BodyOk r)"

lemma local_reaches: "reaches k (local_do k) s"
  by (auto simp: reaches_def local_do_def local_req_def intro!: exI)

lemma remote_reaches: "let_in c s \<Longrightarrow> reaches k (remote_do k c) s"
  unfolding reaches_def remote_do_def
proof (intro allI)
  fix m p b assume "let_in c s"
  then have "do_result (call k (client_req c m p b []) s) = do_result (mux (lk_sha256 k) (lk_out k) (client_req c m p b []) s)" by (simp add: call_mux)
  then show "\<exists>r. do_result (call k (client_req c m p b []) s) = do_result (mux (lk_sha256 k) (lk_out k) r s) \<and> rq_Method r = m \<and> rq_Path r = p \<and> rq_Body r = b \<and> rq_BodyOk r"
    by (intro exI [of _ "client_req c m p b []"]) (simp add: client_req_def)
qed

lemma client_laws:
  assumes "reaches k dof s"
  shows "client_Jobs dof s = (s, Some (Jobs (sv_d s)))" and "client_Cards dof s = (s, Some (Cards_view (sv_d s)))"
    and "plain jid \<Longrightarrow> client_Stop dof jid s = (case Stop jid (sv_d s) of (d, r, effs) \<Rightarrow> (s\<lparr>sv_d := d\<rparr>, \<not> isl r, effs))"
    and "plain jid \<Longrightarrow> client_Resize dof jid f m s = (case Resize_job jid f m (wd_now (lk_out k)) (wd_writable (lk_out k)) (sv_d s) of (d, r) \<Rightarrow> (s\<lparr>sv_d := d\<rparr>, \<not> isl r))"
proof -
  obtain r where r: "dof ''GET'' ''/v1/jobs'' no_body s = do_result (mux (lk_sha256 k) (lk_out k) r s)" "rq_Method r = ''GET''" "rq_Path r = ''/v1/jobs''"
    using assms unfolding reaches_def by blast
  show "client_Jobs dof s = (s, Some (Jobs (sv_d s)))" using r by (simp add: client_Jobs_def mux_jobs api_jobs_def do_result_def)
  obtain r where r: "dof ''GET'' ''/v1/cards'' no_body s = do_result (mux (lk_sha256 k) (lk_out k) r s)" "rq_Path r = ''/v1/cards''"
    using assms unfolding reaches_def by blast
  show "client_Cards dof s = (s, Some (Cards_view (sv_d s)))" using r by (simp add: client_Cards_def mux_cards api_cards_def do_result_def)
  assume j: "plain jid"
  obtain r where r: "dof ''DELETE'' (''/v1/jobs/'' @ jid) no_body s = do_result (mux (lk_sha256 k) (lk_out k) r s)" "rq_Method r = ''DELETE''" "rq_Path r = ''/v1/jobs/'' @ jid"
    using assms unfolding reaches_def by blast
  show "client_Stop dof jid s = (case Stop jid (sv_d s) of (d, r, effs) \<Rightarrow> (s\<lparr>sv_d := d\<rparr>, \<not> isl r, effs))"
    unfolding client_Stop_def r(1) mux_stop [OF r(3) j r(2)] by (simp add: do_result_def split: prod.split sum.split)
  let ?b = "no_body\<lparr>bd_job := no_job\<lparr>sr_Share := f, sr_MemMiB := m\<rparr>\<rparr>"
  obtain r where r: "dof ''POST'' (''/v1/jobs/'' @ jid @ ''/resize'') ?b s = do_result (mux (lk_sha256 k) (lk_out k) r s)" "rq_Method r = ''POST''"
      "rq_Path r = ''/v1/jobs/'' @ jid @ ''/resize''" "rq_Body r = ?b" "rq_BodyOk r"
    using assms unfolding reaches_def by blast
  show "client_Resize dof jid f m s = (case Resize_job jid f m (wd_now (lk_out k)) (wd_writable (lk_out k)) (sv_d s) of (d, r) \<Rightarrow> (s\<lparr>sv_d := d\<rparr>, \<not> isl r))"
    unfolding client_Resize_def r(1) mux_resize [OF r(3) j r(2,5)] r(4) by (simp add: do_result_def no_body_def no_job_def split: prod.split sum.split)
qed

text \<open>Deleting a session on a host removes that session and no other.\<close>

lemma client_Delete_law:
  assumes "reaches k dof s" and "safeID sid" and "sv_sessions s = Some st"
  shows "\<exists>st'. client_Delete dof sid s = (s\<lparr>sv_sessions := Some st'\<rparr>, True) \<and> (\<forall>k. map_of (st_sessions st') k = (if k = sid then None else map_of (st_sessions st) k))"
proof -
  obtain r where r: "dof ''DELETE'' (''/v1/sessions/'' @ sid) no_body s = do_result (mux (lk_sha256 k) (lk_out k) r s)" "rq_Method r = ''DELETE''" "rq_Path r = ''/v1/sessions/'' @ sid"
    using assms(1) unfolding reaches_def by blast
  have p: "plain sid" using assms(2) by (rule safeID_plain)
  then have "mux_path (rq_Path r) = rq_Path r" using mux_abs [of "[''v1'', ''sessions'', sid]"] r(3) by (simp add: abs_path_def plain_def)
  then have m: "mux (lk_sha256 k) (lk_out k) r s = api_session (lk_out k) r s" using r(3) by (simp add: mux_def Let_def HasPrefix_def)
  have c: "Cut sid ''/'' = (sid, [], False)" using p by (simp add: Cut_byte plain_def)
  have "map_of (AList.delete sid (st_sessions st)) k = (if k = sid then None else map_of (st_sessions st) k)" for k by (simp add: delete_conv')
  then show ?thesis unfolding client_Delete_def r(1) m
    using r(2,3) assms(2,3) c
    by (intro exI [of _ "fst (Delete_session sid st)"]) (simp add: api_session_def TrimPrefix_def Delete_session_def do_result_def)
qed

interpretation local_client: job_control "\<lambda>_. True" "client_Jobs (local_do k)" "client_Cards (local_do k)" "client_Stop (local_do k)" "client_Resize (local_do k)"
  "wd_now (lk_out k)" "wd_writable (lk_out k)" for k
  by unfold_locales (simp_all add: client_laws [OF local_reaches])

interpretation remote_client: job_control "let_in c" "client_Jobs (remote_do k c)" "client_Cards (remote_do k c)" "client_Stop (remote_do k c)" "client_Resize (remote_do k c)"
  "wd_now (lk_out k)" "wd_writable (lk_out k)" for k c
  by unfold_locales (simp_all add: client_laws [OF remote_reaches] let_in_def)



end
