(* ===== verification/Host_Serve.thy ===== *)
theory Host_Serve
  imports Api_Properties Daemon_Start
begin

text \<open>
  \<^verbatim>\<open>gmux serve\<close> (\<^verbatim>\<open>serve\<close> of \<^verbatim>\<open>cmd/gmux/main.go\<close>) and what it uses of \<^verbatim>\<open>internal/api\<close>: the certificate made once and kept in the state directory (\<^verbatim>\<open>tls.go\<close>), and which handler each of the
  two listeners serves. The machine, the disk and the cryptography of one start are the record \<open>start_world\<close>; the files that outlive it are \<open>host_files\<close>. Shown: the line \<^verbatim>\<open>serve\<close> prints, given
  to a client, makes one that goes on with this host only, is let in by it, and still works after a restart.
\<close>

subsection \<open>The certificate\<close>

record host_files =
  hf_token :: "string option"
  hf_cert :: "string option"
  hf_key :: "string option"

text \<open>
  What the cryptographic packages do in one start: \<^verbatim>\<open>tls.X509KeyPair\<close> on the contents of the two files (the certificate and what follows it in its file), the generated key,
  \<^verbatim>\<open>x509.CreateCertificate\<close> with the template, \<^verbatim>\<open>x509.MarshalECPrivateKey\<close> and \<^verbatim>\<open>pem.EncodeToMemory\<close>.
\<close>

record crypto =
  cx_Load :: "string \<Rightarrow> string \<Rightarrow> (string \<times> string list) option"
  cx_Generate :: "string option"
  cx_Create :: "string \<Rightarrow> string option"
  cx_Marshal :: "string \<Rightarrow> string option"
  cx_Pem :: "string \<Rightarrow> string \<Rightarrow> string"

definition LoadX509KeyPair :: "crypto \<Rightarrow> host_files \<Rightarrow> (string \<times> string list) option" where
  "LoadX509KeyPair cx f = (case (hf_cert f, hf_key f) of (Some c, Some k) \<Rightarrow> cx_Load cx c k | _ \<Rightarrow> None)"

definition Fingerprint :: "(string \<Rightarrow> string) \<Rightarrow> string \<Rightarrow> string" where
  "Fingerprint sha256 der = sha256 der"

datatype cert_error = NoKey | NoCert | NoMarshal | NoWrite | NoLoad

definition LoadOrCreateCert :: "(string \<Rightarrow> string) \<Rightarrow> crypto \<Rightarrow> written \<Rightarrow> written \<Rightarrow> host_files \<Rightarrow> (cert_error + (string \<times> string list) \<times> string) \<times> host_files" where
  "LoadOrCreateCert sha256 cx wkey wcert f =
     (case LoadX509KeyPair cx f of
        Some c \<Rightarrow> (Inr (c, Fingerprint sha256 (fst c)), f)
      | None \<Rightarrow>
          (case cx_Generate cx of None \<Rightarrow> (Inl NoKey, f)
           | Some key \<Rightarrow>
               (case cx_Create cx key of None \<Rightarrow> (Inl NoCert, f)
                | Some der \<Rightarrow>
                    (case cx_Marshal cx key of None \<Rightarrow> (Inl NoMarshal, f)
                     | Some kb \<Rightarrow>
                         (case wkey of NotWritten x \<Rightarrow> (Inl NoWrite, f\<lparr>hf_key := x\<rparr>)
                          | Wrote \<Rightarrow>
                              let f1 = f\<lparr>hf_key := Some (cx_Pem cx ''EC PRIVATE KEY'' kb)\<rparr>
                              in case wcert of NotWritten x \<Rightarrow> (Inl NoWrite, f1\<lparr>hf_cert := x\<rparr>)
                               | Wrote \<Rightarrow>
                                   let f2 = f1\<lparr>hf_cert := Some (cx_Pem cx ''CERTIFICATE'' der)\<rparr>
                                   in case LoadX509KeyPair cx f2 of None \<Rightarrow> (Inl NoLoad, f2) | Some c \<Rightarrow> (Inr (c, Fingerprint sha256 der), f2))))))"

subsection \<open>Listening\<close>

text \<open>\<^verbatim>\<open>Server.Serve\<close> puts the endpoints on the local socket as they are, \<^verbatim>\<open>ServeListener\<close> puts them behind the token.\<close>

definition Serve_unix :: "(string \<Rightarrow> string) \<Rightarrow> outside \<Rightarrow> http_req \<Rightarrow> Server \<Rightarrow> reply" where
  "Serve_unix sha256 wd r s = mux sha256 wd r s"

definition ServeListener :: "(string \<Rightarrow> string \<Rightarrow> bool) \<Rightarrow> (string \<Rightarrow> string) \<Rightarrow> outside \<Rightarrow> http_req \<Rightarrow> Server \<Rightarrow> reply" where
  "ServeListener uni_eq sha256 wd r s = handler uni_eq sha256 wd r s"

text \<open>\<^verbatim>\<open>net.SplitHostPort\<close>; \<open>None\<close> for an error.\<close>

definition SplitHostPort :: "string \<Rightarrow> (string \<times> string) option" where
  "SplitHostPort s =
     (let i = LastIndexByte s (CHR '':'')
      in if i < 0 then None
         else if hd s = CHR ''['' then
           (let e = Index s '']''
            in if e < 0 \<or> e + 1 \<noteq> i \<or> CHR ''['' \<in> set (drop 1 s) \<or> CHR '']'' \<in> set (drop (nat e + 1) s) then None
               else Some (take (nat e - 1) (drop 1 s), drop (nat i + 1) s))
         else if CHR '':'' \<in> set (take (nat i) s) \<or> CHR ''['' \<in> set s \<or> CHR '']'' \<in> set s then None
         else Some (take (nat i) s, drop (nat i + 1) s))"

subsection \<open>The command\<close>

record host_env =
  he_cli :: cli_env
  he_FAKE :: string
  he_ADDR :: string
  he_TOKEN :: string

record start_world =
  sw_machine :: machine
  sw_uni :: "string \<Rightarrow> string"
  sw_up :: "string \<Rightarrow> string"
  sw_uni_eq :: "string \<Rightarrow> string \<Rightarrow> bool"
  sw_shim :: string
  sw_ledger :: "Interval option list option"
  sw_rand :: "nat list option"
  sw_crypto :: crypto
  sw_wtoken :: written
  sw_wkey :: written
  sw_wcert :: written
  sw_store :: "string \<Rightarrow> Store option"
  sw_unix :: bool

datatype serve_error = DaemonFailed new_error | TokenFailed string | CertFailed cert_error | StoreFailed | ListenFailed

text \<open>What the TCP listener needs: its address, the certificates it presents, and the fingerprint that was printed.\<close>

record serving =
  sg_server :: Server
  sg_backends :: "Backend list"
  sg_remote :: "(string \<times> (string \<times> string list) \<times> string) option"

definition greeting :: "cli_env \<Rightarrow> CardView list \<Rightarrow> string list" where
  "greeting ev cv = (''gmux serving '' @ Itoa (int (length cv)) @ '' card(s) on '' @ sockPath ev) #
     map (\<lambda>c. ''  card '' @ Itoa (cv_Index c) @ ''  '' @ cv_Vendor c @ '' '' @ cv_Name c @ ''  '' @ FormatMem (cv_MemMiB c) @ ''  caps: '' @
       capsLine (case cv_Caps c of Some k \<Rightarrow> k | None \<Rightarrow> \<lparr>cp_Concurrent = False, cp_ComputeCap = False, cp_MemoryCap = False, cp_Checkpoint = False\<rparr>)) cv"

definition invitation :: "string \<Rightarrow> string \<Rightarrow> string \<Rightarrow> string list" where
  "invitation token addr fp =
     [''gmux serving machines without a GPU on '' @ addr @ '' over TLS'', ''  on each of them, run:'',
      ''    gmux remote add NAME '' @ token @ ''@THIS-HOST:'' @ (case SplitHostPort addr of Some (_, port) \<Rightarrow> port | None \<Rightarrow> []) @ ''#'' @ fp]"

text \<open>The block that runs when there is an address: token, certificate, sessions.\<close>

definition remote_identity :: "(string \<Rightarrow> string) \<Rightarrow> start_world \<Rightarrow> host_env \<Rightarrow> flagset \<Rightarrow> host_files \<Rightarrow>
    (serve_error + string \<times> ((string \<times> string list) \<times> string) \<times> Store) \<times> host_files" where
  "remote_identity sha256 w ev fs f =
     (case (let token = fs_str fs ''token'' (he_TOKEN ev)
            in if token \<noteq> [] then (Inr token, hf_token f) else LoadOrCreateToken (hf_token f) (sw_rand w) (sw_wtoken w)) of
        (Inl e, tf) \<Rightarrow> (Inl (TokenFailed e), f\<lparr>hf_token := tf\<rparr>)
      | (Inr token, tf) \<Rightarrow>
          (case LoadOrCreateCert sha256 (sw_crypto w) (sw_wkey w) (sw_wcert w) (f\<lparr>hf_token := tf\<rparr>) of
             (Inl e, f2) \<Rightarrow> (Inl (CertFailed e), f2)
           | (Inr cf, f2) \<Rightarrow>
               (case sw_store w (Join [stateDir (he_cli ev), ''sessions-store'']) of None \<Rightarrow> (Inl StoreFailed, f2) | Some st \<Rightarrow> (Inr (token, cf, st), f2))))"

definition serve :: "(string \<Rightarrow> string) \<Rightarrow> start_world \<Rightarrow> host_env \<Rightarrow> string list \<Rightarrow> host_files \<Rightarrow> gact list \<Rightarrow>
    (serve_error + serving) \<times> string list \<times> host_files \<times> gact list" where
  "serve sha256 w ev args f lg =
     (let fs = flags args; cfg = \<lparr>cf_StateDir = stateDir (he_cli ev), cf_Seats = fs_intv fs ''seats'' 0, cf_Fake = fs_str fs ''fake'' (he_FAKE ev)\<rparr>
      in case Daemon_New (sw_machine w) (sw_uni w) (sw_up w) (sw_uni_eq w) (sw_shim w) (sw_ledger w) cfg lg of
          (Inl e, lg1) \<Rightarrow> (Inl (DaemonFailed e), [], f, lg1)
        | (Inr (d, bs), lg1) \<Rightarrow>
            let out = greeting (he_cli ev) (Cards_view d); addr = fs_str fs ''addr'' (he_ADDR ev)
            in if addr = [] then
                 (if sw_unix w then (Inr \<lparr>sg_server = New_server d None [], sg_backends = bs, sg_remote = None\<rparr>, out, f, lg1)
                  else (Inl ListenFailed, out, f, Close (sw_machine w) bs lg1))
               else case remote_identity sha256 w ev fs f of
                   (Inl e, f1) \<Rightarrow> (Inl e, out, f1, Close (sw_machine w) bs lg1)
                 | (Inr (token, (cert, fp), st), f1) \<Rightarrow>
                     (if sw_unix w then
                        (Inr \<lparr>sg_server = New_server d (Some st) token, sg_backends = bs, sg_remote = Some (addr, cert, fp)\<rparr>, out @ invitation token addr fp, f1, lg1)
                      else (Inl ListenFailed, out @ invitation token addr fp, f1, Close (sw_machine w) bs lg1)))"

subsection \<open>What a start leaves on the disk\<close>

lemma hex_bytes_graphic: "list_all graphic (hex_bytes bs)"
  by (auto simp: hex_bytes_def list_all_iff hex_char_def graphic_def byte_def)

lemma TrimSpace_line: "s \<noteq> [] \<Longrightarrow> list_all graphic s \<Longrightarrow> TrimSpace (s @ [CHR 0x0A]) = s"
proof -
  assume s: "s \<noteq> []" "list_all graphic s"
  then have h: "graphic (hd s)" "graphic (last s)" by (auto simp: list_all_iff)
  have l: "trim_with white_space n (s @ [CHR 0x0A]) = s @ [CHR 0x0A]" for n
    using white_space_starts h s(1) by (intro trim_with_graphic) (auto simp: list_all_iff)
  have r: "trim_with (map rev white_space) n (rev s) = rev s" for n
    using white_space_starts h s(1) by (intro trim_with_graphic) (auto simp: list_all_iff hd_rev)
  have "take 2 (map rev white_space) = [[CHR 0x09], [CHR 0x0A]]" by code_simp
  then obtain rest where "map rev white_space = [CHR 0x09] # [CHR 0x0A] # rest" by (metis append_Cons append_Nil append_take_drop_id)
  then have "find (\<lambda>p. prefix p (CHR 0x0A # rev s)) (map rev white_space) = Some [CHR 0x0A]" by simp
  then show ?thesis using r unfolding TrimSpace_def l Let_def by simp
qed

text \<open>The token file of a start that took its token from there gives the next start the same token.\<close>

lemma LoadOrCreateToken_again:
  assumes "LoadOrCreateToken file rand disk = (Inr token, file')" and "\<And>bs. rand = Some bs \<Longrightarrow> bs \<noteq> []"
  shows "token \<noteq> [] \<and> LoadOrCreateToken file' rand' disk' = (Inr token, file')"
proof -
  have ne: "hex_bytes bs \<noteq> []" if "bs \<noteq> []" for bs using that by (cases bs) (auto simp: hex_bytes_def)
  show ?thesis using assms TrimSpace_line [OF ne hex_bytes_graphic] ne
    by (auto simp: LoadOrCreateToken_def Let_def split: if_splits option.splits written.splits)
qed

text \<open>What \<^verbatim>\<open>crypto/tls\<close> documents of a pair that was just made: it loads, as that certificate alone.\<close>

definition made_pair_loads :: "crypto \<Rightarrow> bool" where
  "made_pair_loads cx \<longleftrightarrow> (\<forall>key der kb. cx_Create cx key = Some der \<and> cx_Marshal cx key = Some kb \<longrightarrow>
     cx_Load cx (cx_Pem cx ''CERTIFICATE'' der) (cx_Pem cx ''EC PRIVATE KEY'' kb) = Some (der, []))"

lemma LoadOrCreateCert_again:
  assumes "LoadOrCreateCert sha256 cx wk wc f = (Inr (cert, fp), f')" and "made_pair_loads cx" and "cx_Load cx' = cx_Load cx"
  shows "fp = sha256 (fst cert) \<and> hf_token f' = hf_token f \<and> LoadOrCreateCert sha256 cx' wk' wc' f' = (Inr (cert, fp), f')"
proof -
  have l: "LoadX509KeyPair cx' = LoadX509KeyPair cx" using assms(3) by (auto simp: LoadX509KeyPair_def fun_eq_iff split: option.split)
  have "LoadX509KeyPair cx f' = Some cert \<and> fp = sha256 (fst cert) \<and> hf_token f' = hf_token f"
    using assms(1,2) by (auto simp: LoadOrCreateCert_def Let_def Fingerprint_def made_pair_loads_def LoadX509KeyPair_def split: option.splits written.splits)
  then show ?thesis by (simp add: LoadOrCreateCert_def l Fingerprint_def)
qed

lemma remote_identity_again:
  assumes "remote_identity sha256 w ev fs f = (Inr (token, (cert, fp), st), f')"
    and "made_pair_loads (sw_crypto w)" and "\<forall>bs. sw_rand w = Some bs \<longrightarrow> length bs = 24" and "cx_Load (sw_crypto w') = cx_Load (sw_crypto w)"
  shows "token \<noteq> [] \<and> fp = sha256 (fst cert) \<and>
    remote_identity sha256 w' ev fs f' = (case sw_store w' (Join [stateDir (he_cli ev), ''sessions-store'']) of None \<Rightarrow> (Inl StoreFailed, f') | Some st' \<Rightarrow> (Inr (token, (cert, fp), st'), f'))"
proof -
  let ?given = "fs_str fs ''token'' (he_TOKEN ev)"
  obtain tf where t: "(if ?given \<noteq> [] then (Inr ?given, hf_token f) else LoadOrCreateToken (hf_token f) (sw_rand w) (sw_wtoken w)) = (Inr token, tf)"
    and c: "LoadOrCreateCert sha256 (sw_crypto w) (sw_wkey w) (sw_wcert w) (f\<lparr>hf_token := tf\<rparr>) = (Inr (cert, fp), f')"
    using assms(1) by (auto simp: remote_identity_def Let_def split: prod.splits sum.splits option.splits if_splits)
  have c': "fp = sha256 (fst cert)" "hf_token f' = tf"
    "LoadOrCreateCert sha256 (sw_crypto w') (sw_wkey w') (sw_wcert w') f' = (Inr (cert, fp), f')"
    using LoadOrCreateCert_again [OF c assms(2,4)] by simp_all
  have r: "bs \<noteq> []" if "sw_rand w = Some bs" for bs using assms(3) that by auto
  have t': "token \<noteq> []" "(if ?given \<noteq> [] then (Inr ?given, tf) else LoadOrCreateToken tf (sw_rand w') (sw_wtoken w')) = (Inr token, tf)"
    using t LoadOrCreateToken_again [OF _ r] by (auto split: if_splits)
  have u: "f'\<lparr>hf_token := tf\<rparr> = f'" using c'(2) by (cases f') simp
  show ?thesis unfolding remote_identity_def Let_def c'(2) t'(2) using t'(1) c'(1) by (simp add: u c'(3) split: option.split)
qed

text \<open>When \<^verbatim>\<open>serve\<close> gives up after the daemon has come up, every sharing daemon that was started has been asked to quit.\<close>

lemma serve_failure_quits:
  assumes "serve sha256 w ev args f lg = (Inl e, out, f', lg')" and "\<forall>x. e \<noteq> DaemonFailed x"
  shows "\<exists>d lg1 pre. lg' = lg1 @ map (mps_quit (sw_machine w) (dm_stateDir d)) (nvidia_cards d) \<and>
    dm_stateDir d = stateDir (he_cli ev) \<and> out = greeting (he_cli ev) (Cards_view d) @ pre"
proof -
  let ?cfg = "\<lparr>cf_StateDir = stateDir (he_cli ev), cf_Seats = fs_intv (flags args) ''seats'' 0, cf_Fake = fs_str (flags args) ''fake'' (he_FAKE ev)\<rparr>"
  obtain d bs lg1 pre where n: "Daemon_New (sw_machine w) (sw_uni w) (sw_up w) (sw_uni_eq w) (sw_shim w) (sw_ledger w) ?cfg lg = (Inr (d, bs), lg1)"
    and c: "lg' = Close (sw_machine w) bs lg1" "out = greeting (he_cli ev) (Cards_view d) @ pre"
    using assms by (auto simp: serve_def Let_def split: prod.splits sum.splits if_splits)
  have "dm_stateDir d = stateDir (he_cli ev)" using n by (auto simp: Daemon_New_def New_daemon_def Let_def split: if_splits prod.splits sum.splits option.splits)
  then show ?thesis using New_then_Close [OF n] c by blast
qed

subsection \<open>The target works\<close>

lemma SplitHostPort_plain:
  assumes "list_all is_digit port" and "set iface \<inter> {CHR '':'', CHR ''['', CHR '']''} = {}"
  shows "SplitHostPort (iface @ '':'' @ port) = Some (iface, port)"
proof -
  have d: "c \<notin> set port" if "\<not> is_digit c" for c using assms(1) that by (auto simp: list_all_iff)
  have n: "CHR '':'' \<notin> set port" "CHR ''['' \<notin> set port" "CHR '']'' \<notin> set port" by (rule d, simp add: is_digit_def byte_def)+
  have i: "LastIndexByte (iface @ '':'' @ port) (CHR '':'') = int (length iface)"
    using n(1) by (auto simp: LastIndexByte_def Let_def takeWhile_append)
  have "hd (iface @ '':'' @ port) \<noteq> CHR ''[''" using assms(2) by (cases iface) auto
  then show ?thesis using n assms(2) unfolding SplitHostPort_def i Let_def by auto
qed

text \<open>
  C33: the line \<^verbatim>\<open>gmux serve --addr\<close> prints. With the host's name put in, it is a target from which a client dials that host and port over TLS, goes on with a connection exactly when the certificate
  presented has the fingerprint of the host's own (so it goes on with the host itself), and is served as on the local socket: its header passes the gate of the TCP port, which is
  never open without a token. After any restart with the same options that gets as far as serving, the same line is printed and the same certificate and token are in use, whatever the new random numbers.
\<close>

theorem printed_target_reaches_this_host:
  assumes "serve sha256 w ev args f lg = (Inr sg, out, f', lg')" and "sg_remote sg = Some (iface @ '':'' @ port, cert, fp)"
    and "list_all is_digit port" and "set iface \<inter> {CHR '':'', CHR ''['', CHR '']''} = {}"
    and "h \<noteq> []" and "CHR ''@'' \<notin> set h" and "CHR ''/'' \<notin> set h"
    and "made_pair_loads (sw_crypto w)" and "\<forall>bs. sw_rand w = Some bs \<longrightarrow> length bs = 24"
    and "\<And>x. validSHA (sha256 x)" and "\<And>x. sw_uni_eq w x x"
  shows "\<exists>token c a. last out = ''    gmux remote add NAME '' @ token @ ''@THIS-HOST:'' @ port @ ''#'' @ fp \<and>
    Dial uni (token @ ''@'' @ (h @ '':'' @ port) @ ''#'' @ fp) = Some c \<and> cl_base c = ''https://'' @ h @ '':'' @ port \<and>
    (\<forall>certs. VerifyConnection sha256 c certs \<longleftrightarrow> certs \<noteq> [] \<and> sha256 (hd certs) = sha256 (fst cert)) \<and>
    auth_header c = Some a \<and>
    (\<forall>wd r. ServeListener (sw_uni_eq w) sha256 wd (r\<lparr>rq_Auth := a\<rparr>) (sg_server sg) = Serve_unix sha256 wd (r\<lparr>rq_Auth := a\<rparr>) (sg_server sg)) \<and>
    (\<forall>w' lg2 sg2 out2 f2 lg3. cx_Load (sw_crypto w') = cx_Load (sw_crypto w) \<and> serve sha256 w' ev args f' lg2 = (Inr sg2, out2, f2, lg3) \<longrightarrow>
      last out2 = last out \<and> sg_remote sg2 = sg_remote sg \<and> sv_token (sg_server sg2) = token)"
proof -
  let ?fs = "flags args" and ?addr = "iface @ '':'' @ port"
  obtain d st token where s: "sg_server sg = New_server d (Some st) token" and a: "fs_str ?fs ''addr'' (he_ADDR ev) = ?addr"
    and o: "last out = last (invitation token ?addr fp)" and i: "remote_identity sha256 w ev ?fs f = (Inr (token, (cert, fp), st), f')"
    using assms(1,2) by (auto simp: serve_def Let_def invitation_def split: prod.splits sum.splits if_splits)
  note again = remote_identity_again [OF i assms(8,9)]
  have tk: "token \<noteq> []" and fp: "fp = sha256 (fst cert)" using again [of w] by simp_all
  have line: "last (invitation token ?addr fp) = ''    gmux remote add NAME '' @ token @ ''@THIS-HOST:'' @ port @ ''#'' @ fp"
    using SplitHostPort_plain [OF assms(3,4)] by (simp add: invitation_def)
  have "CHR ''@'' \<notin> set port" "CHR ''/'' \<notin> set port" using assms(3) by (auto simp: list_all_iff is_digit_def byte_def)
  then have h: "CHR ''@'' \<notin> set (h @ '':'' @ port)" "CHR ''/'' \<notin> set (h @ '':'' @ port)" "h @ '':'' @ port \<noteq> []" using assms(6,7) by auto
  then have "last (h @ '':'' @ port) \<noteq> CHR ''/''" by (metis last_in_set)
  moreover have "\<not> prefix ''https://'' (h @ '':'' @ port)" "\<not> prefix ''http://'' (h @ '':'' @ port)"
    using h(2) set_mono_prefix [of "''https://''" "h @ '':'' @ port"] set_mono_prefix [of "''http://''" "h @ '':'' @ port"] by auto
  ultimately have dial: "Dial uni (token @ ''@'' @ (h @ '':'' @ port) @ ''#'' @ fp) = Some \<lparr>cl_base = ''https://'' @ h @ '':'' @ port, cl_token = token, cl_fp = fp\<rparr>"
    using Dial_pins_the_host [OF h(1,3), of fp uni token] assms(10) fp by simp
  have restart: "last out2 = last out \<and> sg_remote sg2 = sg_remote sg \<and> sv_token (sg_server sg2) = token"
    if "cx_Load (sw_crypto w') = cx_Load (sw_crypto w)" and "serve sha256 w' ev args f' lg2 = (Inr sg2, out2, f2, lg3)" for w' lg2 sg2 out2 f2 lg3
    using that(2) again [OF that(1)] o assms(2) a
    by (auto simp: serve_def Let_def invitation_def New_server_def split: prod.splits sum.splits if_splits option.splits)
  let ?c = "\<lparr>cl_base = ''https://'' @ h @ '':'' @ port, cl_token = token, cl_fp = fp\<rparr>"
  have gate: "ServeListener (sw_uni_eq w) sha256 wd (r\<lparr>rq_Auth := ''Bearer '' @ token\<rparr>) (sg_server sg) = Serve_unix sha256 wd (r\<lparr>rq_Auth := ''Bearer '' @ token\<rparr>) (sg_server sg)" for wd r
    using assms(11) by (simp add: ServeListener_def Serve_unix_def handler_def EqualFold_def s New_server_def)
  have pin: "VerifyConnection sha256 ?c certs \<longleftrightarrow> certs \<noteq> [] \<and> sha256 (hd certs) = sha256 (fst cert)" for certs
    using fp by (auto simp: VerifyConnection_def split: list.split)
  show ?thesis
  proof (intro exI conjI)
    show "last out = ''    gmux remote add NAME '' @ token @ ''@THIS-HOST:'' @ port @ ''#'' @ fp" unfolding o line ..
    show "Dial uni (token @ ''@'' @ (h @ '':'' @ port) @ ''#'' @ fp) = Some ?c" by (rule dial)
    show "cl_base ?c = ''https://'' @ h @ '':'' @ port" by simp
    show "\<forall>certs. VerifyConnection sha256 ?c certs \<longleftrightarrow> certs \<noteq> [] \<and> sha256 (hd certs) = sha256 (fst cert)" using pin by blast
    show "auth_header ?c = Some (''Bearer '' @ token)" using tk by (simp add: auth_header_def)
  qed (use gate restart in blast)+
qed

text \<open>A host with a pretended card, started for the first time on a port.\<close>

definition demo_crypto :: crypto where
  "demo_crypto = \<lparr>cx_Load = (\<lambda>c k. Some (drop 11 c, [])), cx_Generate = Some ''k'', cx_Create = (\<lambda>k. Some (''der '' @ k)), cx_Marshal = Some, cx_Pem = (@)\<rparr>"

definition demo_start :: start_world where
  "demo_start = \<lparr>sw_machine = demo_machine [], sw_uni = id, sw_up = id, sw_uni_eq = (=), sw_shim = [], sw_ledger = Some [], sw_rand = Some (replicate 24 171), sw_crypto = demo_crypto,
     sw_wtoken = Wrote, sw_wkey = Wrote, sw_wcert = Wrote, sw_store = (\<lambda>dir. Some (Open_store dir)), sw_unix = True\<rparr>"

definition demo_serve :: "(serve_error + serving) \<times> string list \<times> host_files \<times> gact list" where
  "demo_serve = serve (\<lambda>_. replicate 64 (CHR ''a'')) demo_start \<lparr>he_cli = \<lparr>ev_REMOTE = [], ev_SOCKET = [], ev_STATE = [], ev_USER = []\<rparr>, he_FAKE = [], he_ADDR = [], he_TOKEN = []\<rparr>
     [''--addr'', '':7070'', ''--seats=4''] \<lparr>hf_token = None, hf_cert = None, hf_key = None\<rparr> []"

lemma demo_serve_runs: "(case fst demo_serve of Inl _ \<Rightarrow> False | Inr sg \<Rightarrow> sg_remote sg = Some ('':7070'', (''der k'', []), replicate 64 (CHR ''a'')))"
  by code_simp

theorem printed_target_reaches_this_host_witness:
  "\<exists>sg out f' lg' token c. demo_serve = (Inr sg, out, f', lg') \<and>
     last out = ''    gmux remote add NAME '' @ token @ ''@THIS-HOST:'' @ ''7070'' @ ''#'' @ replicate 64 (CHR ''a'') \<and>
     Dial id (token @ ''@'' @ (''gpu'' @ '':'' @ ''7070'') @ ''#'' @ replicate 64 (CHR ''a'')) = Some c \<and> cl_base c = ''https://gpu:7070''"
proof -
  obtain r out f' lg' where r: "demo_serve = (r, out, f', lg')" by (metis prod_cases4)
  have "fst demo_serve = r" using r by (metis fst_conv)
  then obtain sg where g: "r = Inr sg" "sg_remote sg = Some ([] @ '':'' @ ''7070'', (''der k'', []), replicate 64 (CHR ''a''))"
    using demo_serve_runs by (cases r) auto
  note d = r [unfolded g(1)]
  have laws: "made_pair_loads (sw_crypto demo_start)" "\<forall>bs. sw_rand demo_start = Some bs \<longrightarrow> length bs = 24" "sw_uni_eq demo_start x x" for x
    by (simp_all add: made_pair_loads_def demo_start_def demo_crypto_def)
  have "validSHA (replicate 64 (CHR ''a''))" "list_all is_digit ''7070''" by code_simp+
  from printed_target_reaches_this_host [OF d [unfolded demo_serve_def] g(2) this(2) _ _ _ _ laws(1,2) this(1) laws(3), of "''gpu''" id]
  show ?thesis using d by auto
qed

end
