(* ===== verification/Go_Time.thy ===== *)
theory Go_Time
  imports Go_Strings
begin

text \<open>
  What gmux uses of Go's package \<^verbatim>\<open>time\<close> for durations, which are \<^verbatim>\<open>int64\<close> nanoseconds: \<^verbatim>\<open>ParseDuration\<close> (a \<^verbatim>\<open>--since\<close>), and \<^verbatim>\<open>Duration.String\<close> of whole seconds, with \<^verbatim>\<open>dur\<close> of
  \<^verbatim>\<open>cmd/gmux/main.go\<close>, which prints how long a share was held. Shown: what \<^verbatim>\<open>dur\<close> prints can be given as a duration and is the same time.
\<close>

subsection \<open>Parsing\<close>

text \<open>\<^verbatim>\<open>leadingInt\<close>: \<open>None\<close> when the number passes $2^{63}$.\<close>

fun leadingInt :: "int \<Rightarrow> string \<Rightarrow> (int \<times> string) option" where
  "leadingInt x [] = Some (x, [])"
| "leadingInt x (c # s) =
     (if \<not> is_digit c then Some (x, c # s)
      else if x > 2 ^ 63 div 10 then None
      else let y = x * 10 + int (digit c) in if y > 2 ^ 63 then None else leadingInt y s)"

text \<open>\<^verbatim>\<open>leadingFraction\<close>: digits that do not fit any more are read and dropped.\<close>

fun leadingFraction :: "bool \<Rightarrow> int \<Rightarrow> float64 \<Rightarrow> string \<Rightarrow> int \<times> float64 \<times> string" where
  "leadingFraction over x scale [] = (x, scale, [])"
| "leadingFraction over x scale (c # s) =
     (if \<not> is_digit c then (x, scale, c # s)
      else if over \<or> x > (2 ^ 63 - 1) div 10 then leadingFraction True x scale s
      else let y = x * 10 + int (digit c) in if y > 2 ^ 63 then leadingFraction True x scale s else leadingFraction False y (f64_mul scale (Fin 10)) s)"

text \<open>\<^verbatim>\<open>unitMap\<close>; microseconds may be written with either of two letters outside ASCII.\<close>

definition unitMap :: "string \<Rightarrow> int option" where
  "unitMap = map_of [(''ns'', 1), (''us'', 1000), (bytes [194, 181, 115], 1000), (bytes [206, 188, 115], 1000), (''ms'', 1000000),
     (''s'', 1000000000), (''m'', 60000000000), (''h'', 3600000000000)]"

definition unit_char :: "char \<Rightarrow> bool" where
  "unit_char c \<longleftrightarrow> c \<noteq> CHR ''.'' \<and> \<not> is_digit c"

text \<open>One round of the loop of \<^verbatim>\<open>ParseDuration\<close> on a string that is not empty: a number, a unit, and the rest.\<close>

definition duration_term :: "string \<Rightarrow> (int \<times> string) option" where
  "duration_term s =
     (if \<not> (hd s = CHR ''.'' \<or> is_digit (hd s)) then None
      else case leadingInt 0 s of None \<Rightarrow> None
        | Some (v, s1) \<Rightarrow>
            (case (if s1 \<noteq> [] \<and> hd s1 = CHR ''.'' then leadingFraction False 0 (Fin 1) (tl s1) else (0, Fin 1, s1)) of (f, scale, s2) \<Rightarrow>
               let dot = s1 \<noteq> [] \<and> hd s1 = CHR ''.''; u = takeWhile unit_char s2; s3 = dropWhile unit_char s2
               in if length s1 = length s \<and> \<not> (dot \<and> length s2 \<noteq> length (tl s1)) then None
                  else if u = [] then None
                  else case unitMap u of None \<Rightarrow> None
                    | Some unit \<Rightarrow>
                        if v > 2 ^ 63 div unit then None
                        else if f > 0 then
                          (let w = v * unit + f64_to_int (f64_mul (f64_of_int f) (f64_div (f64_of_int unit) scale)) in if w > 2 ^ 63 then None else Some (w, s3))
                        else Some (v * unit, s3)))"

lemma leadingInt_shorter: "leadingInt x s = Some (v, t) \<Longrightarrow> length t \<le> length s"
  by (induction x s rule: leadingInt.induct) (auto simp: Let_def split: if_splits)

lemma leadingFraction_shorter: "leadingFraction over x scale s = (v, sc, t) \<Longrightarrow> length t \<le> length s"
  by (induction over x scale s rule: leadingFraction.induct) (auto simp: Let_def split: if_splits)

lemma duration_term_shorter: "duration_term s = Some (v, t) \<Longrightarrow> length t < length s"
proof -
  assume d: "duration_term s = Some (v, t)"
  then obtain w s1 f scale s2 where l: "leadingInt 0 s = Some (w, s1)"
    and f: "(if s1 \<noteq> [] \<and> hd s1 = CHR ''.'' then leadingFraction False 0 (Fin 1) (tl s1) else (0, Fin 1, s1)) = (f, scale, s2)"
    and u: "takeWhile unit_char s2 \<noteq> []" and t: "t = dropWhile unit_char s2"
    by (auto simp: duration_term_def Let_def split: if_splits option.splits prod.splits)
  have "length s2 \<le> length s1" using f leadingFraction_shorter [of False 0 "Fin 1" "tl s1"] by (fastforce split: if_splits)
  moreover have "length t < length s2"
    using u unfolding t by (cases s2) (auto simp: less_Suc_eq_le length_dropWhile_le split: if_splits)
  ultimately show ?thesis using leadingInt_shorter [OF l] by linarith
qed

function duration_sum :: "int \<Rightarrow> string \<Rightarrow> int option" where
  "duration_sum d s =
     (if s = [] then Some d
      else case duration_term s of None \<Rightarrow> None
        | Some (v, t) \<Rightarrow> let d' = (d + v) mod 2 ^ 64 in if d' > 2 ^ 63 then None else duration_sum d' t)"
  by pat_completeness auto

termination
  by (relation "measure (length \<circ> snd)") (auto dest: duration_term_shorter)

declare duration_sum.simps [simp del]

definition ParseDuration :: "string \<Rightarrow> int option" where
  "ParseDuration s =
     (case read_sign s of (neg, t) \<Rightarrow>
        if t = ''0'' then Some 0
        else if t = [] then None
        else case duration_sum 0 t of None \<Rightarrow> None
          | Some d \<Rightarrow> if neg then Some (- d) else if d > 2 ^ 63 - 1 then None else Some d)"

subsection \<open>Printing\<close>

text \<open>\<^verbatim>\<open>Duration.String\<close> of a multiple of a second.\<close>

definition seconds_String :: "int \<Rightarrow> string" where
  "seconds_String d =
     (let u = \<bar>d\<bar> div 1000000000
      in if u = 0 then ''0s''
         else (if d < 0 then ''-'' else []) @
           (if u div 3600 > 0 then itoa_nat (nat (u div 3600)) @ ''h'' else []) @
           (if u div 60 > 0 then itoa_nat (nat (u div 60 mod 60)) @ ''m'' else []) @ itoa_nat (nat (u mod 60)) @ ''s'')"

definition wrap64 :: "int \<Rightarrow> int" where
  "wrap64 i = (i + 2 ^ 63) mod 2 ^ 64 - 2 ^ 63"

text \<open>\<^verbatim>\<open>time.Duration(sec) * time.Second\<close>, truncated to the second (Go's remainder has the sign of the dividend).\<close>

definition dur :: "float64 \<Rightarrow> string" where
  "dur sec = (let d = wrap64 (f64_to_int sec * 1000000000) in seconds_String (d - sgn d * (\<bar>d\<bar> mod 1000000000)))"

subsection \<open>The way back\<close>

lemma digits_grow: "n \<le> foldl (\<lambda>v c. 10 * v + digit c) n ds" for n :: nat
proof (induction ds arbitrary: n)
  case (Cons c ds)
  show ?case using Cons [of "10 * n + digit c"] by simp
qed simp

lemma leadingInt_digits:
  assumes "list_all is_digit ds" and "rest = [] \<or> \<not> is_digit (hd rest)" and "int (foldl (\<lambda>v c. 10 * v + digit c) n ds) \<le> 2 ^ 63"
  shows "leadingInt (int n) (ds @ rest) = Some (int (foldl (\<lambda>v c. 10 * v + digit c) n ds), rest)"
  using assms(1,3)
proof (induction ds arbitrary: n)
  case Nil
  then show ?case using assms(2) by (cases rest) auto
next
  case (Cons c ds)
  have "10 * n + digit c \<le> foldl (\<lambda>v c. 10 * v + digit c) n (c # ds)" using digits_grow [of "10 * n + digit c" ds] by simp
  then have le: "10 * int n + int (digit c) \<le> 2 ^ 63" using Cons.prems(2) by linarith
  then have "\<not> int n > 2 ^ 63 div 10" by simp
  then show ?case using Cons.IH [of "10 * n + digit c"] Cons.prems le by (simp add: mult.commute Let_def)
qed

lemma duration_term_whole:
  assumes "unitMap u = Some unit" and "list_all unit_char u" and "u \<noteq> []" and "rest = [] \<or> \<not> unit_char (hd rest)" and "unit > 0" and "int v * unit \<le> 2 ^ 63"
  shows "duration_term (itoa_nat v @ u @ rest) = Some (int v * unit, rest)"
proof -
  obtain c u' where u: "u = c # u'" using assms(3) by (cases u) auto
  have c: "\<not> is_digit c" "c \<noteq> CHR ''.''" using assms(2) u by (auto simp: unit_char_def)
  have "int v * 1 \<le> int v * unit" using assms(5) by (intro mult_left_mono) auto
  then have "int v \<le> 2 ^ 63" using assms(6) by linarith
  then have l: "leadingInt 0 (itoa_nat v @ u @ rest) = Some (int v, u @ rest)"
    using leadingInt_digits [OF itoa_nat_digits [of v], of "u @ rest" 0] c(1) u digits_val_itoa [of v] by (simp add: digits_val_def)
  have h: "is_digit (hd (itoa_nat v @ u @ rest))" using itoa_nat_digits [of v] by (cases "itoa_nat v") auto
  have t: "takeWhile unit_char (u @ rest) = u" "dropWhile unit_char (u @ rest) = rest"
    using assms(2,4) by (auto simp: list_all_iff takeWhile_append dropWhile_append takeWhile_eq_Nil_iff) (cases rest; auto)+
  have b: "\<not> int v > 2 ^ 63 div unit" using assms(5,6) by (simp add: zdiv_mono1 linorder_not_less) (metis assms(5,6) nonzero_mult_div_cancel_right less_numeral_extra(3) zdiv_mono1)
  have n: "itoa_nat v \<noteq> []" by simp
  show ?thesis unfolding duration_term_def l using h t b assms(1,3) n u c by (simp add: Let_def)
qed

lemma duration_sum_whole:
  assumes "unitMap u = Some unit" and "list_all unit_char u" and "u \<noteq> []" and "rest = [] \<or> \<not> unit_char (hd rest)" and "unit > 0" and "0 \<le> d" and "d + int v * unit \<le> 2 ^ 63"
  shows "duration_sum d (itoa_nat v @ u @ rest) = duration_sum (d + int v * unit) rest"
proof -
  have z: "0 \<le> int v * unit" using assms(5) by simp
  then have "duration_term (itoa_nat v @ u @ rest) = Some (int v * unit, rest)" using duration_term_whole [OF assms(1-5)] assms(6,7) by simp
  moreover have "(d + int v * unit) mod 2 ^ 64 = d + int v * unit" using assms(6,7) z by (intro mod_pos_pos_trivial) auto
  ultimately show ?thesis using assms(7) by (subst duration_sum.simps) simp
qed

lemma unitMap_hms: "unitMap ''h'' = Some 3600000000000" "unitMap ''m'' = Some 60000000000" "unitMap ''s'' = Some 1000000000"
  by (simp_all add: unitMap_def bytes_def)

lemma hms_unit_chars: "list_all unit_char ''h''" "list_all unit_char ''m''" "list_all unit_char ''s''"
  by (simp_all add: unit_char_def is_digit_def byte_def)

lemma itoa_hd: "is_digit (hd (itoa_nat n @ s))" "\<not> unit_char (hd (itoa_nat n @ s))"
  using itoa_nat_digits [of n] by (cases "itoa_nat n"; auto simp: unit_char_def)+

lemma ParseDuration_seconds:
  assumes "int u * 1000000000 < 2 ^ 63"
  shows "ParseDuration (seconds_String (int u * 1000000000)) = Some (int u * 1000000000)"
proof (cases "u = 0")
  case True
  have "itoa_nat 0 = ''0''" by code_simp
  then have "duration_sum 0 ''0s'' = Some 0"
    using duration_sum_whole [OF unitMap_hms(3) hms_unit_chars(3), of "[]" 0 0] by (simp add: duration_sum.simps [of 0 "[]"])
  then show ?thesis using True by (simp add: seconds_String_def ParseDuration_def read_sign_def)
next
  case False
  define h m s where "h = u div 3600" and "m = u div 60 mod 60" and "s = u mod 60"
  let ?r2 = "itoa_nat s @ ''s'' @ []"
  let ?r1 = "(if u div 60 > 0 then itoa_nat m @ ''m'' @ ?r2 else ?r2)"
  let ?r0 = "(if h > 0 then itoa_nat h @ ''h'' @ ?r1 else ?r1)"
  have h: "h = u div 60 div 60" by (simp add: h_def div_mult2_eq [symmetric])
  have "u = 60 * (60 * h + m) + s" unfolding h m_def s_def mult_div_mod_eq ..
  from arg_cong [OF this, of int] have e: "int u = 3600 * int h + 60 * int m + int s" by simp
  have str: "seconds_String (int u * 1000000000) = ?r0"
  proof -
    have i: "int u div 3600 = int h" "int u div 60 = int (u div 60)" "int u mod 60 = int s" "int (u div 60) mod 60 = int m"
      unfolding h_def m_def s_def by (simp_all only: zdiv_int zmod_int of_nat_numeral)
    have "\<bar>int u * 1000000000\<bar> div 1000000000 = int u" by (simp add: abs_mult)
    then show ?thesis using False unfolding seconds_String_def Let_def by (simp only: i nat_int of_nat_0_less_iff) simp
  qed
  have hd1: "\<not> unit_char (hd ?r1)" and hd0: "is_digit (hd ?r0)" using itoa_hd by auto
  have r2: "duration_sum d ?r2 = Some (d + int s * 1000000000)" if "0 \<le> d" "d + int s * 1000000000 \<le> 2 ^ 63" for d
    using duration_sum_whole [OF unitMap_hms(3) hms_unit_chars(3), of "[]" d s] that by (simp add: duration_sum.simps [of _ "[]"])
  have r1: "duration_sum d ?r1 = Some (d + int m * 60000000000 + int s * 1000000000)" if "0 \<le> d" "d + int m * 60000000000 + int s * 1000000000 \<le> 2 ^ 63" for d
  proof (cases "u div 60 > 0")
    case True
    then show ?thesis
      using duration_sum_whole [OF unitMap_hms(2) hms_unit_chars(2), of ?r2 d m] itoa_hd(2) [of s] r2 [of "d + int m * 60000000000"] that by simp
  next
    case False
    then have "m = 0" by (simp add: m_def)
    then show ?thesis using r2 [of d] that False by simp
  qed
  have "duration_sum 0 ?r0 = Some (int h * 3600000000000 + int m * 60000000000 + int s * 1000000000)"
  proof (cases "h > 0")
    case True
    then show ?thesis
      using duration_sum_whole [OF unitMap_hms(1) hms_unit_chars(1), of ?r1 0 h] hd1 r1 [of "int h * 3600000000000"] assms e by simp
  next
    case False
    then show ?thesis using r1 [of 0] assms e by simp
  qed
  moreover have "read_sign ?r0 = (False, ?r0)" using hd0 digit_not_sign [of "hd ?r0"] by (cases ?r0) (auto simp: read_sign_def)
  moreover have "last ?r0 = CHR ''s''" "?r0 \<noteq> []" by simp_all
  then have "?r0 \<noteq> ''0''" "?r0 \<noteq> []" by auto
  ultimately show ?thesis unfolding str ParseDuration_def using e assms by simp
qed

text \<open>What \<^verbatim>\<open>dur\<close> prints for a time of up to 270 years is read back as the whole seconds of it.\<close>

lemma dur_reads_back:
  assumes "0 \<le> q" and "q < 2 ^ 33"
  shows "ParseDuration (dur (Fin q)) = Some (\<lfloor>q\<rfloor> * 1000000000)"
proof -
  define n where "n = \<lfloor>q\<rfloor>"
  have n: "0 \<le> n" "n < 2 ^ 33" using assms by (simp_all add: n_def floor_less_iff)
  then have i: "f64_to_int (Fin q) = n" using assms(1) by (simp add: int64_ok_def n_def)
  have w: "wrap64 (n * 1000000000) = n * 1000000000" using n unfolding wrap64_def by (subst mod_pos_pos_trivial) auto
  have "\<bar>n * 1000000000\<bar> mod 1000000000 = 0" using n by (simp add: abs_mult)
  then have d: "dur (Fin q) = seconds_String (int (nat n) * 1000000000)" using n by (simp add: dur_def i w Let_def del: f64_to_int.simps)
  show ?thesis unfolding d n_def [symmetric] using ParseDuration_seconds [of "nat n"] n by simp
qed

end
