(* ===== verification/Usage_Report.thy ===== *)
theory Usage_Report
  imports Controller Go_Time
begin

text \<open>
  \<^verbatim>\<open>gmux usage\<close>: the command (\<^verbatim>\<open>usageCmd\<close> of \<^verbatim>\<open>cmd/gmux/main.go\<close>), the URL the clients make for it, what the server reads out of the query, and the rows that are printed. The handler and the sums are
  those of the theories \<open>Api\<close> and \<open>Accounting\<close>. Shown: the report is of exactly the time asked for, wherever the command goes, and what a time that does not parse comes to.
\<close>

subsection \<open>Queries\<close>

text \<open>\<^verbatim>\<open>url.QueryUnescape\<close>; \<open>None\<close> for an escape that is not one.\<close>

fun QueryUnescape :: "string \<Rightarrow> string option" where
  "QueryUnescape [] = Some []"
| "QueryUnescape (c # s) =
     (if c = CHR ''%'' then
        (case s of a # b # t \<Rightarrow> if is_hex_digit a \<and> is_hex_digit b then map_option ((#) (char_of (16 * hex_digit a + hex_digit b))) (QueryUnescape t) else None | _ \<Rightarrow> None)
      else map_option ((#) (if c = CHR ''+'' then CHR '' '' else c)) (QueryUnescape s))"

text \<open>\<^verbatim>\<open>url.ParseQuery\<close>, a pair at a time, and \<^verbatim>\<open>Values.Get\<close>.\<close>

definition query_pair :: "string \<Rightarrow> (string \<times> string) option" where
  "query_pair p =
     (if CHR '';'' \<in> set p \<or> p = [] then None
      else case Cut p ''='' of (k, v, _) \<Rightarrow>
        (case QueryUnescape k of None \<Rightarrow> None | Some k' \<Rightarrow> (case QueryUnescape v of None \<Rightarrow> None | Some v' \<Rightarrow> Some (k', v'))))"

definition Query_Get :: "string \<Rightarrow> string \<Rightarrow> string" where
  "Query_Get q key = (case map_of (List.map_filter query_pair (Split q ''&'')) key of Some v \<Rightarrow> v | None \<Rightarrow> [])"

text \<open>
  The query of \<^verbatim>\<open>"/v1/usage?since="+since+"\&by="+by\<close> as it reaches the server: \<^verbatim>\<open>http.NewRequest\<close> refuses control bytes and bad escapes after a \<^verbatim>\<open>\#\<close> (whose
  text stays with the client), and a space ends the request line too early.
\<close>

definition usage_query :: "string \<Rightarrow> string \<Rightarrow> string option" where
  "usage_query since by_key =
     (let q = ''since='' @ since @ ''&by='' @ by_key; raw = takeWhile (\<lambda>c. c \<noteq> CHR ''#'') q; frag = dropWhile (\<lambda>c. c \<noteq> CHR ''#'') q
      in if list_ex (\<lambda>c. byte c < 32 \<or> byte c = 127) q \<or> QueryUnescape frag = None \<or> CHR '' '' \<in> set raw then None else Some raw)"

text \<open>What the handler \<^verbatim>\<open>usage\<close> reads out of it.\<close>

definition query_req :: "string \<Rightarrow> http_req \<Rightarrow> http_req" where
  "query_req q r = r\<lparr>rq_By := Query_Get q ''by'', rq_Since := (let v = Query_Get q ''since'' in if v \<noteq> [] then ParseDuration v else None)\<rparr>"

subsection \<open>The clients\<close>

text \<open>A row with a number that is not finite cannot be encoded: the body stays empty and the client's decoder reports it.\<close>

fun is_finite :: "float64 \<Rightarrow> bool" where
  "is_finite (Fin _) = True"
| "is_finite _ = False"

definition row_encodes :: "Row \<Rightarrow> bool" where
  "row_encodes r \<longleftrightarrow> is_finite (rw_Seconds r) \<and> is_finite (rw_ShareSeconds r) \<and> is_finite (rw_GPUHours r) \<and> is_finite (rw_MemGiBHours r)"

definition usage_rows_of :: "Server \<times> payload option \<times> deffect list \<Rightarrow> Row list option" where
  "usage_rows_of res = (case res of (_, Some (PUsage _ _ rows), _) \<Rightarrow> if list_all row_encodes rows then Some rows else None | _ \<Rightarrow> None)"

definition local_Usage :: "link \<Rightarrow> string \<Rightarrow> string \<Rightarrow> Server \<Rightarrow> Row list option" where
  "local_Usage k since by_key s =
     (case usage_query since by_key of None \<Rightarrow> None
      | Some q \<Rightarrow> usage_rows_of (do_result (mux (lk_sha256 k) (lk_out k) (query_req q (local_req ''GET'' ''/v1/usage'' no_body)) s)))"

definition remote_Usage :: "link \<Rightarrow> Client \<Rightarrow> string \<Rightarrow> string \<Rightarrow> Server \<Rightarrow> Row list option" where
  "remote_Usage k c since by_key s =
     (case usage_query since by_key of None \<Rightarrow> None
      | Some q \<Rightarrow> usage_rows_of (do_result (call k (query_req q (client_req c ''GET'' ''/v1/usage'' no_body [])) s)))"

subsection \<open>The command\<close>

text \<open>\<^verbatim>\<open>%.3f\<close>, and \<^verbatim>\<open>num\<close>, which is the number itself for what the decoder makes of a JSON number.\<close>

fun fmt_f3 :: "float64 \<Rightarrow> string" where
  "fmt_f3 (Fin q) = (let t = nat (rhe (1000 * \<bar>q\<bar>)); r = itoa_nat (t mod 1000)
     in (if q < 0 then ''-'' else []) @ itoa_nat (t div 1000) @ ''.'' @ replicate (3 - length r) (CHR ''0'') @ r)"
| "fmt_f3 PInf = ''+Inf''"
| "fmt_f3 NInf = ''-Inf''"
| "fmt_f3 NaN = ''NaN''"

definition usage_line :: "Row \<Rightarrow> string list" where
  "usage_line r = [rw_Key r, fmt_f3 (rw_GPUHours r), fmt_f1 (rw_MemGiBHours r), dur (rw_Seconds r)]"

text \<open>\<open>reach\<close> is the daemon a controller gets to, if it is there.\<close>

definition usageCmd :: "(string \<Rightarrow> string) \<Rightarrow> (string \<Rightarrow> string) \<Rightarrow> cli_env \<Rightarrow> cli_error + hostConfig \<Rightarrow> bool \<Rightarrow> (controller \<Rightarrow> (link \<times> Server) option) \<Rightarrow> string list \<Rightarrow>
    cli_error + string list list" where
  "usageCmd uni up ev load localUp reach args =
     (let fs = flags args; since = fs_str fs ''since'' ''24h''; by_key = fs_str fs ''by'' ''job''
      in case pick uni ev load localUp fs of Inl e \<Rightarrow> Inl e
        | Inr (ctl, _) \<Rightarrow>
            (case reach ctl of None \<Rightarrow> Inl HostError
             | Some (k, s) \<Rightarrow>
                 (case (case ctl of LocalSock _ \<Rightarrow> local_Usage k since by_key s | RemoteHost c \<Rightarrow> remote_Usage k c since by_key s) of
                    None \<Rightarrow> Inl HostError
                  | Some rows \<Rightarrow> Inr ([ToUpper up by_key, ''GPU-HOURS'', ''MEM GIB-HOURS'', ''HELD''] # map usage_line rows))))"

subsection \<open>The window\<close>

definition query_plain :: "char \<Rightarrow> bool" where
  "query_plain c \<longleftrightarrow> 33 \<le> byte c \<and> byte c < 127 \<and> c \<notin> {CHR ''%'', CHR ''&'', CHR ''+'', CHR '';'', CHR ''#'', CHR ''=''}"

lemma QueryUnescape_plain: "list_all query_plain s \<Longrightarrow> QueryUnescape s = Some s"
  by (induction s) (auto simp: query_plain_def)

lemma plain_url:
  assumes "\<forall>c \<in> set q. 33 \<le> byte c \<and> byte c < 127 \<and> c \<noteq> CHR ''#''"
  shows "takeWhile (\<lambda>c. c \<noteq> CHR ''#'') q = q" and "dropWhile (\<lambda>c. c \<noteq> CHR ''#'') q = []" and "\<not> list_ex (\<lambda>c. byte c < 32 \<or> byte c = 127) q" and "CHR '' '' \<notin> set q"
proof -
  show "takeWhile (\<lambda>c. c \<noteq> CHR ''#'') q = q" "dropWhile (\<lambda>c. c \<noteq> CHR ''#'') q = []" using assms by (simp_all add: takeWhile_eq_all_conv dropWhile_eq_Nil_conv)
  have "\<not> (byte c < 32 \<or> byte c = 127)" if "c \<in> set q" for c using assms [rule_format, OF that] by linarith
  then show "\<not> list_ex (\<lambda>c. byte c < 32 \<or> byte c = 127) q" unfolding list_ex_iff by blast
  have "byte (CHR '' '') = 32" by (simp add: byte_def)
  then show "CHR '' '' \<notin> set q" using assms by force
qed

lemma usage_query_plain:
  assumes "list_all query_plain since" and "list_all query_plain by_key"
  shows "usage_query since by_key = Some (''since='' @ since @ ''&by='' @ by_key)"
proof -
  have "33 \<le> byte c \<and> byte c < 127 \<and> c \<noteq> CHR ''#''" if "c \<in> set since \<union> set by_key" for c using that assms by (auto simp: query_plain_def list_all_iff)
  then have "\<forall>c \<in> set (''since='' @ since @ ''&by='' @ by_key). 33 \<le> byte c \<and> byte c < 127 \<and> c \<noteq> CHR ''#''" by (simp add: ball_Un byte_def)
  note p = plain_url [OF this]
  show ?thesis unfolding usage_query_def Let_def p(1,2) using p(3,4) by simp
qed

lemma Query_Get_usage:
  assumes "list_all query_plain since" and "list_all query_plain by_key"
  defines "q \<equiv> ''since='' @ since @ ''&by='' @ by_key"
  shows "Query_Get q ''since'' = since" and "Query_Get q ''by'' = by_key"
proof -
  have no: "c \<notin> set since" "c \<notin> set by_key" if "\<not> query_plain c" for c using assms(1,2) that by (auto simp: list_all_iff)
  have n: "\<not> query_plain (CHR ''&'')" "\<not> query_plain (CHR ''='')" "\<not> query_plain (CHR '';'')" by (simp_all add: query_plain_def)
  have "parts (CHR ''&'') (''by='' @ by_key) = [''by='' @ by_key]" using no(2) [OF n(1)] by (subst parts_cut) simp
  then have sp: "Split q ''&'' = [''since='' @ since, ''by='' @ by_key]"
    unfolding q_def Split_parts using no(1) [OF n(1)] by (subst parts_cut) (simp add: takeWhile_append)
  have cut: "Cut (k @ ''='' @ v) ''='' = (k, v, True)" if "CHR ''='' \<notin> set k" for k v
    unfolding Cut_byte using that by (simp add: takeWhile_append)
  have pair: "query_pair (k @ ''='' @ v) = Some (k, v)" if "list_all query_plain k" "list_all query_plain v" for k v
  proof -
    have "CHR '';'' \<notin> set k" "CHR '';'' \<notin> set v" "CHR ''='' \<notin> set k" using that n(2,3) by (auto simp: list_all_iff)
    then show ?thesis unfolding query_pair_def using cut [of k v] QueryUnescape_plain that by simp
  qed
  have p: "query_pair (''since='' @ since) = Some (''since'', since)" "query_pair (''by='' @ by_key) = Some (''by'', by_key)"
    using pair [of "''since''" since] pair [of "''by''" by_key] assms(1,2) by (simp_all add: query_plain_def byte_def)
  show "Query_Get q ''since'' = since" "Query_Get q ''by'' = by_key"
    unfolding Query_Get_def sp List.map_filter_def using p by simp_all
qed

lemma mux_usage: "rq_Path r = ''/v1/usage'' \<Longrightarrow> mux sha256 wd r s = api_usage wd r s"
proof -
  have "mux_path ''/v1/usage'' = ''/v1/usage''" by code_simp
  then show "rq_Path r = ''/v1/usage'' \<Longrightarrow> mux sha256 wd r s = api_usage wd r s" by (simp add: mux_def HasPrefix_def)
qed

text \<open>Either client gets the rows of the daemon's ledger, through the handler.\<close>

lemma usage_through_handler:
  assumes "rq_Path r = ''/v1/usage''" and "list_all query_plain since" and "list_all query_plain by_key"
  defines "D \<equiv> (case ParseDuration since of Some d \<Rightarrow> d | None \<Rightarrow> 86400000000000)"
  shows "usage_rows_of (do_result (mux sha256 wd (query_req (''since='' @ since @ ''&by='' @ by_key) r) s)) =
    (case Usage (wd_now wd - D) (wd_now wd) by_key (dm_ledger (sv_d s)) of None \<Rightarrow> None | Some rows \<Rightarrow> if list_all row_encodes rows then Some rows else None)"
proof -
  let ?r = "query_req (''since='' @ since @ ''&by='' @ by_key) r"
  have e: "ParseDuration [] = None" by (simp add: ParseDuration_def read_sign_def)
  have "rq_By ?r = by_key" "(case rq_Since ?r of Some d \<Rightarrow> wd_now wd - d | None \<Rightarrow> wd_now wd - 86400000000000) = wd_now wd - D"
    using Query_Get_usage [OF assms(2,3)] e by (auto simp: query_req_def Let_def D_def split: option.split)
  moreover have "rq_Path ?r = ''/v1/usage''" using assms(1) by (simp add: query_req_def)
  ultimately show ?thesis
    by (simp add: mux_usage api_usage_def Let_def Usage_of_def do_result_def usage_rows_of_def fail_with_def split: option.split)
qed

text \<open>
  C25: \<^verbatim>\<open>gmux usage\<close> prints, wherever it goes, the rows the daemon's ledger has for exactly the asked time up to now, grouped as asked, and nothing is changed; a grouping there is not is an error. A time
  that does not parse is not an error: the report is then of the last day. How long a share was held is printed so that it can be given as such a time and means the same, to the second.
\<close>

theorem usage_reports_the_window:
  assumes "pick uni ev load localUp (flags args) = Inr (ctl, place)" and "reach ctl = Some (k, s)" and "\<forall>c. ctl = RemoteHost c \<longrightarrow> let_in c s"
    and "fs_str (flags args) ''since'' ''24h'' = since" and "fs_str (flags args) ''by'' ''job'' = by_key"
    and "list_all query_plain since" and "list_all query_plain by_key"
  defines "D \<equiv> (case ParseDuration since of Some d \<Rightarrow> d | None \<Rightarrow> 86400000000000)" and "now \<equiv> wd_now (lk_out k)"
  shows "usageCmd uni up ev load localUp reach args =
      (case Usage (now - D) now by_key (dm_ledger (sv_d s)) of None \<Rightarrow> Inl HostError
       | Some rows \<Rightarrow> if list_all row_encodes rows then Inr ([ToUpper up by_key, ''GPU-HOURS'', ''MEM GIB-HOURS'', ''HELD''] # map usage_line rows) else Inl HostError) \<and>
    (\<forall>r q. rw_Seconds r = Fin q \<and> 0 \<le> q \<and> q < 2 ^ 33 \<longrightarrow> ParseDuration (usage_line r ! 3) = Some (\<lfloor>q\<rfloor> * 1000000000))"
proof -
  let ?rows = "case Usage (now - D) now by_key (dm_ledger (sv_d s)) of None \<Rightarrow> None | Some rows \<Rightarrow> if list_all row_encodes rows then Some rows else None"
  note q = usage_query_plain [OF assms(6,7)]
  have l: "local_Usage k since by_key s = ?rows"
    unfolding local_Usage_def q D_def now_def using usage_through_handler [OF _ assms(6,7)] by (simp add: local_req_def)
  have r: "remote_Usage k c since by_key s = ?rows" if "let_in c s" for c
  proof -
    have "call k (query_req q (client_req c m p b d)) s = mux (lk_sha256 k) (lk_out k) (query_req q (client_req c m p b d)) s" for q m p b d
      using that by (auto simp: call_def handler_def let_in_def query_req_def client_req_def auth_header_def EqualFold_def is_ascii_def Let_def byte_def)
    then show ?thesis unfolding remote_Usage_def q D_def now_def using usage_through_handler [OF _ assms(6,7)] by (simp add: client_req_def)
  qed
  have u: "(case ctl of LocalSock _ \<Rightarrow> local_Usage k since by_key s | RemoteHost c \<Rightarrow> remote_Usage k c since by_key s) = ?rows"
    using l r assms(3) by (cases ctl) auto
  have "usageCmd uni up ev load localUp reach args =
      (case ?rows of None \<Rightarrow> Inl HostError | Some rows \<Rightarrow> Inr ([ToUpper up by_key, ''GPU-HOURS'', ''MEM GIB-HOURS'', ''HELD''] # map usage_line rows))"
    unfolding usageCmd_def Let_def assms(1,4,5) using assms(2) u by simp
  then show ?thesis using dur_reads_back by (simp add: usage_line_def numeral_3_eq_3 split: option.split)
qed

text \<open>Two hours of half a card, and a report of the last of them.\<close>

definition demo_books :: Ledger where
  "demo_books = Open_ledger [Some \<lparr>iv_Job = ''a'', iv_Name = [], iv_Owner = ''ann'', iv_Vendor = ''nvidia'', iv_Card = 0, iv_CardName = ''L4'', iv_Share = Fin (1 / 2), iv_MemMiB = 4096,
     iv_Start = 0, iv_End = 7200000000000\<rparr>]"

definition demo_later :: link where
  "demo_later = demo_link\<lparr>lk_out := demo_out\<lparr>wd_now := 7200000000000\<rparr>\<rparr>"

theorem usage_reports_the_window_witness:
  "usageCmd id id \<lparr>ev_REMOTE = [], ev_SOCKET = [], ev_STATE = [], ev_USER = []\<rparr> (Inl ConfigUnreadable) False (\<lambda>_. Some (demo_later, demo_server\<lparr>sv_d := demo_daemon\<lparr>dm_ledger := demo_books\<rparr>\<rparr>))
     [''--local'', ''--since=1h'', ''--by'', ''owner''] =
   Inr [[''OWNER'', ''GPU-HOURS'', ''MEM GIB-HOURS'', ''HELD''], [''ann'', ''0.500'', ''4.0'', ''1h0m0s'']]"
proof -
  let ?args = "[''--local'', ''--since=1h'', ''--by'', ''owner'']"
  let ?ev = "\<lparr>ev_REMOTE = [], ev_SOCKET = [], ev_STATE = [], ev_USER = []\<rparr>"
  have f: "fs_str (flags ?args) ''since'' ''24h'' = ''1h''" "fs_str (flags ?args) ''by'' ''job'' = ''owner''" "fs_bool (flags ?args) ''local''" by code_simp+
  have p: "list_all query_plain ''1h''" "list_all query_plain ''owner''" by code_simp+
  have c: "pick id ?ev (Inl ConfigUnreadable) False (flags ?args) = Inr (LocalSock (sockPath ?ev), ''local'')" using f(3) by (simp add: pick_def)
  have d: "ParseDuration ''1h'' = Some 3600000000000" by code_simp
  let ?row = "\<lparr>rw_Key = ''ann'', rw_Seconds = Fin 3600, rw_ShareSeconds = Fin 1800, rw_GPUHours = Fin (1 / 2), rw_MemGiBHours = Fin 4\<rparr>"
  have u: "Usage (7200000000000 - 3600000000000) 7200000000000 ''owner'' demo_books = Some [?row]" by code_simp
  have e: "usage_line ?row = [''ann'', ''0.500'', ''4.0'', ''1h0m0s'']" "row_encodes ?row" by code_simp+
  have t: "ToUpper id ''owner'' = ''OWNER''" by code_simp
  show ?thesis
    using usage_reports_the_window [OF c _ _ f(1,2) p, of "\<lambda>_. Some (demo_later, demo_server\<lparr>sv_d := demo_daemon\<lparr>dm_ledger := demo_books\<rparr>\<rparr>)" demo_later
        "demo_server\<lparr>sv_d := demo_daemon\<lparr>dm_ledger := demo_books\<rparr>\<rparr>" id] d u e t
    by (auto simp: demo_later_def split: option.splits)
qed

end
