(* ===== verification/Gmux_Main.thy ===== *)
theory Gmux_Main
  imports Runtime_Properties Usage_Report Host_Serve
begin

text \<open>
  \<^verbatim>\<open>main\<close> of \<^verbatim>\<open>cmd/gmux/main.go\<close>: which command a command line is, and the status gmux exits with. What a command does is that of the other theories
  (\<open>serve\<close>, \<open>run_cmd\<close>, \<open>cmdRemote\<close>, \<open>resize_cmd\<close>, \<open>stop_cmd\<close>, \<open>usageCmd\<close>, \<open>fenceChild\<close>); here it is how it ends. Shown: a fenced start runs \<^verbatim>\<open>fenceChild\<close> on the job's command.
\<close>

datatype command = CmdServe | CmdRun | CmdPs | CmdTop | CmdCards | CmdRemote | CmdResize | CmdStop | CmdUsage | CmdFence

text \<open>A command returns, without or with an error, or ends the process itself (a remote run passes its job's exit code on).\<close>

datatype outcome = Returns | Fails | Exits int

definition command_of :: "string \<Rightarrow> command option" where
  "command_of = map_of [(''serve'', CmdServe), (''run'', CmdRun), (''ps'', CmdPs), (''top'', CmdTop), (''cards'', CmdCards), (''remote'', CmdRemote),
     (''resize'', CmdResize), (''stop'', CmdStop), (''usage'', CmdUsage), (''__fence'', CmdFence)]"

datatype printed = Help | Version | UnknownCommand string

definition gmux_main :: "(command \<Rightarrow> string list \<Rightarrow> outcome) \<Rightarrow> string list \<Rightarrow> int \<times> printed list" where
  "gmux_main exec args =
     (if length args < 2 then (2, [Help])
      else let name = args ! 1
           in case command_of name of
               Some c \<Rightarrow> (case exec c (drop 2 args) of Returns \<Rightarrow> 0 | Fails \<Rightarrow> 1 | Exits code \<Rightarrow> code, [])
             | None \<Rightarrow>
                 if name \<in> {''-h'', ''--help'', ''help''} then (0, [Help])
                 else if name = ''version'' then (0, [Version])
                 else (2, [UnknownCommand name, Help]))"

text \<open>The process a fenced start creates is gmux itself; its \<^verbatim>\<open>main\<close> runs \<^verbatim>\<open>fenceChild\<close>, which gets the job's mode and command, and nothing else of the program runs in it.\<close>

lemma fenced_start_runs_fenceChild:
  assumes "sp_DenyNet s \<or> sp_Allow s \<noteq> []" and "Start canFence environ s an = (res, acts)" and "StartCmd cmd ok \<in> set acts"
  shows "\<exists>child. gmux_main exec (cm_Args cmd) = (case exec CmdFence child of Returns \<Rightarrow> 0 | Fails \<Rightarrow> 1 | Exits code \<Rightarrow> code, []) \<and>
    fenceChild child = Some (Inr (if sp_DenyNet s then DenyMode else AllowlistMode, sp_Command s))"
proof -
  have "\<exists>child. cm_Args cmd = sp_SelfPath s # ''__fence'' # child \<and> fenceChild child = Some (Inr (if sp_DenyNet s then DenyMode else AllowlistMode, sp_Command s))"
    using assms by (auto simp: Start_def startFenced_def fenceChild_def Let_def split: if_splits option.splits prod.splits)
  then show ?thesis by (auto simp: gmux_main_def command_of_def)
qed

text \<open>A command line that names no command runs none, and says so in its status unless it asks for help or the version.\<close>

lemma main_without_command:
  "command_of name = None \<Longrightarrow> gmux_main exec (self # name # rest) = gmux_main exec' (self # name # rest') \<and>
     (fst (gmux_main exec (self # name # rest)) = 0 \<longleftrightarrow> name \<in> {''-h'', ''--help'', ''help'', ''version''})"
  by (auto simp: gmux_main_def)

end
